(* ===== verification/Prelude.thy ===== *)
theory Prelude
  imports Complex_Main
begin

text \<open>
  The vocabulary the component theories share.

  \<^item> \<open>jsnum\<close>, \<open>jsv\<close>: JavaScript numbers and values.  A finite number is an exact
    rational: rounding and overflow of double arithmetic are not modelled (the millisecond
    timestamps and durations of the code are far below \<open>2 ^ 53\<close>, where doubles are exact
    on integers).  \<open>NaN\<close> and the infinities are kept, with the comparison rules of
    the language, because several checks of the code depend on them.  Strings are lists of
    \<open>char\<close>, one per UTF-16 unit of the Latin-1 range.
  \<^item> thrown values are \<open>Inl\<close>, results \<open>Inr\<close>.
  \<^item> \<open>prog\<close>: an async function as a tree of its effects: it reads the clock
    (\<open>Now\<close>), awaits a request to a service the repository only calls (\<open>Call\<close>), returns or
    throws.  The service is never defined here: it is the handler argument of \<open>run\<close>,
    and \<open>runs\<close> adds arbitrary steps of other processes between any two effects.
\<close>

named_theorems js_simps \<open>evaluation of the number model\<close>
named_theorems prog_simps \<open>evaluation of programs\<close>

section \<open>Numbers\<close>

datatype jsnum = Fin rat | PInf | NInf | NaN

fun js_add :: "jsnum \<Rightarrow> jsnum \<Rightarrow> jsnum" where
  "js_add (Fin a) (Fin b) = Fin (a + b)"
| "js_add NaN _ = NaN"
| "js_add _ NaN = NaN"
| "js_add PInf NInf = NaN"
| "js_add NInf PInf = NaN"
| "js_add PInf _ = PInf"
| "js_add _ PInf = PInf"
| "js_add NInf _ = NInf"
| "js_add _ NInf = NInf"

fun js_neg :: "jsnum \<Rightarrow> jsnum" where
  "js_neg (Fin a) = Fin (- a)"
| "js_neg PInf = NInf"
| "js_neg NInf = PInf"
| "js_neg NaN = NaN"

definition js_sub :: "jsnum \<Rightarrow> jsnum \<Rightarrow> jsnum" where
  "js_sub a b = js_add a (js_neg b)"

text \<open>Multiplication and division by a positive constant, the only products in the code.\<close>

fun js_scale :: "rat \<Rightarrow> jsnum \<Rightarrow> jsnum" where
  "js_scale c (Fin a) = Fin (c * a)"
| "js_scale c x = x"

text \<open>Comparisons: every comparison with \<open>NaN\<close> is false, \<open>===\<close> included.\<close>

fun js_lt :: "jsnum \<Rightarrow> jsnum \<Rightarrow> bool" where
  "js_lt (Fin a) (Fin b) \<longleftrightarrow> a < b"
| "js_lt NaN _ \<longleftrightarrow> False"
| "js_lt _ NaN \<longleftrightarrow> False"
| "js_lt PInf _ \<longleftrightarrow> False"
| "js_lt _ PInf \<longleftrightarrow> True"
| "js_lt NInf (Fin _) \<longleftrightarrow> True"
| "js_lt _ NInf \<longleftrightarrow> False"

definition js_eq :: "jsnum \<Rightarrow> jsnum \<Rightarrow> bool" where
  "js_eq a b \<longleftrightarrow> a = b \<and> a \<noteq> NaN"

definition js_le :: "jsnum \<Rightarrow> jsnum \<Rightarrow> bool" where
  "js_le a b \<longleftrightarrow> js_lt a b \<or> js_eq a b"

definition js_max :: "jsnum \<Rightarrow> jsnum \<Rightarrow> jsnum" where
  "js_max a b = (if a = NaN \<or> b = NaN then NaN else if js_lt a b then b else a)"

definition js_isFinite :: "jsnum \<Rightarrow> bool" where
  "js_isFinite x \<longleftrightarrow> (case x of Fin _ \<Rightarrow> True | _ \<Rightarrow> False)"

text \<open>\<open>Math.trunc\<close>, \<open>Math.floor\<close> and \<open>Math.ceil\<close>.\<close>

definition trunc_rat :: "rat \<Rightarrow> int" where
  "trunc_rat r = (if r < 0 then \<lceil>r\<rceil> else \<lfloor>r\<rfloor>)"

fun js_trunc :: "jsnum \<Rightarrow> jsnum" where
  "js_trunc (Fin a) = Fin (of_int (trunc_rat a))"
| "js_trunc x = x"

fun js_floor :: "jsnum \<Rightarrow> jsnum" where
  "js_floor (Fin a) = Fin (of_int \<lfloor>a\<rfloor>)"
| "js_floor x = x"

fun js_ceil :: "jsnum \<Rightarrow> jsnum" where
  "js_ceil (Fin a) = Fin (of_int \<lceil>a\<rceil>)"
| "js_ceil x = x"

lemma js_le_Fin [simp]: "js_le (Fin a) (Fin b) \<longleftrightarrow> a \<le> b"
  by (auto simp: js_le_def js_eq_def)

lemma js_eq_Fin [simp]: "js_eq (Fin a) (Fin b) \<longleftrightarrow> a = b"
  by (simp add: js_eq_def)

lemma js_eq_NaN [simp]: "\<not> js_eq NaN x" "\<not> js_eq x NaN"
  by (auto simp: js_eq_def)

lemma js_lt_NaN [simp]: "\<not> js_lt NaN x" "\<not> js_lt x NaN"
  by (cases x; simp)+

lemma js_le_NaN [simp]: "\<not> js_le NaN x" "\<not> js_le x NaN"
  by (simp_all add: js_le_def)

lemma js_sub_Fin [simp]: "js_sub (Fin a) (Fin b) = Fin (a - b)"
  by (simp add: js_sub_def)

lemma js_max_Fin [simp]: "js_max (Fin a) (Fin b) = Fin (max a b)"
  by (auto simp: js_max_def max_def)

lemma js_isFinite_iff [simp]:
  "js_isFinite (Fin a)" "\<not> js_isFinite PInf" "\<not> js_isFinite NInf" "\<not> js_isFinite NaN"
  by (simp_all add: js_isFinite_def)

lemma js_isFiniteE: "js_isFinite x \<Longrightarrow> \<exists>a. x = Fin a"
  by (cases x) auto

lemma trunc_rat_of_int [simp]: "trunc_rat (of_int i) = i"
  by (simp add: trunc_rat_def)

lemma trunc_rat_numeral [simp]: "trunc_rat (numeral n) = numeral n"
  by (simp add: trunc_rat_def)

lemma trunc_rat_01 [simp]: "trunc_rat 0 = 0" "trunc_rat 1 = 1"
  by (simp_all add: trunc_rat_def)

lemma trunc_rat_le: "0 \<le> r \<Longrightarrow> of_int (trunc_rat r) \<le> r"
  by (simp add: trunc_rat_def)

lemmas js_num_simps = js_le_def js_eq_def js_max_def js_sub_def

section \<open>Values and thrown errors\<close>

text \<open>
  \<open>JObj c ps\<close> is an object of class \<open>c\<close> with its own properties; \<open>JErr c ps\<close> one whose
  class descends from \<open>Error\<close>.
\<close>

datatype jsv =
    JUndef
  | JNull
  | JBool bool
  | JNum jsnum
  | JStr string
  | JDate jsnum
  | JArr "jsv list"
  | JObj string "(string \<times> jsv) list"
  | JErr string "(string \<times> jsv) list"

text \<open>\<open>v?.k\<close>: a missing property, or a receiver without properties, gives \<open>undefined\<close>.\<close>

definition jget :: "jsv \<Rightarrow> string \<Rightarrow> jsv" where
  "jget v k = (case v of
     JObj _ ps \<Rightarrow> (case map_of ps k of None \<Rightarrow> JUndef | Some x \<Rightarrow> x)
   | JErr _ ps \<Rightarrow> (case map_of ps k of None \<Rightarrow> JUndef | Some x \<Rightarrow> x)
   | _ \<Rightarrow> JUndef)"

definition instanceof :: "jsv \<Rightarrow> string \<Rightarrow> bool" where
  "instanceof v c \<longleftrightarrow> (case v of JObj d _ \<Rightarrow> d = c | JErr d _ \<Rightarrow> d = c | _ \<Rightarrow> False)"

text \<open>\<open>typeof v === 'object' && v !== null\<close>.\<close>

definition is_object :: "jsv \<Rightarrow> bool" where
  "is_object v \<longleftrightarrow> (case v of
     JDate _ \<Rightarrow> True | JArr _ \<Rightarrow> True | JObj _ _ \<Rightarrow> True | JErr _ _ \<Rightarrow> True | _ \<Rightarrow> False)"

text \<open>Truthiness, as in \<open>if (v)\<close>.\<close>

definition truthy :: "jsv \<Rightarrow> bool" where
  "truthy v \<longleftrightarrow> (case v of
     JUndef \<Rightarrow> False | JNull \<Rightarrow> False | JBool b \<Rightarrow> b
   | JNum x \<Rightarrow> x \<noteq> Fin 0 \<and> x \<noteq> NaN | JStr s \<Rightarrow> s \<noteq> [] | _ \<Rightarrow> True)"

text \<open>\<open>a ?? b\<close>.\<close>

definition nullish :: "jsv \<Rightarrow> jsv \<Rightarrow> jsv" where
  "nullish a b = (if a = JUndef \<or> a = JNull then b else a)"

definition mk_error :: "string \<Rightarrow> string \<Rightarrow> jsv" where
  "mk_error c msg = JErr c [(''name'', JStr c), (''message'', JStr msg)]"

definition RangeError :: "string \<Rightarrow> jsv" where
  "RangeError msg = mk_error ''RangeError'' msg"

definition TypeError :: "string \<Rightarrow> jsv" where
  "TypeError msg = mk_error ''TypeError'' msg"

lemma jget_JObj [simp]:
  "jget (JObj c ((k, x) # ps)) j = (if j = k then x else jget (JObj c ps) j)"
  "jget (JObj c []) j = JUndef"
  by (auto simp: jget_def)

lemma jget_JErr [simp]:
  "jget (JErr c ((k, x) # ps)) j = (if j = k then x else jget (JErr c ps) j)"
  "jget (JErr c []) j = JUndef"
  by (auto simp: jget_def)

lemma jget_atom [simp]:
  "jget JUndef k = JUndef" "jget JNull k = JUndef" "jget (JBool b) k = JUndef"
  "jget (JNum n) k = JUndef" "jget (JStr s) k = JUndef" "jget (JDate d) k = JUndef"
  "jget (JArr xs) k = JUndef"
  by (simp_all add: jget_def)

lemma nullish_simps [simp]:
  "nullish JUndef b = b" "nullish JNull b = b"
  "nullish (JStr s) b = JStr s" "nullish (JNum n) b = JNum n" "nullish (JBool c) b = JBool c"
  "nullish (JObj k ps) b = JObj k ps" "nullish (JArr xs) b = JArr xs" "nullish (JDate d) b = JDate d"
  by (simp_all add: nullish_def)

lemma truthy_simps [simp]:
  "\<not> truthy JUndef" "\<not> truthy JNull" "truthy (JBool b) = b" "truthy (JStr s) = (s \<noteq> [])"
  by (simp_all add: truthy_def)

lemma instanceof_simps [simp]:
  "instanceof (JErr c ps) d \<longleftrightarrow> c = d" "instanceof (JObj c ps) d \<longleftrightarrow> c = d"
  "\<not> instanceof JUndef d" "\<not> instanceof JNull d" "\<not> instanceof (JStr s) d"
  "\<not> instanceof (JNum n) d" "\<not> instanceof (JBool b) d"
  by (simp_all add: instanceof_def)

lemma is_object_simps [simp]:
  "is_object (JErr c ps)" "is_object (JObj c ps)" "is_object (JArr xs)" "is_object (JDate d)"
  "\<not> is_object JUndef" "\<not> is_object JNull" "\<not> is_object (JStr s)" "\<not> is_object (JNum n)"
  "\<not> is_object (JBool b)"
  by (simp_all add: is_object_def)

lemma mk_error_simps [simp]:
  "jget (mk_error c m) k =
     (if k = ''name'' then JStr c else if k = ''message'' then JStr m else JUndef)"
  "instanceof (mk_error c m) d \<longleftrightarrow> c = d"
  "is_object (mk_error c m)"
  by (simp_all add: mk_error_def)

section \<open>Strings\<close>

definition digit_char :: "nat \<Rightarrow> char" where
  "digit_char d = char_of (48 + d)"

definition is_digit :: "char \<Rightarrow> bool" where
  "is_digit c \<longleftrightarrow> 48 \<le> (of_char c :: nat) \<and> (of_char c :: nat) \<le> 57"

definition digit_val :: "char \<Rightarrow> nat" where
  "digit_val c = of_char c - 48"

fun show_nat :: "nat \<Rightarrow> string" where
  "show_nat n = (if n < 10 then [digit_char n] else show_nat (n div 10) @ [digit_char (n mod 10)])"

declare show_nat.simps [simp del]

definition show_int :: "int \<Rightarrow> string" where
  "show_int i = (if i < 0 then CHR ''-'' # show_nat (nat (- i)) else show_nat (nat i))"

fun show_frac :: "nat \<Rightarrow> rat \<Rightarrow> string" where
  "show_frac 0 r = []"
| "show_frac (Suc k) r =
     (if r = 0 then []
      else digit_char (nat \<lfloor>10 * r\<rfloor>) # show_frac k (10 * r - of_int \<lfloor>10 * r\<rfloor>))"

text \<open>
  \<open>String(n)\<close>.  Integers are printed in full and fractions with at most 17 decimals; the
  exponent form the language uses from \<open>10 ^ 21\<close> on is not modelled.
\<close>

fun js_show :: "jsnum \<Rightarrow> string" where
  "js_show (Fin r) =
     (if r = of_int \<lfloor>r\<rfloor> then show_int \<lfloor>r\<rfloor>
      else (if r < 0 then ''-'' else '''') @ show_nat (nat \<lfloor>\<bar>r\<bar>\<rfloor>) @ ''.'' @
           show_frac 17 (\<bar>r\<bar> - of_int \<lfloor>\<bar>r\<bar>\<rfloor>))"
| "js_show PInf = ''Infinity''"
| "js_show NInf = ''-Infinity''"
| "js_show NaN = ''NaN''"

text \<open>The decimal value of a string of digits.\<close>

definition digits_nat :: "string \<Rightarrow> nat" where
  "digits_nat s = foldl (\<lambda>a c. 10 * a + digit_val c) 0 s"

text \<open>\<open>s.includes(t)\<close>, \<open>s.startsWith(t)\<close>, \<open>s.endsWith(t)\<close>, \<open>s.toLowerCase()\<close> on ASCII letters.\<close>

fun starts_with :: "string \<Rightarrow> string \<Rightarrow> bool" where
  "starts_with s [] = True"
| "starts_with [] (c # t) = False"
| "starts_with (b # s) (c # t) = (b = c \<and> starts_with s t)"

fun str_includes :: "string \<Rightarrow> string \<Rightarrow> bool" where
  "str_includes [] t = (t = [])"
| "str_includes (c # s) t = (starts_with (c # s) t \<or> str_includes s t)"

definition ends_with :: "string \<Rightarrow> string \<Rightarrow> bool" where
  "ends_with s t = starts_with (rev s) (rev t)"

definition lower_char :: "char \<Rightarrow> char" where
  "lower_char c = (let n = (of_char c :: nat) in if 65 \<le> n \<and> n \<le> 90 then char_of (n + 32) else c)"

definition upper_char :: "char \<Rightarrow> char" where
  "upper_char c = (let n = (of_char c :: nat) in if 97 \<le> n \<and> n \<le> 122 then char_of (n - 32) else c)"

abbreviation toLowerCase :: "string \<Rightarrow> string" where
  "toLowerCase s \<equiv> map lower_char s"

abbreviation toUpperCase :: "string \<Rightarrow> string" where
  "toUpperCase s \<equiv> map upper_char s"

lemma starts_with_iff: "starts_with s t \<longleftrightarrow> (\<exists>u. s = t @ u)"
  by (induction s t rule: starts_with.induct) auto

lemma str_includes_iff: "str_includes s t \<longleftrightarrow> (\<exists>a b. s = a @ t @ b)"
proof (induction s)
  case (Cons c s)
  show ?case
  proof
    assume "str_includes (c # s) t"
    then consider "starts_with (c # s) t" | "str_includes s t" by auto
    then show "\<exists>a b. c # s = a @ t @ b"
    proof cases
      case 1
      then show ?thesis by (metis append_Nil starts_with_iff)
    next
      case 2
      then show ?thesis using Cons.IH by (metis append_Cons)
    qed
  next
    assume "\<exists>a b. c # s = a @ t @ b"
    then obtain a b where eq: "c # s = a @ t @ b" by blast
    show "str_includes (c # s) t"
    proof (cases a)
      case Nil
      with eq show ?thesis by (metis append_Nil str_includes.simps(2) starts_with_iff)
    next
      case (Cons d a')
      with eq show ?thesis using Cons.IH by auto
    qed
  qed
qed auto

lemma of_char_digit_char [simp]: "d < 10 \<Longrightarrow> (of_char (digit_char d) :: nat) = 48 + d"
  by (simp add: digit_char_def)

lemma is_digit_digit_char [simp]: "d < 10 \<Longrightarrow> is_digit (digit_char d)"
  by (simp add: is_digit_def)

lemma digit_val_digit_char [simp]: "d < 10 \<Longrightarrow> digit_val (digit_char d) = d"
  by (simp add: digit_val_def)

lemma digits_nat_Nil [simp]: "digits_nat [] = 0"
  by (simp add: digits_nat_def)

lemma digits_nat_snoc [simp]: "digits_nat (s @ [c]) = 10 * digits_nat s + digit_val c"
  by (simp add: digits_nat_def)

lemma show_nat_digits: "\<forall>c \<in> set (show_nat n). is_digit c"
proof (induction n rule: show_nat.induct)
  case (1 n)
  then show ?case by (subst show_nat.simps) auto
qed

lemma digits_nat_show_nat [simp]: "digits_nat (show_nat n) = n"
proof (induction n rule: show_nat.induct)
  case (1 n)
  show ?case
  proof (cases "n < 10")
    case True
    then show ?thesis by (subst show_nat.simps) (simp add: digits_nat_def)
  next
    case False
    with 1 show ?thesis by (subst show_nat.simps) simp
  qed
qed

lemma show_nat_not_Nil [simp]: "show_nat n \<noteq> []"
  by (subst show_nat.simps) simp

lemma show_nat_inj: "show_nat a = show_nat b \<longleftrightarrow> a = b"
  by (metis digits_nat_show_nat)

end
