(* ===== verification/Effects.thy ===== *)
theory Effects
  imports Prelude
begin

text \<open>
  The effects of the async code and their two semantics.

  A program (\<open>prog\<close>) is what one async function does between being called and settling:
  it reads \<open>ClockProvider.now()\<close>, sends a request to a service and waits for the
  settled promise (\<open>Inl\<close> a rejection, \<open>Inr\<close> a value), returns, or throws.  \<open>run\<close> executes it against a
  handler for the requests; \<open>runs\<close> is the same with arbitrary steps of the environment
  (other processes using the service, time passing) between any two effects.
\<close>

section \<open>The world and the clock (packages/core/src/clock-provider.ts)\<close>

text \<open>
  \<open>w_date\<close> is what \<open>Date.now()\<close> returns, \<open>w_clock\<close> the reading of the clock installed by
  \<open>setClock\<close>, if any, and \<open>w_store\<close> the state of the services and objects in play.
\<close>

record 's world =
  w_date :: jsnum
  w_clock :: "jsnum option"
  w_store :: 's

definition ClockProvider_now :: "('s, 'm) world_scheme \<Rightarrow> jsnum" where
  "ClockProvider_now w = js_trunc (case w_clock w of None \<Rightarrow> w_date w | Some c \<Rightarrow> c)"

definition ClockProvider_setClock :: "jsnum \<Rightarrow> ('s, 'm) world_scheme \<Rightarrow> ('s, 'm) world_scheme" where
  "ClockProvider_setClock c w = w\<lparr>w_clock := Some c\<rparr>"

definition ClockProvider_resetClock :: "('s, 'm) world_scheme \<Rightarrow> ('s, 'm) world_scheme" where
  "ClockProvider_resetClock w = w\<lparr>w_clock := None\<rparr>"

lemma now_setClock [simp]: "ClockProvider_now (ClockProvider_setClock c w) = js_trunc c"
  by (simp add: ClockProvider_now_def ClockProvider_setClock_def)

lemma now_resetClock [simp]: "ClockProvider_now (ClockProvider_resetClock w) = js_trunc (w_date w)"
  by (simp add: ClockProvider_now_def ClockProvider_resetClock_def)

lemma now_store [simp]: "ClockProvider_now (w\<lparr>w_store := s\<rparr>) = ClockProvider_now w"
  by (simp add: ClockProvider_now_def split: option.split)

section \<open>Programs\<close>

datatype ('q, 'a) prog =
    Ret 'a
  | Raise jsv
  | Now "jsnum \<Rightarrow> ('q, 'a) prog"
  | Call 'q "jsv + jsv \<Rightarrow> ('q, 'a) prog"

text \<open>Awaiting a program: the continuation gets its outcome, a thrown value included.\<close>

primrec pbind :: "('q, 'a) prog \<Rightarrow> (jsv + 'a \<Rightarrow> ('q, 'b) prog) \<Rightarrow> ('q, 'b) prog" where
  "pbind (Ret a) f = f (Inr a)"
| "pbind (Raise e) f = f (Inl e)"
| "pbind (Now k) f = Now (\<lambda>t. pbind (k t) f)"
| "pbind (Call q k) f = Call q (\<lambda>r. pbind (k r) f)"

text \<open>\<open>await p\<close> outside any \<open>try\<close>: a rejection propagates.\<close>

definition await :: "('q, 'a) prog \<Rightarrow> ('a \<Rightarrow> ('q, 'b) prog) \<Rightarrow> ('q, 'b) prog" where
  "await p f = pbind p (\<lambda>r. case r of Inl e \<Rightarrow> Raise e | Inr a \<Rightarrow> f a)"

text \<open>A synchronous step that may throw.\<close>

definition sync :: "jsv + 'a \<Rightarrow> ('a \<Rightarrow> ('q, 'b) prog) \<Rightarrow> ('q, 'b) prog" where
  "sync r f = (case r of Inl e \<Rightarrow> Raise e | Inr a \<Rightarrow> f a)"

text \<open>\<open>await request\<close> outside any \<open>try\<close>.\<close>

definition request :: "'q \<Rightarrow> (jsv \<Rightarrow> ('q, 'b) prog) \<Rightarrow> ('q, 'b) prog" where
  "request q f = Call q (\<lambda>r. case r of Inl e \<Rightarrow> Raise e | Inr v \<Rightarrow> f v)"

text \<open>\<open>try { v = await request; f v } catch (e) { g e }\<close>, where \<open>f\<close> is outside the \<open>try\<close> or cannot throw.\<close>

definition try_request :: "'q \<Rightarrow> (jsv \<Rightarrow> ('q, 'b) prog) \<Rightarrow> (jsv \<Rightarrow> ('q, 'b) prog) \<Rightarrow> ('q, 'b) prog" where
  "try_request q f g = Call q (\<lambda>r. case r of Inl e \<Rightarrow> g e | Inr v \<Rightarrow> f v)"

lemma await_simps [simp, prog_simps]:
  "await (Ret a) f = f a"
  "await (Raise e) f = Raise e"
  "await (Now k) f = Now (\<lambda>t. await (k t) f)"
  "await (Call q c) f = Call q (\<lambda>r. await (c r) f)"
  by (simp_all add: await_def)

lemma sync_simps [simp, prog_simps]:
  "sync (Inl e) f = Raise e" "sync (Inr a) f = f a"
  by (simp_all add: sync_def)

lemma pbind_assoc: "pbind (pbind p f) g = pbind p (\<lambda>r. pbind (f r) g)"
  by (induction p) auto

lemma await_Ret [simp]: "await p Ret = p"
  by (induction p) (auto simp: fun_eq_iff)

section \<open>Sequential execution\<close>

type_synonym ('q, 's) handler = "'q \<Rightarrow> 's world \<Rightarrow> (jsv + jsv) \<times> 's world"

primrec run :: "('q, 's) handler \<Rightarrow> ('q, 'a) prog \<Rightarrow> 's world \<Rightarrow> (jsv + 'a) \<times> 's world" where
  "run h (Ret a) = (\<lambda>w. (Inr a, w))"
| "run h (Raise e) = (\<lambda>w. (Inl e, w))"
| "run h (Now k) = (\<lambda>w. run h (k (ClockProvider_now w)) w)"
| "run h (Call q k) = (\<lambda>w. case h q w of (r, w') \<Rightarrow> run h (k r) w')"

declare run.simps [prog_simps]

lemma run_pbind: "run h (pbind p f) w = (case run h p w of (r, w') \<Rightarrow> run h (f r) w')"
  by (induction p arbitrary: w) (auto split: prod.splits)

lemma run_await:
  "run h (await p f) w =
     (case run h p w of (Inl e, w') \<Rightarrow> (Inl e, w') | (Inr a, w') \<Rightarrow> run h (f a) w')"
  by (auto simp: await_def run_pbind split: prod.splits sum.splits)

lemma run_sync: "run h (sync r f) w = (case r of Inl e \<Rightarrow> (Inl e, w) | Inr a \<Rightarrow> run h (f a) w)"
  by (auto simp: sync_def split: sum.splits)

lemma run_request [simp, prog_simps]:
  "run h (request q f) w =
     (case h q w of (Inl e, w') \<Rightarrow> (Inl e, w') | (Inr v, w') \<Rightarrow> run h (f v) w')"
  by (auto simp: request_def split: prod.splits sum.splits)

lemma run_try_request [simp, prog_simps]:
  "run h (try_request q f g) w =
     (case h q w of (Inl e, w') \<Rightarrow> run h (g e) w' | (Inr v, w') \<Rightarrow> run h (f v) w')"
  by (auto simp: try_request_def split: prod.splits sum.splits)

section \<open>Execution among other processes\<close>

text \<open>
  \<open>runs R h p w r w'\<close>: from \<open>w\<close> the program may settle with \<open>r\<close> in \<open>w'\<close>, when the
  environment may take any step of \<open>R\<close> before each effect and at the end.
\<close>

inductive runs ::
  "('s world \<Rightarrow> 's world \<Rightarrow> bool) \<Rightarrow> ('q, 's) handler \<Rightarrow>
   ('q, 'a) prog \<Rightarrow> 's world \<Rightarrow> jsv + 'a \<Rightarrow> 's world \<Rightarrow> bool"
  for R :: "'s world \<Rightarrow> 's world \<Rightarrow> bool" and h :: "('q, 's) handler" where
  runs_Ret: "runs R h (Ret a) w (Inr a) w"
| runs_Raise: "runs R h (Raise e) w (Inl e) w"
| runs_Now: "runs R h (k (ClockProvider_now w)) w r w' \<Longrightarrow> runs R h (Now k) w r w'"
| runs_Call: "h q w = (v, w1) \<Longrightarrow> runs R h (k v) w1 r w' \<Longrightarrow> runs R h (Call q k) w r w'"
| runs_env: "R w w1 \<Longrightarrow> runs R h p w1 r w' \<Longrightarrow> runs R h p w r w'"

lemma run_runs: "run h p w = (r, w') \<Longrightarrow> runs R h p w r w'"
  by (induction p arbitrary: w) (auto intro: runs.intros split: prod.splits)

lemma runs_env_star: "R\<^sup>*\<^sup>* w w1 \<Longrightarrow> runs R h p w1 r w' \<Longrightarrow> runs R h p w r w'"
  by (induction rule: converse_rtranclp_induct) (auto intro: runs_env)

text \<open>Inversion: what a program did after the environment steps before its first effect.\<close>

lemma runs_RetD: "runs R h p w r w' \<Longrightarrow> p = Ret a \<Longrightarrow> r = Inr a \<and> R\<^sup>*\<^sup>* w w'"
  by (induction rule: runs.induct) (auto intro: converse_rtranclp_into_rtranclp)

lemma runs_RaiseD: "runs R h p w r w' \<Longrightarrow> p = Raise e \<Longrightarrow> r = Inl e \<and> R\<^sup>*\<^sup>* w w'"
  by (induction rule: runs.induct) (auto intro: converse_rtranclp_into_rtranclp)

lemma runs_NowD:
  "runs R h p w r w' \<Longrightarrow> p = Now k \<Longrightarrow>
   \<exists>w1. R\<^sup>*\<^sup>* w w1 \<and> runs R h (k (ClockProvider_now w1)) w1 r w'"
proof (induction rule: runs.induct)
  case (runs_env w w1 p r w')
  then show ?case by (meson converse_rtranclp_into_rtranclp)
qed auto

lemma runs_CallD:
  "runs R h p w r w' \<Longrightarrow> p = Call q k \<Longrightarrow>
   \<exists>w1 v w2. R\<^sup>*\<^sup>* w w1 \<and> h q w1 = (v, w2) \<and> runs R h (k v) w2 r w'"
proof (induction rule: runs.induct)
  case (runs_env w w1 p r w')
  then show ?case by (meson converse_rtranclp_into_rtranclp)
qed auto

lemma runs_RetE:
  assumes "runs R h (Ret a) w r w'"
  obtains "r = Inr a" "R\<^sup>*\<^sup>* w w'"
  using runs_RetD [OF assms refl] by blast

lemma runs_RaiseE:
  assumes "runs R h (Raise e) w r w'"
  obtains "r = Inl e" "R\<^sup>*\<^sup>* w w'"
  using runs_RaiseD [OF assms refl] by blast

lemma runs_NowE:
  assumes "runs R h (Now k) w r w'"
  obtains w1 where "R\<^sup>*\<^sup>* w w1" "runs R h (k (ClockProvider_now w1)) w1 r w'"
  using runs_NowD [OF assms refl] by blast

lemma runs_CallE:
  assumes "runs R h (Call q k) w r w'"
  obtains w1 v w2 where "R\<^sup>*\<^sup>* w w1" "h q w1 = (v, w2)" "runs R h (k v) w2 r w'"
  using runs_CallD [OF assms refl] by blast

lemma await_request [simp]:
  "await (request q f) k = request q (\<lambda>v. await (f v) k)"
  "await (try_request q f g) k = try_request q (\<lambda>v. await (f v) k) (\<lambda>e. await (g e) k)"
  "await (sync r f') k = sync r (\<lambda>a. await (f' a) k)"
  by (auto simp: request_def try_request_def sync_def fun_eq_iff split: sum.splits)

section \<open>A scripted service\<close>

text \<open>A handler that plays a list of answers, whatever is asked; used to run programs in examples.\<close>

definition scripted :: "('q, (jsv + jsv) list) handler" where
  "scripted q w = (case w_store w of [] \<Rightarrow> (Inl JUndef, w) | r # rs \<Rightarrow> (r, w\<lparr>w_store := rs\<rparr>))"

definition script_world :: "rat \<Rightarrow> (jsv + jsv) list \<Rightarrow> (jsv + jsv) list world" where
  "script_world t rs = \<lparr>w_date = Fin t, w_clock = Some (Fin t), w_store = rs\<rparr>"

lemma scripted_simps [simp]:
  "scripted q (script_world t (r # rs)) = (r, script_world t rs)"
  "ClockProvider_now (script_world t rs) = Fin (of_int (trunc_rat t))"
  by (simp_all add: scripted_def script_world_def ClockProvider_now_def)


section \<open>catch and finally around a program\<close>

definition catching :: "('q, 'a) prog \<Rightarrow> (jsv \<Rightarrow> ('q, 'a) prog) \<Rightarrow> ('q, 'a) prog" where
  "catching p g = pbind p (\<lambda>r. case r of Inl e \<Rightarrow> g e | Inr a \<Rightarrow> Ret a)"

text \<open>\<open>try { p } finally { q }\<close>: an error of \<open>q\<close> replaces the outcome of \<open>p\<close>.\<close>

definition finally_do :: "('q, 'a) prog \<Rightarrow> ('q, 'b) prog \<Rightarrow> ('q, 'a) prog" where
  "finally_do p q = pbind p (\<lambda>r. await q (\<lambda>_. case r of Inl e \<Rightarrow> Raise e | Inr a \<Rightarrow> Ret a))"

lemma run_catching:
  "run h (catching p g) w = (case run h p w of (Inl e, w') \<Rightarrow> run h (g e) w' | (Inr a, w') \<Rightarrow> (Inr a, w'))"
  by (auto simp: catching_def run_pbind split: prod.splits sum.splits)

lemma run_finally_do:
  "run h (finally_do p q) w =
     (case run h p w of (r, w1) \<Rightarrow> (case run h q w1 of (Inl e, w2) \<Rightarrow> (Inl e, w2) | (Inr _, w2) \<Rightarrow> (r, w2)))"
  by (auto simp: finally_do_def run_pbind run_await split: prod.splits sum.splits)

text \<open>A guard clause: \<open>try { await request; return a } catch (e) { if (P e) return b; throw e }\<close>.\<close>

definition request_unless :: "(jsv \<Rightarrow> bool) \<Rightarrow> 'q \<Rightarrow> 'a \<Rightarrow> 'a \<Rightarrow> ('q, 'a) prog" where
  "request_unless P q a b = try_request q (\<lambda>_. Ret a) (\<lambda>e. if P e then Ret b else Raise e)"

lemma run_request_unless [simp, prog_simps]:
  "run h (request_unless P q a b) w =
     (case h q w of (Inr v, w') \<Rightarrow> (Inr a, w') | (Inl e, w') \<Rightarrow> (if P e then Inr b else Inl e, w'))"
  by (auto simp: request_unless_def split: prod.splits sum.splits)

end
