(* ===== verification/IsoDate.thy ===== *)
theory IsoDate
  imports Prelude
begin

text \<open>
  Dates of the language, as far as the code uses them: \<open>new Date(ms)\<close>,
  \<open>toISOString\<close> and \<open>Date.parse\<close> of what \<open>toISOString\<close> prints.  Deadlines are stored as such
  strings by most services, compared as strings by some of them, and parsed back by others, so
  three facts carry the providers: parsing a printed deadline gives it back, printing is
  injective, and for years 0 to 9999 the order of the strings is the order of the times.
\<close>

section \<open>Calendar\<close>

definition msPerDay :: int where
  "msPerDay = 86400000"

definition DayFromYear :: "int \<Rightarrow> int" where
  "DayFromYear y = 365 * (y - 1970) + (y - 1969) div 4 - (y - 1901) div 100 + (y - 1601) div 400"

definition YearFromDay :: "int \<Rightarrow> int" where
  "YearFromDay d =
     (let e = 1970 + (400 * d) div 146097
      in if DayFromYear (e + 1) \<le> d then e + 1 else if d < DayFromYear e then e - 1 else e)"

definition leap :: "int \<Rightarrow> bool" where
  "leap y \<longleftrightarrow> DayFromYear (y + 1) - DayFromYear y = 366"

definition month_start :: "bool \<Rightarrow> int \<Rightarrow> int" where
  "month_start l m =
     (if m = 1 then 0 else if m = 2 then 31 else
      (if m = 3 then 59 else if m = 4 then 90 else if m = 5 then 120 else if m = 6 then 151
       else if m = 7 then 181 else if m = 8 then 212 else if m = 9 then 243
       else if m = 10 then 273 else if m = 11 then 304 else if m = 12 then 334 else 365)
      + (if l then 1 else 0))"

definition month_of :: "bool \<Rightarrow> int \<Rightarrow> int" where
  "month_of l n = (let k = (if l then 1 else 0) in
     if n < 31 then 1 else if n < 59 + k then 2 else if n < 90 + k then 3
     else if n < 120 + k then 4 else if n < 151 + k then 5 else if n < 181 + k then 6
     else if n < 212 + k then 7 else if n < 243 + k then 8 else if n < 273 + k then 9
     else if n < 304 + k then 10 else if n < 334 + k then 11 else 12)"

text \<open>Year, month, day of the month from the day number, and back.\<close>

definition date_of_day :: "int \<Rightarrow> int \<times> int \<times> int" where
  "date_of_day d =
     (let y = YearFromDay d; n = d - DayFromYear y; m = month_of (leap y) n
      in (y, m, n - month_start (leap y) m + 1))"

definition day_of_date :: "int \<Rightarrow> int \<Rightarrow> int \<Rightarrow> int" where
  "day_of_date y m dd = DayFromYear y + month_start (leap y) m + (dd - 1)"

lemma div_upper: "0 < n \<Longrightarrow> n * (x div n) \<le> (x::int)"
  by (simp add: minus_mod_eq_mult_div [symmetric])

lemma div_lower: "0 < n \<Longrightarrow> x - (n - 1) \<le> n * (x div (n::int))"
  using pos_mod_bound [of n x] mult_div_mod_eq [of n x] by linarith

lemma div_Suc_int: "0 < n \<Longrightarrow> (x + 1) div n = x div n + (if n dvd x + 1 then 1 else (0::int))"
proof -
  assume n: "0 < n"
  show ?thesis
  proof (cases "n dvd x + 1")
    case True
    then obtain k where k: "x + 1 = n * k" by blast
    then have "x = n * (k - 1) + (n - 1)" by (simp add: algebra_simps)
    then have "x div n = k - 1" using n by (auto simp: int_div_pos_eq)
    moreover have "(x + 1) div n = k" using n k by simp
    ultimately show ?thesis using True by simp
  next
    case False
    define q where "q = x div n"
    define r where "r = x mod n"
    have x: "x = n * q + r" "0 \<le> r" "r < n" using n by (simp_all add: q_def r_def)
    have "r \<noteq> n - 1"
    proof
      assume "r = n - 1"
      with x(1) have "x + 1 = n * (q + 1)" by (simp add: algebra_simps)
      with False show False by (metis dvd_triv_left)
    qed
    with x have "(x + 1) div n = q" using int_div_pos_eq [of "x + 1" n q "r + 1"] by simp
    then show ?thesis using False by (simp add: q_def)
  qed
qed

lemma DayFromYear_linear:
  "146097 * (y - 1970) - 506 \<le> 400 * DayFromYear y"
  "400 * DayFromYear y \<le> 146097 * (y - 1970) + 589"
  using div_upper [of 4 "y - 1969"] div_upper [of 100 "y - 1901"] div_upper [of 400 "y - 1601"]
    div_lower [of 4 "y - 1969"] div_lower [of 100 "y - 1901"] div_lower [of 400 "y - 1601"]
  by (simp_all add: DayFromYear_def)

lemma year_length_step:
  "a' = a + (if p then 1 else 0) \<Longrightarrow> b' = b + (if q then 1 else 0) \<Longrightarrow> c' = c + (if r then 1 else 0) \<Longrightarrow>
   (q \<Longrightarrow> p) \<Longrightarrow> (r \<Longrightarrow> q) \<Longrightarrow>
   a' - b' + c' = a - b + c \<or> a' - b' + c' = a - b + (c::int) + 1"
  by (cases p; cases q; cases r) auto

lemma year_length_sum:
  "a' - b' + c' = a - b + c \<or> a' - b' + c' = a - b + c + 1 \<Longrightarrow>
   (365 * (y + 1 - 1970) + a' - b' + c') - (365 * (y - 1970) + a - b + c) = (365::int) \<or>
   (365 * (y + 1 - 1970) + a' - b' + c') - (365 * (y - 1970) + a - b + c) = 366"
  by auto

lemma year_length: "DayFromYear (y + 1) - DayFromYear y = 365 \<or> DayFromYear (y + 1) - DayFromYear y = 366"
proof -
  have 1: "4 dvd y - 1968" if "100 dvd y - 1900"
  proof -
    from that obtain k where "y - 1900 = 100 * k" by blast
    then have "y - 1968 = 4 * (25 * k - 17)" by simp
    then show ?thesis by (metis dvd_triv_left)
  qed
  have 2: "100 dvd y - 1900" if "400 dvd y - 1600"
  proof -
    from that obtain k where "y - 1600 = 400 * k" by blast
    then have "y - 1900 = 100 * (4 * k - 3)" by simp
    then show ?thesis by (metis dvd_triv_left)
  qed
  have "(y + 1 - 1969) div 4 = (y - 1969) div 4 + (if 4 dvd y - 1968 then 1 else 0)"
    using div_Suc_int [of 4 "y - 1969"] by simp
  moreover have "(y + 1 - 1901) div 100 = (y - 1901) div 100 + (if 100 dvd y - 1900 then 1 else 0)"
    using div_Suc_int [of 100 "y - 1901"] by simp
  moreover have "(y + 1 - 1601) div 400 = (y - 1601) div 400 + (if 400 dvd y - 1600 then 1 else 0)"
    using div_Suc_int [of 400 "y - 1601"] by simp
  ultimately have "(y + 1 - 1969) div 4 - (y + 1 - 1901) div 100 + (y + 1 - 1601) div 400
      = (y - 1969) div 4 - (y - 1901) div 100 + (y - 1601) div 400 \<or>
    (y + 1 - 1969) div 4 - (y + 1 - 1901) div 100 + (y + 1 - 1601) div 400
      = (y - 1969) div 4 - (y - 1901) div 100 + (y - 1601) div 400 + 1"
    using 1 2 by (rule year_length_step)
  then show ?thesis
    unfolding DayFromYear_def
    by (rule year_length_sum)
qed

lemma year_bounds: "DayFromYear (YearFromDay d) \<le> d" "d < DayFromYear (YearFromDay d + 1)"
proof -
  define e where "e = 1970 + (400 * d) div 146097"
  have e: "146097 * (e - 1970) \<le> 400 * d" "400 * d < 146097 * (e - 1970) + 146097"
    using div_upper [of 146097 "400 * d"] div_lower [of 146097 "400 * d"] unfolding e_def by simp_all
  have "400 * d < 400 * DayFromYear (e + 2)"
    using DayFromYear_linear(1) [of "e + 2"] e by (simp add: algebra_simps)
  then have hi: "d < DayFromYear (e + 2)" by simp
  have "400 * DayFromYear (e - 1) \<le> 400 * d"
    using DayFromYear_linear(2) [of "e - 1"] e by (simp add: algebra_simps)
  then have lo: "DayFromYear (e - 1) \<le> d" by simp
  show "DayFromYear (YearFromDay d) \<le> d" "d < DayFromYear (YearFromDay d + 1)"
    using hi lo by (auto simp: YearFromDay_def Let_def e_def [symmetric] add.assoc)
qed

lemma DayFromYear_mono: "y \<le> z \<Longrightarrow> DayFromYear y \<le> DayFromYear z"
proof (induction z rule: int_ge_induct)
  case (step z)
  then show ?case using year_length [of z] by linarith
qed simp

lemma YearFromDay_unique: "DayFromYear y \<le> d \<Longrightarrow> d < DayFromYear (y + 1) \<Longrightarrow> YearFromDay d = y"
  using year_bounds [of d] DayFromYear_mono [of "y + 1" "YearFromDay d"]
    DayFromYear_mono [of "YearFromDay d + 1" y] by linarith

lemma YearFromDay_mono: "d \<le> d' \<Longrightarrow> YearFromDay d \<le> YearFromDay d'"
  using year_bounds [of d] year_bounds [of d'] DayFromYear_mono [of "YearFromDay d' + 1" "YearFromDay d"]
  by linarith

lemma day_in_year: "0 \<le> d - DayFromYear (YearFromDay d)"
  "d - DayFromYear (YearFromDay d) < (if leap (YearFromDay d) then 366 else 365)"
  using year_bounds [of d] year_length [of "YearFromDay d"] by (auto simp: leap_def)

lemma month_bounds:
  assumes "0 \<le> n" "n < (if l then 366 else 365)"
  shows "1 \<le> month_of l n" "month_of l n \<le> 12"
    "month_start l (month_of l n) \<le> n" "n < month_start l (month_of l n + 1)"
  using assms by (auto simp: month_of_def month_start_def Let_def)

lemma month_width: "1 \<le> m \<Longrightarrow> m \<le> 12 \<Longrightarrow> month_start l (m + 1) - month_start l m \<le> 31"
  by (auto simp: month_start_def)

lemma month_of_mono: "n \<le> n' \<Longrightarrow> month_of l n \<le> month_of l n'"
  by (auto simp: month_of_def Let_def)

lemma date_of_day_bounds:
  assumes "date_of_day d = (y, m, dd)"
  shows "1 \<le> m" "m \<le> 12" "1 \<le> dd" "dd \<le> 31" "dd \<le> month_start (leap y) (m + 1) - month_start (leap y) m"
    "y = YearFromDay d" "day_of_date y m dd = d"
  using assms month_bounds [OF day_in_year [of d]] month_width [of m "leap y"]
  by (auto simp: date_of_day_def day_of_date_def Let_def)

lemma date_of_day_less:
  assumes "d < d'" "date_of_day d = (y, m, dd)" "date_of_day d' = (y', m', dd')"
  shows "y < y' \<or> y = y' \<and> (m < m' \<or> m = m' \<and> dd < dd')"
proof -
  have y: "y = YearFromDay d" "y' = YearFromDay d'"
    using assms(2,3) by (auto simp: date_of_day_def Let_def)
  have "y \<le> y'" using YearFromDay_mono [of d d'] assms(1) y by simp
  moreover have "m \<le> m'" if "y = y'"
    using assms that y month_of_mono [of "d - DayFromYear y" "d' - DayFromYear y" "leap y"]
    by (auto simp: date_of_day_def Let_def)
  moreover have "dd < dd'" if "y = y'" "m = m'"
    using date_of_day_bounds(7) [OF assms(2)] date_of_day_bounds(7) [OF assms(3)] that assms(1)
    by (simp add: day_of_date_def)
  ultimately show ?thesis by linarith
qed

section \<open>Fixed-width fields\<close>

text \<open>A layout is a list of fields: \<open>k\<close> digits, or one given character.\<close>

datatype field = Dig nat | Lit char

fun pad :: "nat \<Rightarrow> nat \<Rightarrow> string" where
  "pad 0 n = []"
| "pad (Suc k) n = pad k (n div 10) @ [digit_char (n mod 10)]"

fun render :: "field list \<Rightarrow> nat list \<Rightarrow> string" where
  "render [] ns = []"
| "render (Lit c # fs) ns = c # render fs ns"
| "render (Dig k # fs) (n # ns) = pad k n @ render fs ns"
| "render (Dig k # fs) [] = []"

fun scan :: "field list \<Rightarrow> string \<Rightarrow> nat list option" where
  "scan [] s = (if s = [] then Some [] else None)"
| "scan (Lit c # fs) s = (case s of [] \<Rightarrow> None | x # r \<Rightarrow> if x = c then scan fs r else None)"
| "scan (Dig k # fs) s =
     (if length (take k s) = k \<and> list_all is_digit (take k s)
      then map_option (\<lambda>ns. digits_nat (take k s) # ns) (scan fs (drop k s)) else None)"

fun fits :: "field list \<Rightarrow> nat list \<Rightarrow> bool" where
  "fits [] ns = (ns = [])"
| "fits (Lit c # fs) ns = fits fs ns"
| "fits (Dig k # fs) (n # ns) = (n < 10 ^ k \<and> fits fs ns)"
| "fits (Dig k # fs) [] = False"

lemma length_pad [simp]: "length (pad k n) = k"
  by (induction k arbitrary: n) auto

lemma list_all_pad [simp]: "list_all is_digit (pad k n)"
  by (induction k arbitrary: n) auto

lemma digits_nat_pad: "n < 10 ^ k \<Longrightarrow> digits_nat (pad k n) = n"
proof (induction k arbitrary: n)
  case (Suc k)
  have "n div 10 < 10 ^ k" using Suc.prems by (simp add: div_less_iff_less_mult)
  then show ?case using Suc.IH by simp
qed simp

lemma scan_render: "fits fs ns \<Longrightarrow> scan fs (render fs ns) = Some ns"
  by (induction fs ns rule: fits.induct) (auto simp: digits_nat_pad)

text \<open>Order of strings by character codes, and of field values.\<close>

fun str_lt :: "string \<Rightarrow> string \<Rightarrow> bool" where
  "str_lt [] t = (t \<noteq> [])"
| "str_lt (a # s) [] = False"
| "str_lt (a # s) (b # t) = ((of_char a :: nat) < of_char b \<or> a = b \<and> str_lt s t)"

definition str_le :: "string \<Rightarrow> string \<Rightarrow> bool" where
  "str_le s t \<longleftrightarrow> s = t \<or> str_lt s t"

fun lex_lt :: "nat list \<Rightarrow> nat list \<Rightarrow> bool" where
  "lex_lt [] ns = (ns \<noteq> [])"
| "lex_lt (a # s) [] = False"
| "lex_lt (a # s) (b # t) = (a < b \<or> a = b \<and> lex_lt s t)"

lemma of_char_nat_inj: "(of_char a :: nat) = of_char b \<longleftrightarrow> a = b"
  by (rule of_char_eq_iff)

lemma str_lt_irrefl: "\<not> str_lt s s"
  by (induction s) auto

lemma str_lt_asym: "str_lt s t \<Longrightarrow> \<not> str_lt t s"
proof (induction s t rule: str_lt.induct)
  case (1 t)
  then show ?case by (cases t) auto
qed auto

lemma str_lt_append:
  "length a = length b \<Longrightarrow> str_lt (a @ s) (b @ t) \<longleftrightarrow> str_lt a b \<or> a = b \<and> str_lt s t"
  by (induction a b rule: list_induct2) (auto simp: str_lt_irrefl)

lemma str_lt_pad: "m < n \<Longrightarrow> n < 10 ^ k \<Longrightarrow> str_lt (pad k m) (pad k n)"
proof (induction k arbitrary: m n)
  case (Suc k)
  have b: "n div 10 < 10 ^ k" using Suc.prems by (simp add: div_less_iff_less_mult)
  have "m div 10 < n div 10 \<or> m div 10 = n div 10 \<and> m mod 10 < n mod 10"
    using div_le_mono [of m n 10] Suc.prems(1) mult_div_mod_eq [of 10 m] mult_div_mod_eq [of 10 n]
    by linarith
  then show ?case
    using Suc.IH [OF _ b, of "m div 10"] by (auto simp: str_lt_append)
qed simp

lemma str_lt_render: "lex_lt ns ms \<Longrightarrow> fits fs ns \<Longrightarrow> fits fs ms \<Longrightarrow> str_lt (render fs ns) (render fs ms)"
proof (induction fs ns arbitrary: ms rule: fits.induct)
  case (3 k fs n ns)
  then obtain m ms' where "ms = m # ms'" by (cases ms) auto
  with 3 show ?case by (auto simp: str_lt_append str_lt_pad)
qed auto

section \<open>Time values\<close>

text \<open>\<open>new Date(ms).getTime()\<close>: fractions are cut off, and out of range is an invalid date.\<close>

definition maxTime :: rat where
  "maxTime = 8640000000000000"

fun new_Date :: "jsnum \<Rightarrow> jsnum" where
  "new_Date (Fin r) = (if \<bar>r\<bar> \<le> maxTime then Fin (of_int (trunc_rat r)) else NaN)"
| "new_Date _ = NaN"

declare new_Date.simps(1) [simp del]

definition iso_tail :: "field list" where
  "iso_tail = [Lit CHR ''-'', Dig 2, Lit CHR ''-'', Dig 2, Lit CHR ''T'', Dig 2, Lit CHR '':'', Dig 2,
               Lit CHR '':'', Dig 2, Lit CHR ''.'', Dig 3, Lit CHR ''Z'']"

text \<open>Month, day, hour, minute, second and millisecond of a time value.\<close>

definition time_fields :: "int \<Rightarrow> nat list" where
  "time_fields t = (let r = t mod msPerDay in
     [nat (r div 3600000), nat (r div 60000 mod 60), nat (r div 1000 mod 60), nat (r mod 1000)])"

definition iso_fields :: "int \<Rightarrow> nat list" where
  "iso_fields t = (case date_of_day (t div msPerDay) of (y, m, d) \<Rightarrow> nat m # nat d # time_fields t)"

definition iso_year :: "int \<Rightarrow> int" where
  "iso_year t = fst (date_of_day (t div msPerDay))"

text \<open>The string \<open>toISOString\<close> makes of an integral time value.\<close>

definition iso_string :: "int \<Rightarrow> string" where
  "iso_string t = (let y = iso_year t in
     if 0 \<le> y \<and> y \<le> 9999 then render (Dig 4 # iso_tail) (nat y # iso_fields t)
     else (if y < 0 then CHR ''-'' else CHR ''+'') # render (Dig 6 # iso_tail) (nat \<bar>y\<bar> # iso_fields t))"

definition Date_toISOString :: "jsnum \<Rightarrow> jsv + string" where
  "Date_toISOString d = (case d of
     Fin r \<Rightarrow> Inr (iso_string (trunc_rat r)) | _ \<Rightarrow> Inl (RangeError ''Invalid time value''))"

text \<open>
  \<open>Date.parse\<close> of the strings in the format of \<open>toISOString\<close>.  The providers only parse strings
  they stored themselves; any other string reads as \<open>NaN\<close> here (the language leaves most of them to
  the implementation).
\<close>

fun of_fields :: "int \<Rightarrow> nat list \<Rightarrow> jsnum" where
  "of_fields y [m, d, h, mi, s, ml] =
     (if 1 \<le> m \<and> m \<le> 12 \<and> 1 \<le> d
         \<and> int d \<le> month_start (leap y) (int m + 1) - month_start (leap y) (int m)
         \<and> mi \<le> 59 \<and> s \<le> 59 \<and> (h \<le> 23 \<or> h = 24 \<and> mi = 0 \<and> s = 0 \<and> ml = 0)
      then new_Date (Fin (of_int (day_of_date y (int m) (int d) * msPerDay
             + (int h * 3600000 + int mi * 60000 + int s * 1000 + int ml))))
      else NaN)"
| "of_fields y _ = NaN"

definition parse_year6 :: "int \<Rightarrow> string \<Rightarrow> jsnum" where
  "parse_year6 sg s = (case scan (Dig 6 # iso_tail) s of
     Some (y # fs) \<Rightarrow> if sg < 0 \<and> y = 0 then NaN else of_fields (sg * int y) fs
   | _ \<Rightarrow> NaN)"

definition Date_parse :: "string \<Rightarrow> jsnum" where
  "Date_parse s = (case s of
     [] \<Rightarrow> NaN
   | c # r \<Rightarrow>
       if c = CHR ''+'' then parse_year6 1 r
       else if c = CHR ''-'' then parse_year6 (- 1) r
       else (case scan (Dig 4 # iso_tail) s of Some (y # fs) \<Rightarrow> of_fields (int y) fs | _ \<Rightarrow> NaN))"

text \<open>\<open>Utils.toIsoString\<close> (packages/core/src/utils.ts).\<close>

definition Utils_toIsoString :: "jsnum \<Rightarrow> jsv + string" where
  "Utils_toIsoString epochMillis = Date_toISOString (new_Date epochMillis)"

section \<open>Printing and parsing\<close>

lemma day_range:
  assumes "\<bar>t\<bar> \<le> 8640000000000000"
  shows "- 100000000 \<le> t div msPerDay" "t div msPerDay \<le> 100000000"
  using assms div_upper [of msPerDay t] div_lower [of msPerDay t] by (auto simp: msPerDay_def)

lemma iso_year_eq: "iso_year t = YearFromDay (t div msPerDay)"
  by (simp add: iso_year_def date_of_day_def Let_def)

lemma iso_year_range:
  assumes "\<bar>t\<bar> \<le> 8640000000000000"
  shows "\<bar>iso_year t\<bar> < 1000000"
proof -
  define d where "d = t div msPerDay"
  have d: "- 100000000 \<le> d" "d \<le> 100000000" using day_range [OF assms] by (simp_all add: d_def)
  define y where "y = YearFromDay d"
  have y: "400 * DayFromYear y \<le> 400 * d" "400 * d < 400 * DayFromYear (y + 1)"
    using year_bounds [of d] by (simp_all add: y_def)
  have "146097 * y \<le> 146097 * 300000" using DayFromYear_linear(1) [of y] y(1) d(2) by simp
  moreover have "146097 * (- 300000) \<le> 146097 * y"
    using DayFromYear_linear(2) [of "y + 1"] y(2) d(1) by (simp add: algebra_simps)
  ultimately show ?thesis by (simp add: iso_year_eq d_def [symmetric] y_def [symmetric])
qed

lemma tod_bounds: "0 \<le> t mod msPerDay" "t mod msPerDay < 86400000"
  by (simp_all add: msPerDay_def)

lemma fits_iso_tail:
  "fits iso_tail [m, d, h, mi, s, ml] \<longleftrightarrow>
     m < 100 \<and> d < 100 \<and> h < 100 \<and> mi < 100 \<and> s < 100 \<and> ml < 1000"
  by (simp add: iso_tail_def)

lemma div_div_time:
  "r div 1000 div 60 = (r::int) div 60000" "r div 60000 div 60 = r div 3600000"
  using zdiv_zmult2_eq [of 60 r 1000] zdiv_zmult2_eq [of 60 r 60000] by simp_all

lemma hour_bounds:
  assumes "0 \<le> (r::int)" "r < 86400000"
  shows "0 \<le> r div 3600000" "r div 3600000 < 24"
  using assms div_upper [of 3600000 r] by (simp_all add: pos_imp_zdiv_nonneg_iff)

lemma fits_iso_fields: "fits iso_tail (iso_fields t)"
proof -
  obtain y m d where ymd: "date_of_day (t div msPerDay) = (y, m, d)" by (cases "date_of_day (t div msPerDay)")
  define r where "r = t mod msPerDay"
  note h = hour_bounds [OF tod_bounds [of t], folded r_def]
  have "nat (r div 3600000) < 100" using h by simp
  moreover have "nat (r div 60000 mod 60) < 100" "nat (r div 1000 mod 60) < 100"
    using pos_mod_bound [of 60 "r div 60000"] pos_mod_bound [of 60 "r div 1000"] by simp_all
  moreover have "nat (r mod 1000) < 1000" using pos_mod_bound [of 1000 r] by simp
  moreover have "nat m < 100" "nat d < 100" using date_of_day_bounds [OF ymd] by simp_all
  ultimately show ?thesis
    by (simp only: iso_fields_def ymd prod.case time_fields_def fits_iso_tail Let_def r_def [symmetric])
qed

lemma time_of_day_split:
  assumes "0 \<le> (r::int)"
  shows "r div 3600000 * 3600000 + r div 60000 mod 60 * 60000 + r div 1000 mod 60 * 1000 + r mod 1000 = r"
proof -
  have "r = 1000 * (r div 1000) + r mod 1000" by simp
  moreover have "r div 1000 = 60 * (r div 60000) + r div 1000 mod 60"
    using mult_div_mod_eq [of 60 "r div 1000"] unfolding div_div_time by linarith
  moreover have "r div 60000 = 60 * (r div 3600000) + r div 60000 mod 60"
    using mult_div_mod_eq [of 60 "r div 60000"] unfolding div_div_time by linarith
  ultimately show ?thesis by linarith
qed

lemma new_Date_int [simp]: "\<bar>t\<bar> \<le> 8640000000000000 \<Longrightarrow> new_Date (Fin (of_int t)) = Fin (of_int t)"
  by (simp add: new_Date.simps maxTime_def flip: of_int_abs)

lemma of_fields_iso:
  assumes "\<bar>t\<bar> \<le> 8640000000000000"
  shows "of_fields (iso_year t) (iso_fields t) = Fin (of_int t)"
proof -
  obtain y m d where ymd: "date_of_day (t div msPerDay) = (y, m, d)" by (cases "date_of_day (t div msPerDay)")
  note b = date_of_day_bounds [OF ymd]
  define r where "r = t mod msPerDay"
  have r: "0 \<le> r" "r < 86400000" using tod_bounds [of t] by (simp_all add: r_def)
  note h = hour_bounds [OF r]
  have y: "iso_year t = y" by (simp add: iso_year_def ymd)
  have tod: "int (nat (r div 3600000)) * 3600000 + int (nat (r div 60000 mod 60)) * 60000
      + int (nat (r div 1000 mod 60)) * 1000 + int (nat (r mod 1000)) = r"
    using time_of_day_split [OF r(1)] h(1) pos_mod_sign [of 60 "r div 60000"]
      pos_mod_sign [of 60 "r div 1000"] pos_mod_sign [of 1000 r]
    by (simp only: int_nat_eq if_True zero_less_numeral simp_thms)
  have md: "int (nat m) = m" "int (nat d) = d" using b by simp_all
  have "nat (r div 60000 mod 60) \<le> 59" "nat (r div 1000 mod 60) \<le> 59" "nat (r div 3600000) \<le> 23"
    using pos_mod_bound [of 60 "r div 60000"] pos_mod_bound [of 60 "r div 1000"] h by simp_all
  moreover have "1 \<le> nat m" "nat m \<le> 12" "1 \<le> nat d" using b by simp_all
  ultimately have guard: "1 \<le> nat m" "nat m \<le> 12" "1 \<le> nat d"
    "nat (r div 60000 mod 60) \<le> 59" "nat (r div 1000 mod 60) \<le> 59" "nat (r div 3600000) \<le> 23"
    "d \<le> month_start (leap y) (m + 1) - month_start (leap y) m"
    using b(5) by -
  have t: "(t div msPerDay) * msPerDay + r = t" by (simp add: r_def)
  have "of_fields y (iso_fields t) = new_Date (Fin (of_int ((t div msPerDay) * msPerDay + r)))"
    unfolding iso_fields_def ymd prod.case time_fields_def Let_def r_def [symmetric] of_fields.simps tod
      md b(7) by (rule if_P) (use guard in blast)
  then show ?thesis by (simp add: y t new_Date_int assms)
qed

lemma pad4_head: "\<exists>c s. render (Dig 4 # fs) (y # ns) = c # s \<and> is_digit c"
proof -
  have "length (pad 4 y) = 4" by simp
  then obtain c s where "pad 4 y = c # s" by (cases "pad 4 y") auto
  moreover from this have "is_digit c" using list_all_pad [of 4 y] by simp
  ultimately show ?thesis by auto
qed

lemma Date_parse_iso_string:
  assumes "\<bar>t\<bar> \<le> 8640000000000000"
  shows "Date_parse (iso_string t) = Fin (of_int t)"
proof (cases "0 \<le> iso_year t \<and> iso_year t \<le> 9999")
  case True
  obtain c s where cs: "render (Dig 4 # iso_tail) (nat (iso_year t) # iso_fields t) = c # s" "is_digit c"
    using pad4_head by blast
  have "c \<noteq> CHR ''+''" "c \<noteq> CHR ''-''" using cs(2) by (auto simp: is_digit_def)
  moreover have "scan (Dig 4 # iso_tail) (c # s) = Some (nat (iso_year t) # iso_fields t)"
    unfolding cs(1) [symmetric] using True fits_iso_fields by (intro scan_render) (simp add: nat_less_iff)
  moreover have "iso_string t = c # s" using True cs(1) by (simp add: iso_string_def)
  ultimately show ?thesis using True of_fields_iso [OF assms] by (simp add: Date_parse_def)
next
  case False
  have "scan (Dig 6 # iso_tail) (render (Dig 6 # iso_tail) (nat \<bar>iso_year t\<bar> # iso_fields t))
      = Some (nat \<bar>iso_year t\<bar> # iso_fields t)"
    using iso_year_range [OF assms] fits_iso_fields by (intro scan_render) (simp add: nat_less_iff)
  then show ?thesis using False of_fields_iso [OF assms]
    by (auto simp: iso_string_def Date_parse_def parse_year6_def Let_def)
qed

lemma iso_string_inj:
  "\<bar>t\<bar> \<le> 8640000000000000 \<Longrightarrow> \<bar>u\<bar> \<le> 8640000000000000 \<Longrightarrow> iso_string t = iso_string u \<longleftrightarrow> t = u"
  by (metis Date_parse_iso_string jsnum.inject(1) of_int_eq_iff)

section \<open>Order of the printed strings\<close>

lemma div_mod_less:
  assumes "0 < n" "(a::int) < b"
  shows "a div n < b div n \<or> a div n = b div n \<and> a mod n < b mod n"
proof -
  have "a div n \<le> b div n" using assms by (simp add: zdiv_mono1)
  then show ?thesis
    using assms(2) mult_div_mod_eq [of n a] mult_div_mod_eq [of n b]
    by (metis add_less_cancel_left order_le_less)
qed

lemma time_fields_less:
  assumes "t mod msPerDay < u mod msPerDay"
  shows "lex_lt (time_fields t) (time_fields u)"
proof -
  define a where "a = t mod msPerDay"
  define b where "b = u mod msPerDay"
  have nn: "0 \<le> a div 3600000"
    using tod_bounds [of t] by (simp add: a_def pos_imp_zdiv_nonneg_iff)
  have mm: "0 \<le> a div 60000 mod 60" "0 \<le> a div 1000 mod 60" "0 \<le> a mod 1000"
    by (rule pos_mod_sign, simp)+
  have lt: "lex_lt (time_fields t) (time_fields u)"
    if "[a div 3600000, a div 60000 mod 60, a div 1000 mod 60, a mod 1000] =
        [h, m, s, z]" "[b div 3600000, b div 60000 mod 60, b div 1000 mod 60, b mod 1000] = [h', m', s', z']"
      "h < h' \<or> h = h' \<and> (m < m' \<or> m = m' \<and> (s < s' \<or> s = s' \<and> z < z'))" for h m s z h' m' s' z'
  proof -
    have "0 \<le> h" "0 \<le> m" "0 \<le> s" "0 \<le> z" using that(1) nn mm by (metis list.inject)+
    moreover have "time_fields t = [nat h, nat m, nat s, nat z]" "time_fields u = [nat h', nat m', nat s', nat z']"
      unfolding time_fields_def Let_def a_def [symmetric] b_def [symmetric]
      using that(1,2) by (metis list.inject)+
    ultimately show ?thesis using that(3) by (auto simp: nat_less_eq_zless)
  qed
  have ab: "a < b" using assms by (simp add: a_def b_def)
  have s1: "a div 1000 < b div 1000 \<or> a div 1000 = b div 1000 \<and> a mod 1000 < b mod 1000"
    by (rule div_mod_less) (simp_all add: ab)
  have s2: "a div 60000 < b div 60000 \<or> a div 60000 = b div 60000 \<and> a div 1000 mod 60 < b div 1000 mod 60"
    if "a div 1000 < b div 1000"
    using div_mod_less [of 60, OF _ that] unfolding div_div_time by simp
  have s3: "a div 3600000 < b div 3600000 \<or>
      a div 3600000 = b div 3600000 \<and> a div 60000 mod 60 < b div 60000 mod 60"
    if "a div 60000 < b div 60000"
    using div_mod_less [of 60, OF _ that] unfolding div_div_time by simp
  have e2: "a div 60000 = b div 60000" if "a div 1000 = b div 1000"
    using that div_div_time(1) by metis
  have e3: "a div 3600000 = b div 3600000" if "a div 60000 = b div 60000"
    using that div_div_time(2) by metis
  have "a div 3600000 < b div 3600000 \<or> a div 3600000 = b div 3600000 \<and>
      (a div 60000 mod 60 < b div 60000 mod 60 \<or> a div 60000 mod 60 = b div 60000 mod 60 \<and>
       (a div 1000 mod 60 < b div 1000 mod 60 \<or> a div 1000 mod 60 = b div 1000 mod 60 \<and>
        a mod 1000 < b mod 1000))"
    using s1 s2 s3 e2 e3 by metis
  then show ?thesis by (rule lt [OF refl refl])
qed

lemma iso_fields_less:
  assumes "t < u" "0 \<le> iso_year t"
  shows "lex_lt (nat (iso_year t) # iso_fields t) (nat (iso_year u) # iso_fields u)"
proof -
  obtain y m d where t: "date_of_day (t div msPerDay) = (y, m, d)" by (cases "date_of_day (t div msPerDay)")
  obtain y' m' d' where u: "date_of_day (u div msPerDay) = (y', m', d')"
    by (cases "date_of_day (u div msPerDay)")
  note bt = date_of_day_bounds [OF t]
  have "0 < msPerDay" by (simp add: msPerDay_def)
  from div_mod_less [OF this assms(1)] show ?thesis
  proof (elim disjE conjE)
    assume "t div msPerDay < u div msPerDay"
    from date_of_day_less [OF this t u] show ?thesis
      using bt assms(2) by (auto simp: iso_fields_def iso_year_def t u nat_less_eq_zless)
  next
    assume "t div msPerDay = u div msPerDay" "t mod msPerDay < u mod msPerDay"
    then show ?thesis using t u time_fields_less [of t u] by (simp add: iso_fields_def iso_year_def)
  qed
qed

lemma iso_year_4:
  assumes "- 62167219200000 \<le> t" "t \<le> 253402300799999"
  shows "0 \<le> iso_year t \<and> iso_year t \<le> 9999"
proof -
  have d: "- 719528 \<le> t div msPerDay" "t div msPerDay \<le> 2932896"
    using assms div_upper [of msPerDay t] div_lower [of msPerDay t] by (auto simp: msPerDay_def)
  have "YearFromDay (- 719528) = 0" "YearFromDay 2932896 = 9999"
    by (simp_all add: YearFromDay_def DayFromYear_def)
  then show ?thesis using YearFromDay_mono [OF d(1)] YearFromDay_mono [OF d(2)] by (simp add: iso_year_eq)
qed

text \<open>\<open>4-digit\<close> times: from 0000-01-01 to 9999-12-31.\<close>

definition year4 :: "int \<Rightarrow> bool" where
  "year4 t \<longleftrightarrow> - 62167219200000 \<le> t \<and> t \<le> 253402300799999"

lemma iso_string_less:
  assumes "t < u" "year4 t" "year4 u"
  shows "str_lt (iso_string t) (iso_string u)"
proof -
  have y: "0 \<le> iso_year t \<and> iso_year t \<le> 9999" "0 \<le> iso_year u \<and> iso_year u \<le> 9999"
    using assms(2,3) iso_year_4 by (auto simp: year4_def)
  then show ?thesis
    using str_lt_render [OF iso_fields_less [OF assms(1)], of "Dig 4 # iso_tail"] fits_iso_fields
    by (simp add: iso_string_def Let_def nat_less_iff)
qed

lemma iso_string_lt_iff:
  assumes "year4 t" "year4 u"
  shows "str_lt (iso_string t) (iso_string u) \<longleftrightarrow> t < u"
  using iso_string_less [of t u] iso_string_less [of u t] assms str_lt_asym str_lt_irrefl
  by (cases t u rule: linorder_cases) auto

lemma iso_string_le_iff:
  assumes "year4 t" "year4 u"
  shows "str_le (iso_string t) (iso_string u) \<longleftrightarrow> t \<le> u"
  using iso_string_lt_iff [OF assms] iso_string_inj [of t u] assms
  by (auto simp: str_le_def year4_def)

lemma Utils_toIsoString_int [simp]:
  "\<bar>t\<bar> \<le> 8640000000000000 \<Longrightarrow> Utils_toIsoString (Fin (of_int t)) = Inr (iso_string t)"
  by (simp add: Utils_toIsoString_def new_Date_int Date_toISOString_def)

end
