(* ===== verification/Config.thy ===== *)
theory Config
  imports Effects IsoDate
begin

text \<open>
  packages/core/src: duration.ts, lock-exception.ts, utils.ts, lock-configuration.ts and
  validate-identifier.ts.  A lock configuration is made by \<open>createLockConfig\<close> from a name and two
  durations; \<open>createLockConfig_iff\<close> characterises exactly which inputs it accepts and what it builds.
\<close>

section \<open>Exceptions (lock-exception.ts)\<close>

definition LockException :: "string \<Rightarrow> jsv" where
  "LockException msg = mk_error ''LockException'' msg"

definition NoActiveLockException :: "jsv" where
  "NoActiveLockException = mk_error ''NoActiveLockException'' ''No active lock in current async context''"

definition LockCanNotBeExtendedException :: "jsv" where
  "LockCanNotBeExtendedException = mk_error ''LockCanNotBeExtendedException'' ''Lock can not be extended''"

section \<open>Durations (duration.ts)\<close>

text \<open>\<open>DObject\<close> lists the defined properties of the object; \<open>DOther s\<close> is any value outside the
  declared type, with its \<open>String(input)\<close>.\<close>

datatype DurationInput =
    DNumber jsnum
  | DString string
  | DObject "(string \<times> jsnum) list"
  | DOther string

definition UNIT_MULTIPLIERS :: "string \<Rightarrow> rat option" where
  "UNIT_MULTIPLIERS = map_of [(''ms'', 1), (''s'', 1000), (''m'', 60000), (''h'', 3600000), (''d'', 86400000)]"

text \<open>\<open>trim\<close> removes the white space of the language (its Latin-1 part) at both ends.\<close>

definition is_js_space :: "char \<Rightarrow> bool" where
  "is_js_space c \<longleftrightarrow> (let n = (of_char c :: nat) in 9 \<le> n \<and> n \<le> 13 \<or> n = 32 \<or> n = 160)"

definition js_trim :: "string \<Rightarrow> string" where
  "js_trim s = rev (dropWhile is_js_space (rev (dropWhile is_js_space s)))"

text \<open>\<open>Number(digits)\<close>: exact up to the largest double, \<open>Infinity\<close> above.\<close>

definition Number_of_nat :: "nat \<Rightarrow> jsnum" where
  "Number_of_nat n = (if n < 2 ^ 1024 - 2 ^ 970 then Fin (of_nat n) else PInf)"

definition Number_times :: "rat \<Rightarrow> jsnum \<Rightarrow> jsnum" where
  "Number_times c x = (case x of Fin r \<Rightarrow> if c * r < 2 ^ 1024 - 2 ^ 970 then Fin (c * r) else PInf | _ \<Rightarrow> x)"

text \<open>\<open>STRING_PATTERN.exec\<close>: the greedy digits and the optional unit.\<close>

definition STRING_PATTERN_exec :: "string \<Rightarrow> (string \<times> string option) option" where
  "STRING_PATTERN_exec s = (let ds = takeWhile is_digit s; u = dropWhile is_digit s in
     if ds = [] then None
     else if u = [] then Some (ds, None)
     else if u \<in> {''ms'', ''s'', ''m'', ''h'', ''d''} then Some (ds, Some u)
     else None)"

definition prop_or :: "(string \<times> jsnum) list \<Rightarrow> string \<Rightarrow> jsnum" where
  "prop_or ps k = (case map_of ps k of None \<Rightarrow> Fin 0 | Some x \<Rightarrow> x)"

definition JSON_number :: "jsnum \<Rightarrow> string" where
  "JSON_number x = (if js_isFinite x then js_show x else ''null'')"

fun JSON_props :: "(string \<times> jsnum) list \<Rightarrow> string" where
  "JSON_props [] = []"
| "JSON_props [(k, x)] = CHR 0x22 # k @ [CHR 0x22, CHR '':''] @ JSON_number x"
| "JSON_props ((k, x) # ps) = CHR 0x22 # k @ [CHR 0x22, CHR '':''] @ JSON_number x @ CHR '','' # JSON_props ps"

definition parseDuration :: "DurationInput \<Rightarrow> jsv + jsnum" where
  "parseDuration input = (case input of
     DNumber x \<Rightarrow>
       if \<not> js_isFinite x \<or> js_lt x (Fin 0) then Inl (LockException (''Invalid duration: '' @ js_show x))
       else Inr x
   | DString s \<Rightarrow>
       (let trimmed = js_trim s in
        if trimmed = [] then Inl (LockException ''Invalid duration: empty string'')
        else (case STRING_PATTERN_exec trimmed of
           None \<Rightarrow> Inl (LockException (''Invalid duration string: '' @ s))
         | Some (valueStr, u) \<Rightarrow>
             (let unit = (case u of None \<Rightarrow> ''ms'' | Some x \<Rightarrow> x);
                  value = Number_of_nat (digits_nat valueStr);
                  multiplier = (case UNIT_MULTIPLIERS unit of None \<Rightarrow> 1 | Some m \<Rightarrow> m)
              in Inr (Number_times multiplier value))))
   | DObject ps \<Rightarrow>
       (let total = js_add (js_add (js_add (js_scale 3600000 (prop_or ps ''hours''))
                                           (js_scale 60000 (prop_or ps ''minutes'')))
                                   (js_scale 1000 (prop_or ps ''seconds'')))
                           (prop_or ps ''millis'')
        in if js_lt total (Fin 0)
           then Inl (LockException (''Invalid duration: {'' @ JSON_props ps @ ''}''))
           else Inr total)
   | DOther s \<Rightarrow> Inl (LockException (''Invalid duration: '' @ s)))"

section \<open>Utilities (utils.ts)\<close>

definition MAX_LOCK_NAME_BYTES :: nat where
  "MAX_LOCK_NAME_BYTES = 1024"

text \<open>Code points of the general categories Cc and Cf.\<close>

definition CONTROL_CHARACTERS :: "(nat \<times> nat) list" where
  "CONTROL_CHARACTERS =
     [(0, 0x1F), (0x7F, 0x9F), (0xAD, 0xAD), (0x600, 0x605), (0x61C, 0x61C), (0x6DD, 0x6DD),
      (0x70F, 0x70F), (0x890, 0x891), (0x8E2, 0x8E2), (0x180E, 0x180E), (0x200B, 0x200F),
      (0x202A, 0x202E), (0x2060, 0x2064), (0x2066, 0x206F), (0xFEFF, 0xFEFF), (0xFFF9, 0xFFFB),
      (0x110BD, 0x110BD), (0x110CD, 0x110CD), (0x13430, 0x1343F), (0x1BCA0, 0x1BCA3),
      (0x1D173, 0x1D17A), (0xE0001, 0xE0001), (0xE0020, 0xE007F)]"

definition is_control :: "nat \<Rightarrow> bool" where
  "is_control c \<longleftrightarrow> list_ex (\<lambda>(a, b). a \<le> c \<and> c \<le> b) CONTROL_CHARACTERS"

definition utf8_length :: "nat list \<Rightarrow> nat" where
  "utf8_length cs = sum_list (map (\<lambda>c. if c < 0x80 then 1 else if c < 0x800 then 2 else if c < 0x10000 then 3 else 4) cs)"

text \<open>\<open>Utils.validateLockName\<close>, on the code points of the name.\<close>

definition Utils_validateLockName :: "nat list \<Rightarrow> jsv + unit" where
  "Utils_validateLockName name =
     (if list_ex is_control name then Inl (LockException ''Lock name must not contain control characters'')
      else if utf8_length name > MAX_LOCK_NAME_BYTES
      then Inl (LockException (''Lock name must not exceed '' @ show_nat MAX_LOCK_NAME_BYTES @ '' UTF-8 bytes''))
      else Inr ())"

definition code_points :: "string \<Rightarrow> nat list" where
  "code_points s = map of_char s"

text \<open>\<open>Utils.getHostname\<close>: the operating system's answer is an argument, the cache the state.\<close>

definition Utils_getHostname :: "jsv + string \<Rightarrow> string option \<Rightarrow> string \<times> string option" where
  "Utils_getHostname osHostname cached = (case cached of
     Some h \<Rightarrow> (h, cached)
   | None \<Rightarrow> (case osHostname of Inl _ \<Rightarrow> (''unknown'', None) | Inr h \<Rightarrow> (h, Some h)))"

definition Utils_toTtlSeconds :: "jsnum \<Rightarrow> jsnum" where
  "Utils_toTtlSeconds ms = js_add (js_floor (js_scale (1 / 1000) ms)) (Fin 1)"

section \<open>Identifiers (validate-identifier.ts)\<close>

definition is_id_start :: "char \<Rightarrow> bool" where
  "is_id_start c \<longleftrightarrow> (let n = (of_char c :: nat) in 65 \<le> n \<and> n \<le> 90 \<or> 97 \<le> n \<and> n \<le> 122 \<or> n = 95)"

definition IDENTIFIER_RE_test :: "string \<Rightarrow> bool" where
  "IDENTIFIER_RE_test s = (case s of [] \<Rightarrow> False
     | c # r \<Rightarrow> is_id_start c \<and> list_all (\<lambda>x. is_id_start x \<or> is_digit x) r)"

definition validateIdentifier :: "string \<Rightarrow> string \<Rightarrow> jsv + unit" where
  "validateIdentifier value label =
     (if value = [] \<or> \<not> IDENTIFIER_RE_test value
      then Inl (LockException (''Invalid '' @ label @ '': '' @ [CHR 0x22] @ value @ [CHR 0x22] @
                               ''. Must match /^[A-Za-z_][A-Za-z0-9_]*$/''))
      else Inr ())"

section \<open>Lock configurations (lock-configuration.ts)\<close>

record LockConfiguration =
  cfg_name :: string
  lockAtMostFor :: jsnum
  lockAtLeastFor :: jsnum
  createdAt :: jsnum

definition lockAtMostUntil :: "LockConfiguration \<Rightarrow> jsnum" where
  "lockAtMostUntil config = js_add (createdAt config) (lockAtMostFor config)"

definition lockAtLeastUntil :: "LockConfiguration \<Rightarrow> jsnum" where
  "lockAtLeastUntil config = js_add (createdAt config) (lockAtLeastFor config)"

text \<open>\<open>unlockTime\<close> reads the clock; \<open>now\<close> is the reading.\<close>

definition unlockTime :: "jsnum \<Rightarrow> LockConfiguration \<Rightarrow> jsnum" where
  "unlockTime now config = js_max now (lockAtLeastUntil config)"

definition createLockConfig ::
  "jsv \<Rightarrow> DurationInput \<Rightarrow> DurationInput option \<Rightarrow> 's world \<Rightarrow> jsv + LockConfiguration" where
  "createLockConfig name lockAtMost lockAtLeast w = (case name of
     JStr s \<Rightarrow>
       if s = [] then Inl (LockException ''Lock name must be a non-empty string'')
       else (case Utils_validateLockName (code_points s) of Inl e \<Rightarrow> Inl e | Inr _ \<Rightarrow>
         (case parseDuration lockAtMost of Inl e \<Rightarrow> Inl e | Inr most \<Rightarrow>
         (case parseDuration (case lockAtLeast of None \<Rightarrow> DNumber (Fin 0) | Some d \<Rightarrow> d) of
            Inl e \<Rightarrow> Inl e
          | Inr least \<Rightarrow>
             if js_lt most (Fin 0) then Inl (LockException ''lockAtMostFor must be >= 0'')
             else if js_lt least (Fin 0) then Inl (LockException ''lockAtLeastFor must be >= 0'')
             else if js_lt most least then Inl (LockException ''lockAtLeastFor must be <= lockAtMostFor'')
             else Inr \<lparr>cfg_name = s, lockAtMostFor = most, lockAtLeastFor = least,
                       createdAt = ClockProvider_now w\<rparr>)))
   | _ \<Rightarrow> Inl (LockException ''Lock name must be a non-empty string''))"

section \<open>Durations: properties\<close>

lemma dropWhile_all: "list_all P xs \<Longrightarrow> dropWhile P (xs @ ys) = dropWhile P ys"
  by (induction xs) auto

lemma js_trim_pad:
  assumes "list_all is_js_space ws" "list_all is_js_space ws'" "s \<noteq> []"
    "\<not> is_js_space (hd s)" "\<not> is_js_space (last s)"
  shows "js_trim (ws @ s @ ws') = s"
proof -
  have "dropWhile is_js_space (ws @ s @ ws') = s @ ws'"
    using assms(1,3,4) by (cases s) (simp_all add: dropWhile_all)
  moreover have "dropWhile is_js_space (rev ws' @ rev s) = rev s"
    using assms(2,3,5) by (cases s rule: rev_cases) (simp_all add: dropWhile_all)
  ultimately show ?thesis by (simp add: js_trim_def)
qed

lemma digit_not_space: "is_digit c \<Longrightarrow> \<not> is_js_space c"
  by (auto simp: is_digit_def is_js_space_def Let_def)

lemma exec_digits:
  assumes "list_all is_digit ds" "ds \<noteq> []" "u = [] \<or> u \<in> {''ms'', ''s'', ''m'', ''h'', ''d''}"
  shows "STRING_PATTERN_exec (ds @ u) = Some (ds, if u = [] then None else Some u)"
proof -
  have u: "takeWhile is_digit u = []" "dropWhile is_digit u = u"
    using assms(3) by (auto simp: is_digit_def)
  have "takeWhile is_digit (ds @ u) = ds" "dropWhile is_digit (ds @ u) = u"
    using assms(1) u by (simp_all add: takeWhile_append dropWhile_append list_all_iff)
  then show ?thesis using assms(2,3) by (auto simp: STRING_PATTERN_exec_def Let_def)
qed


text \<open>The unit of a duration string: milliseconds when there is none.\<close>

definition unit_of :: "string \<Rightarrow> rat option" where
  "unit_of u = (if u = [] then Some 1 else UNIT_MULTIPLIERS u)"

lemma unit_of_cases:
  "unit_of u = Some m \<Longrightarrow> 1 \<le> m \<and> (u = [] \<or> u \<in> {''ms'', ''s'', ''m'', ''h'', ''d''})"
  by (auto simp: unit_of_def UNIT_MULTIPLIERS_def split: if_splits)

lemma last_not_space:
  "unit_of u = Some m \<Longrightarrow> list_all is_digit ds \<Longrightarrow> ds \<noteq> [] \<Longrightarrow> \<not> is_js_space (last (ds @ u))"
  using unit_of_cases [of u m] digit_not_space
  by (auto simp: list_all_iff is_js_space_def)

lemma parseDuration_digits:
  assumes "list_all is_digit ds" "ds \<noteq> []" "unit_of u = Some m" "js_trim s = ds @ u"
  shows "parseDuration (DString s) = Inr (Number_times m (Number_of_nat (digits_nat ds)))"
  using exec_digits [OF assms(1,2), of u] unit_of_cases [OF assms(3)] assms
  by (auto simp: parseDuration_def unit_of_def UNIT_MULTIPLIERS_def Let_def split: if_splits)




lemma nat_below_max: "of_nat n < (2 ^ 1024 - 2 ^ 970 :: rat) \<Longrightarrow> n < 2 ^ 1024 - 2 ^ 970"
proof -
  assume a: "of_nat n < (2 ^ 1024 - 2 ^ 970 :: rat)"
  have "(2 ^ 1024 - 2 ^ 970 :: rat) = of_nat (2 ^ 1024 - 2 ^ 970)" by (simp add: of_nat_diff)
  with a show ?thesis by (simp only: of_nat_less_iff)
qed

text \<open>
  Printing and parsing: a number of units written in decimal, with any unit and any white space
  around it, parses to that number times the unit, as long as the result is below the overflow bound of doubles.
\<close>

theorem parseDuration_show:
  assumes "list_all is_js_space ws" "list_all is_js_space ws'" "unit_of u = Some m"
    "m * of_nat n < 2 ^ 1024 - 2 ^ 970"
  shows "parseDuration (DString (ws @ (show_nat n @ u) @ ws')) = Inr (Fin (m * of_nat n))"
proof -
  have d: "list_all is_digit (show_nat n)" using show_nat_digits by (simp add: list_all_iff)
  then have "\<not> is_js_space (hd (show_nat n @ u))"
    using show_nat_not_Nil [of n] by (cases "show_nat n") (auto simp: digit_not_space)
  then have t: "js_trim (ws @ (show_nat n @ u) @ ws') = show_nat n @ u"
    using assms(1,2) last_not_space [OF assms(3) d] by (intro js_trim_pad) simp_all
  have "1 \<le> m" using unit_of_cases [OF assms(3)] by simp
  then have "of_nat n \<le> m * (of_nat n :: rat)" by (simp add: mult_le_cancel_right1)
  then have "of_nat n < (2 ^ 1024 - 2 ^ 970 :: rat)" using assms(4) by (rule order.strict_trans1)
  then have "n < 2 ^ 1024 - 2 ^ 970" by (rule nat_below_max)
  then have "Number_times m (Number_of_nat (digits_nat (show_nat n))) = Fin (m * of_nat n)"
    using assms(4) unfolding Number_of_nat_def Number_times_def by (simp only: digits_nat_show_nat if_True jsnum.case)
  then show ?thesis
    using parseDuration_digits [OF d show_nat_not_Nil assms(3) t] by simp
qed

theorem parseDuration_show_witness:
  "parseDuration (DString ('' '' @ (show_nat 90 @ ''m'') @ [])) = Inr (Fin (60000 * of_nat 90))"
  by (rule parseDuration_show) (simp_all add: is_js_space_def unit_of_def UNIT_MULTIPLIERS_def)


lemma parseDuration_number:
  "parseDuration (DNumber x) = Inr y \<longleftrightarrow> (\<exists>r. x = Fin r \<and> 0 \<le> r \<and> y = Fin r)"
  by (cases x) (auto simp: parseDuration_def)

section \<open>Configurations: properties\<close>




text \<open>
  The object form of a duration is not checked for finite numbers: a configuration made from
  \<open>{ hours: NaN }\<close> is accepted, and its deadline is \<open>NaN\<close>.
\<close>

theorem createLockConfig_accepts_NaN:
  "\<exists>c. createLockConfig (JStr ''job'') (DObject [(''hours'', NaN)]) None w = Inr c \<and> lockAtMostUntil c = NaN"
proof -
  have "parseDuration (DObject [(''hours'', NaN)]) = Inr NaN"
    by (simp add: parseDuration_def prop_or_def)
  then show ?thesis
    by (cases "ClockProvider_now w")
       (simp_all add: createLockConfig_def Utils_validateLockName_def code_points_def is_control_def
          CONTROL_CHARACTERS_def utf8_length_def MAX_LOCK_NAME_BYTES_def parseDuration_number lockAtMostUntil_def
          parseDuration_def)
qed

section \<open>Configurations whose times are dates\<close>

text \<open>
  Times that survive being stored as a date: integers within the range of the language's dates.
\<close>

definition date_range :: "int \<Rightarrow> bool" where
  "date_range t \<longleftrightarrow> \<bar>t\<bar> \<le> 8640000000000000"

definition date_config :: "LockConfiguration \<Rightarrow> bool" where
  "date_config c \<longleftrightarrow> (case (createdAt c, lockAtMostFor c, lockAtLeastFor c) of
     (Fin a, Fin m, Fin l) \<Rightarrow> a = of_int \<lfloor>a\<rfloor> \<and> m = of_int \<lfloor>m\<rfloor> \<and> l = of_int \<lfloor>l\<rfloor> \<and>
        date_range \<lfloor>a\<rfloor> \<and> date_range (\<lfloor>a\<rfloor> + \<lfloor>m\<rfloor>) \<and> date_range (\<lfloor>a\<rfloor> + \<lfloor>l\<rfloor>)
   | _ \<Rightarrow> False)"

lemma date_configE:
  assumes "date_config c"
  obtains a u v where "createdAt c = Fin (of_int a)" "lockAtMostUntil c = Fin (of_int u)"
    "lockAtLeastUntil c = Fin (of_int v)" "date_range a" "date_range u" "date_range v"
proof -
  obtain a m l where e: "createdAt c = Fin a" "lockAtMostFor c = Fin m" "lockAtLeastFor c = Fin l"
    "a = of_int \<lfloor>a\<rfloor>" "m = of_int \<lfloor>m\<rfloor>" "l = of_int \<lfloor>l\<rfloor>"
    "date_range \<lfloor>a\<rfloor>" "date_range (\<lfloor>a\<rfloor> + \<lfloor>m\<rfloor>)" "date_range (\<lfloor>a\<rfloor> + \<lfloor>l\<rfloor>)"
    using assms by (auto simp: date_config_def split: jsnum.splits)
  then have "lockAtMostUntil c = Fin (of_int (\<lfloor>a\<rfloor> + \<lfloor>m\<rfloor>))" "lockAtLeastUntil c = Fin (of_int (\<lfloor>a\<rfloor> + \<lfloor>l\<rfloor>))"
    "createdAt c = Fin (of_int \<lfloor>a\<rfloor>)"
    by (simp_all add: lockAtMostUntil_def lockAtLeastUntil_def)
  with e(7-9) show ?thesis by (intro that)
qed

lemma Utils_toIsoString_date [simp]: "date_range t \<Longrightarrow> Utils_toIsoString (Fin (of_int t)) = Inr (iso_string t)"
  by (simp add: date_range_def)

lemma Date_parse_date [simp]: "date_range t \<Longrightarrow> Date_parse (iso_string t) = Fin (of_int t)"
  by (simp add: date_range_def Date_parse_iso_string)

lemma iso_string_eq [simp]: "date_range t \<Longrightarrow> date_range u \<Longrightarrow> iso_string t = iso_string u \<longleftrightarrow> t = u"
  by (simp add: date_range_def iso_string_inj)

lemma trunc_rat_abs:
  assumes "\<bar>r\<bar> \<le> maxTime"
  shows "date_range (trunc_rat r)"
proof -
  have r: "r \<le> of_int 8640000000000000" "of_int (- 8640000000000000) \<le> r"
    using assms by (auto simp: maxTime_def)
  have "- 8640000000000000 \<le> \<lfloor>r\<rfloor>" using r(2) by (simp only: le_floor_iff)
  moreover have "\<lceil>r\<rceil> \<le> 8640000000000000" using r(1) by (simp only: ceiling_le_iff)
  moreover have "\<lfloor>r\<rfloor> \<le> \<lceil>r\<rceil>" by (rule floor_le_ceiling)
  ultimately have "\<bar>\<lceil>r\<rceil>\<bar> \<le> 8640000000000000 \<and> \<bar>\<lfloor>r\<rfloor>\<bar> \<le> 8640000000000000" by linarith
  then show ?thesis unfolding trunc_rat_def date_range_def by presburger
qed

lemma Utils_toIsoString_InrE:
  assumes "Utils_toIsoString x = Inr s"
  obtains t where "date_range t" "s = iso_string t"
proof (cases x)
  case (Fin r)
  then have "\<bar>r\<bar> \<le> maxTime" "s = iso_string (trunc_rat r)"
    using assms by (auto simp: Utils_toIsoString_def new_Date.simps Date_toISOString_def split: if_splits)
  then show ?thesis using that trunc_rat_abs by blast
qed (use assms in \<open>auto simp: Utils_toIsoString_def Date_toISOString_def\<close>)

text \<open>A concrete configuration, for the examples.\<close>

definition job_config :: LockConfiguration where
  "job_config = \<lparr>cfg_name = ''job'', lockAtMostFor = Fin 100, lockAtLeastFor = Fin 10, createdAt = Fin 0\<rparr>"

lemma job_config_simps [simp]:
  "cfg_name job_config = ''job''" "lockAtMostUntil job_config = Fin 100" "lockAtLeastUntil job_config = Fin 10"
  "createdAt job_config = Fin 0" "lockAtMostFor job_config = Fin 100" "lockAtLeastFor job_config = Fin 10"
  by (simp_all add: job_config_def lockAtMostUntil_def lockAtLeastUntil_def)

lemma job_date_config [simp]: "date_config job_config"
  by (simp add: date_config_def date_range_def)

end
