(* ===== verification/SimpleLock.thy ===== *)
theory SimpleLock
  imports Config
begin

text \<open>
  packages/core/src: simple-lock.ts, lock-provider.ts and simple-lock-with-configuration.ts.

  \<open>asl\<close> is an object of a class that extends \<open>AbstractSimpleLock\<close>: its \<open>valid\<close> flag, its configuration
  and the subclass's own fields.  \<open>unlock\<close> and \<open>extend\<close> are programs that return the updated object;
  a throw leaves the object as it was, as in the code.  Calls on one object are sequential (a
  second call started while the first awaits is not modelled).
\<close>

section \<open>AbstractSimpleLock\<close>

record 'd asl =
  asl_valid :: bool
  asl_config :: LockConfiguration
  asl_data :: 'd

definition new_asl :: "LockConfiguration \<Rightarrow> 'd \<Rightarrow> 'd asl" where
  "new_asl config d = \<lparr>asl_valid = True, asl_config = config, asl_data = d\<rparr>"

definition checkValidity :: "'d asl \<Rightarrow> jsv + unit" where
  "checkValidity l =
     (if \<not> asl_valid l then Inl (LockException ''Lock has already been released or extended'') else Inr ())"

definition asl_unlock :: "('d asl \<Rightarrow> ('q, unit) prog) \<Rightarrow> 'd asl \<Rightarrow> ('q, 'd asl) prog" where
  "asl_unlock doUnlock l =
     sync (checkValidity l) (\<lambda>_. await (doUnlock l) (\<lambda>_. Ret (l\<lparr>asl_valid := False\<rparr>)))"

definition extended_config :: "LockConfiguration \<Rightarrow> jsnum \<Rightarrow> jsnum \<Rightarrow> jsnum \<Rightarrow> LockConfiguration" where
  "extended_config c most least now =
     \<lparr>cfg_name = cfg_name c, lockAtMostFor = most, lockAtLeastFor = least, createdAt = now\<rparr>"

definition asl_extend ::
  "('d asl \<Rightarrow> LockConfiguration \<Rightarrow> ('q, 'l option) prog) \<Rightarrow> 'd asl \<Rightarrow> jsnum \<Rightarrow> jsnum \<Rightarrow>
   ('q, 'l option \<times> 'd asl) prog" where
  "asl_extend doExtend l most least =
     sync (checkValidity l) (\<lambda>_. Now (\<lambda>now.
       await (doExtend l (extended_config (asl_config l) most least now)) (\<lambda>result.
         Ret (result, if result \<noteq> None then l\<lparr>asl_valid := False\<rparr> else l))))"

text \<open>\<open>AbstractSimpleLock.doExtend\<close>, for subclasses that do not override it.\<close>

definition asl_doExtend :: "'d asl \<Rightarrow> LockConfiguration \<Rightarrow> ('q, 'l option) prog" where
  "asl_doExtend l config = Raise (LockException ''Extend not supported by this provider'')"

section \<open>DelegatingSimpleLock\<close>

record ('q, 'l) SimpleLockDelegate =
  delegate_unlock :: "LockConfiguration \<Rightarrow> ('q, unit) prog"
  delegate_extend :: "(LockConfiguration \<Rightarrow> jsnum option \<Rightarrow> ('q, 'l option) prog) option"

definition delegating_doUnlock ::
  "('q, 'l) SimpleLockDelegate \<Rightarrow> 'd asl \<Rightarrow> ('q, unit) prog" where
  "delegating_doUnlock delegate l = await (delegate_unlock delegate (asl_config l)) Ret"

definition delegating_doExtend ::
  "('q, 'l) SimpleLockDelegate \<Rightarrow> 'd asl \<Rightarrow> LockConfiguration \<Rightarrow> ('q, 'l option) prog" where
  "delegating_doExtend delegate l newConfig = (case delegate_extend delegate of
     None \<Rightarrow> asl_doExtend l newConfig
   | Some ext \<Rightarrow> await (ext newConfig (Some (lockAtMostUntil (asl_config l)))) Ret)"

section \<open>Facts\<close>

lemma new_asl_simps [simp]:
  "asl_valid (new_asl c d)" "asl_config (new_asl c d) = c" "asl_data (new_asl c d) = d"
  by (simp_all add: new_asl_def)

lemma extended_config_simps [simp]:
  "cfg_name (extended_config c m l n) = cfg_name c" "lockAtMostFor (extended_config c m l n) = m"
  "lockAtLeastFor (extended_config c m l n) = l" "createdAt (extended_config c m l n) = n"
  by (simp_all add: extended_config_def)

lemma run_asl_unlock:
  "run h (asl_unlock doUnlock l) w =
     (if \<not> asl_valid l then (Inl (LockException ''Lock has already been released or extended''), w)
      else case run h (doUnlock l) w of
             (Inl e, w') \<Rightarrow> (Inl e, w') | (Inr _, w') \<Rightarrow> (Inr (l\<lparr>asl_valid := False\<rparr>), w'))"
  by (simp add: asl_unlock_def checkValidity_def run_await split: prod.splits sum.splits)

lemma run_asl_extend:
  "run h (asl_extend doExtend l most least) w =
     (if \<not> asl_valid l then (Inl (LockException ''Lock has already been released or extended''), w)
      else case run h (doExtend l (extended_config (asl_config l) most least (ClockProvider_now w))) w of
             (Inl e, w') \<Rightarrow> (Inl e, w')
           | (Inr r, w') \<Rightarrow> (Inr (r, if r \<noteq> None then l\<lparr>asl_valid := False\<rparr> else l), w'))"
  by (simp add: asl_extend_def checkValidity_def run_await split: prod.splits sum.splits)

lemma asl_unlock_validE:
  assumes "run h (asl_unlock doUnlock l) w = (r, w')" "asl_valid l"
  obtains r' where "run h (doUnlock l) w = (r', w')"
    "r = (case r' of Inl e \<Rightarrow> Inl e | Inr _ \<Rightarrow> Inr (l\<lparr>asl_valid := False\<rparr>))"
  using assms by (auto simp: run_asl_unlock split: prod.splits sum.splits)

lemma asl_extend_validE:
  assumes "run h (asl_extend doExtend l most least) w = (r, w')" "asl_valid l"
  obtains r' where "run h (doExtend l (extended_config (asl_config l) most least (ClockProvider_now w))) w = (r', w')"
    "r = (case r' of Inl e \<Rightarrow> Inl e | Inr x \<Rightarrow> Inr (x, if x \<noteq> None then l\<lparr>asl_valid := False\<rparr> else l))"
  using assms by (auto simp: run_asl_extend split: prod.splits sum.splits)

lemma delegating_simps [simp]:
  "delegating_doUnlock d l = delegate_unlock d (asl_config l)"
  "delegate_extend d = None \<Longrightarrow> delegating_doExtend d l c = Raise (LockException ''Extend not supported by this provider'')"
  "delegate_extend d = Some f \<Longrightarrow> delegating_doExtend d l c = f c (Some (lockAtMostUntil (asl_config l)))"
  by (simp_all add: delegating_doUnlock_def delegating_doExtend_def asl_doExtend_def)

text \<open>A lock object is used up by its first successful \<open>unlock\<close> or \<open>extend\<close>: any later call on it throws
  and does nothing else.\<close>

lemma asl_invalid_inert:
  assumes "\<not> asl_valid l"
  shows "asl_unlock doUnlock l = Raise (LockException ''Lock has already been released or extended'')"
    "asl_extend doExtend l most least = Raise (LockException ''Lock has already been released or extended'')"
  using assms by (simp_all add: asl_unlock_def asl_extend_def checkValidity_def)

end
