(* ===== verification/Lease.thy ===== *)
theory Lease
  imports SimpleLock
begin

text \<open>
  What a lock provider promises.

  A store keeps at most one deadline per name; a name is held while its deadline is in the future.  The
  locale \<open>lease_provider\<close> states what \<open>lock\<close>, \<open>doUnlock\<close> and \<open>doExtend\<close> of a provider may do to
  deadlines that have not passed; the system of any number of clients that lock, unlock and extend
  in any order while time passes then keeps at most one live lock object per name.  \<open>live_provider\<close> adds
  that a free name can be locked.  Each provider's theory interprets the locale on its own
  definitions.

  Operations are atomic steps here and share one clock; an operation that throws makes the client
  give its lock object up.  Interleaving inside an operation is treated in the theories of the
  providers that read and then write.
\<close>

type_synonym deadlines = "string \<Rightarrow> rat option"

definition free :: "deadlines \<Rightarrow> string \<Rightarrow> rat \<Rightarrow> bool" where
  "free A n t \<longleftrightarrow> (case A n of None \<Rightarrow> True | Some u \<Rightarrow> u \<le> t)"

text \<open>Deadlines in the future stay, all of them or all but the deadline \<open>u\<close> of \<open>n\<close>.\<close>

definition keeps :: "rat \<Rightarrow> deadlines \<Rightarrow> deadlines \<Rightarrow> bool" where
  "keeps t A B \<longleftrightarrow> (\<forall>m v. A m = Some v \<longrightarrow> t < v \<longrightarrow> B m = Some v)"

definition keeps_but :: "string \<Rightarrow> rat \<Rightarrow> rat \<Rightarrow> deadlines \<Rightarrow> deadlines \<Rightarrow> bool" where
  "keeps_but n u t A B \<longleftrightarrow> (\<forall>m v. A m = Some v \<longrightarrow> t < v \<longrightarrow> (m, v) \<noteq> (n, u) \<longrightarrow> B m = Some v)"

text \<open>The deadline of a configuration is the one stored for its name.\<close>

definition recorded :: "deadlines \<Rightarrow> LockConfiguration \<Rightarrow> bool" where
  "recorded A c \<longleftrightarrow> (case lockAtMostUntil c of Fin u \<Rightarrow> A (cfg_name c) = Some u | _ \<Rightarrow> False)"

lemma recordedD: "recorded A c \<Longrightarrow> \<exists>u. lockAtMostUntil c = Fin u \<and> A (cfg_name c) = Some u"
  by (auto simp: recorded_def split: jsnum.splits)

lemma recorded_Fin: "lockAtMostUntil c = Fin u \<Longrightarrow> recorded A c \<longleftrightarrow> A (cfg_name c) = Some u"
  by (simp add: recorded_def)

lemma keeps_refl [intro, simp]: "keeps t A A" "keeps_but n u t A A"
  by (simp_all add: keeps_def keeps_but_def)

lemma keeps_upd: "free A n t \<Longrightarrow> keeps t A (A(n := x))"
  by (auto simp: keeps_def free_def)

lemma keeps_trans: "keeps t A B \<Longrightarrow> keeps t B C \<Longrightarrow> keeps t A C"
  by (simp add: keeps_def)

lemma free_keeps: "keeps t A B \<Longrightarrow> free B n t \<Longrightarrow> free A n t"
  by (fastforce simp: keeps_def free_def split: option.splits)

lemma keeps_but_upd: "A n = Some u \<Longrightarrow> keeps_but n u t A (A(n := x))"
  by (auto simp: keeps_but_def)

lemma keeps_but_keeps: "keeps t A B \<Longrightarrow> keeps_but n u t A B"
  by (auto simp: keeps_def keeps_but_def)

section \<open>The contract\<close>

type_synonym 'd handles = "nat \<Rightarrow> 'd asl option"

locale lease_provider =
  fixes h :: "('q, 's) handler"
    and lock :: "LockConfiguration \<Rightarrow> ('q, 'd asl option) prog"
    and doUnlock :: "'d asl \<Rightarrow> ('q, unit) prog"
    and doExtend :: "'d asl \<Rightarrow> LockConfiguration \<Rightarrow> ('q, 'd asl option) prog"
    and deadline :: "'s \<Rightarrow> deadlines"
    and inv :: "'s world \<Rightarrow> bool"
    and ok :: "LockConfiguration \<Rightarrow> bool"
    and okl :: "'d asl \<Rightarrow> bool"
  assumes ok_until: "ok c \<Longrightarrow> \<exists>u. lockAtMostUntil c = Fin u"
    and okl_ok: "okl l \<Longrightarrow> ok (asl_config l)"
    and okl_valid: "okl l \<Longrightarrow> okl (l\<lparr>asl_valid := b\<rparr>)"
    and lock_law: "run h (lock c) w = (r, w') \<Longrightarrow> ok c \<Longrightarrow> inv w \<Longrightarrow> ClockProvider_now w = Fin t \<Longrightarrow>
      inv w' \<and> ClockProvider_now w' = Fin t \<and> keeps t (deadline (w_store w)) (deadline (w_store w')) \<and>
      (\<forall>l. r = Inr (Some l) \<longrightarrow> okl l \<and> asl_valid l \<and> asl_config l = c \<and>
         free (deadline (w_store w)) (cfg_name c) t \<and>
         recorded (deadline (w_store w')) c)"
    and unlock_law: "run h (doUnlock l) w = (r', w') \<Longrightarrow> okl l \<Longrightarrow> inv w \<Longrightarrow> ClockProvider_now w = Fin t \<Longrightarrow>
      lockAtMostUntil (asl_config l) = Fin u \<Longrightarrow>
      inv w' \<and> ClockProvider_now w' = Fin t \<and>
      keeps_but (cfg_name (asl_config l)) u t (deadline (w_store w)) (deadline (w_store w'))"
    and extend_law: "run h (doExtend l c) w = (r, w') \<Longrightarrow> okl l \<Longrightarrow> ok c \<Longrightarrow> cfg_name c = cfg_name (asl_config l) \<Longrightarrow>
      inv w \<Longrightarrow> ClockProvider_now w = Fin t \<Longrightarrow> lockAtMostUntil (asl_config l) = Fin u \<Longrightarrow>
      inv w' \<and> ClockProvider_now w' = Fin t \<and>
      keeps_but (cfg_name c) u t (deadline (w_store w)) (deadline (w_store w')) \<and>
      (r = Inr None \<longrightarrow> keeps t (deadline (w_store w)) (deadline (w_store w'))) \<and>
      (\<forall>l'. r = Inr (Some l') \<longrightarrow> okl l' \<and> asl_valid l' \<and> asl_config l' = c \<and>
         deadline (w_store w) (cfg_name c) = Some u \<and> t < u \<and>
         recorded (deadline (w_store w')) c)"
begin

text \<open>
  Any number of clients: \<open>L i\<close> is the lock object some client keeps under handle \<open>i\<close>, used up
  objects included.
\<close>

inductive step :: "'s world \<Rightarrow> 'd handles \<Rightarrow> 's world \<Rightarrow> 'd handles \<Rightarrow> bool" where
  tick: "ClockProvider_now w = Fin t \<Longrightarrow> ClockProvider_now w' = Fin t' \<Longrightarrow> t \<le> t' \<Longrightarrow>
    w_store w' = w_store w \<Longrightarrow> inv w' \<Longrightarrow> step w L w' L"
| lock_ok: "ok c \<Longrightarrow> run h (lock c) w = (Inr (Some l), w') \<Longrightarrow> L i = None \<Longrightarrow> step w L w' (L(i := Some l))"
| lock_no: "ok c \<Longrightarrow> run h (lock c) w = (r, w') \<Longrightarrow> (\<forall>l. r \<noteq> Inr (Some l)) \<Longrightarrow> step w L w' L"
| unlock_ok: "L i = Some l \<Longrightarrow> run h (asl_unlock doUnlock l) w = (Inr l', w') \<Longrightarrow>
    step w L w' (L(i := Some l'))"
| unlock_err: "L i = Some l \<Longrightarrow> run h (asl_unlock doUnlock l) w = (Inl e, w') \<Longrightarrow> step w L w' (L(i := None))"
| extend_ok: "L i = Some l \<Longrightarrow> ok (extended_config (asl_config l) most least (ClockProvider_now w)) \<Longrightarrow>
    run h (asl_extend doExtend l most least) w = (Inr (Some l', l2), w') \<Longrightarrow> L j = None \<Longrightarrow> j \<noteq> i \<Longrightarrow>
    step w L w' (L(i := Some l2, j := Some l'))"
| extend_no: "L i = Some l \<Longrightarrow> ok (extended_config (asl_config l) most least (ClockProvider_now w)) \<Longrightarrow>
    run h (asl_extend doExtend l most least) w = (Inr (None, l2), w') \<Longrightarrow> step w L w' (L(i := Some l2))"
| extend_err: "L i = Some l \<Longrightarrow> ok (extended_config (asl_config l) most least (ClockProvider_now w)) \<Longrightarrow>
    run h (asl_extend doExtend l most least) w = (Inl e, w') \<Longrightarrow> step w L w' (L(i := None))"

inductive reach :: "'s world \<Rightarrow> 's world \<Rightarrow> 'd handles \<Rightarrow> bool" for w0 :: "'s world" where
  reach_init: "reach w0 w0 (\<lambda>_. None)"
| reach_step: "reach w0 w L \<Longrightarrow> step w L w' L' \<Longrightarrow> reach w0 w' L'"

text \<open>A live lock object: not used up, its deadline in the future.\<close>

definition live :: "rat \<Rightarrow> 'd asl \<Rightarrow> bool" where
  "live t l \<longleftrightarrow> asl_valid l \<and> js_lt (Fin t) (lockAtMostUntil (asl_config l))"

definition good :: "'s world \<Rightarrow> 'd handles \<Rightarrow> bool" where
  "good w L \<longleftrightarrow> inv w \<and> (\<exists>t. ClockProvider_now w = Fin t \<and>
     (\<forall>i l. L i = Some l \<longrightarrow> okl l) \<and>
     (\<forall>i l. L i = Some l \<longrightarrow> live t l \<longrightarrow>
        recorded (deadline (w_store w)) (asl_config l)) \<and>
     (\<forall>i j l m. L i = Some l \<longrightarrow> L j = Some m \<longrightarrow> live t l \<longrightarrow> live t m \<longrightarrow>
        cfg_name (asl_config l) = cfg_name (asl_config m) \<longrightarrow> i = j))"

lemma live_invalid [simp]: "\<not> live t (l\<lparr>asl_valid := False\<rparr>)"
  by (simp add: live_def)

lemma goodI:
  assumes "inv w" "ClockProvider_now w = Fin t" "\<And>i l. L i = Some l \<Longrightarrow> okl l"
    "\<And>i l. L i = Some l \<Longrightarrow> live t l \<Longrightarrow>
        recorded (deadline (w_store w)) (asl_config l)"
    "\<And>i j l m. L i = Some l \<Longrightarrow> L j = Some m \<Longrightarrow> live t l \<Longrightarrow> live t m \<Longrightarrow>
        cfg_name (asl_config l) = cfg_name (asl_config m) \<Longrightarrow> i = j"
  shows "good w L"
  unfolding good_def using assms by blast

lemma good_now:
  assumes "good w L" obtains t where "ClockProvider_now w = Fin t" "inv w"
  using assms by (auto simp: good_def)

lemma goodD:
  assumes "good w L" "ClockProvider_now w = Fin t"
  shows "inv w" "L i = Some l \<Longrightarrow> okl l"
    "L i = Some l \<Longrightarrow> live t l \<Longrightarrow> recorded (deadline (w_store w)) (asl_config l)"
    "L i = Some l \<Longrightarrow> L j = Some m \<Longrightarrow> live t l \<Longrightarrow> live t m \<Longrightarrow>
        cfg_name (asl_config l) = cfg_name (asl_config m) \<Longrightarrow> i = j"
proof -
  obtain t' where t': "ClockProvider_now w = Fin t'" "inv w" "\<forall>i l. L i = Some l \<longrightarrow> okl l"
     "\<forall>i l. L i = Some l \<longrightarrow> live t' l \<longrightarrow> recorded (deadline (w_store w)) (asl_config l)"
     "\<forall>i j l m. L i = Some l \<longrightarrow> L j = Some m \<longrightarrow> live t' l \<longrightarrow> live t' m \<longrightarrow>
        cfg_name (asl_config l) = cfg_name (asl_config m) \<longrightarrow> i = j"
    using assms(1) unfolding good_def by blast
  moreover have "t' = t" using t'(1) assms(2) by simp
  ultimately show "inv w" "L i = Some l \<Longrightarrow> okl l"
    "L i = Some l \<Longrightarrow> live t l \<Longrightarrow> recorded (deadline (w_store w)) (asl_config l)"
    "L i = Some l \<Longrightarrow> L j = Some m \<Longrightarrow> live t l \<Longrightarrow> live t m \<Longrightarrow>
        cfg_name (asl_config l) = cfg_name (asl_config m) \<Longrightarrow> i = j"
    by blast+
qed

lemma live_deadline:
  assumes "good w L" "ClockProvider_now w = Fin t" "L i = Some l" "live t l"
  obtains u where "lockAtMostUntil (asl_config l) = Fin u" "t < u"
    "deadline (w_store w) (cfg_name (asl_config l)) = Some u"
  using recordedD [OF goodD(3) [OF assms]] assms(4) by (auto simp: live_def)

text \<open>A step that keeps every live deadline keeps the objects in order, whatever it drops.\<close>

lemma good_sub:
  assumes "good w L" "ClockProvider_now w = Fin t" "inv w'" "ClockProvider_now w' = Fin t"
    and sub: "\<And>i l. L' i = Some l \<Longrightarrow> okl l \<and> (live t l \<longrightarrow> L i = Some l \<and>
       (\<forall>u. lockAtMostUntil (asl_config l) = Fin u \<longrightarrow> t < u \<longrightarrow>
          deadline (w_store w) (cfg_name (asl_config l)) = Some u \<longrightarrow>
          deadline (w_store w') (cfg_name (asl_config l)) = Some u))"
  shows "good w' L'"
proof (rule goodI [OF assms(3,4)])
  fix i l assume l: "L' i = Some l"
  then show "okl l" using sub by blast
  assume lv: "live t l"
  then have "L i = Some l" using sub l by blast
  then show "recorded (deadline (w_store w')) (asl_config l)"
    by (rule live_deadline [OF assms(1,2) _ lv]) (use sub l lv in \<open>auto simp: recorded_Fin\<close>)
next
  fix i j l m assume a: "L' i = Some l" "L' j = Some m" "live t l" "live t m"
    "cfg_name (asl_config l) = cfg_name (asl_config m)"
  then have "L i = Some l" "L j = Some m" using sub by blast+
  with a(3-5) show "i = j" using goodD(4) [OF assms(1,2)] by blast
qed

lemma good_tick:
  assumes "good w L" "ClockProvider_now w = Fin t" "ClockProvider_now w' = Fin t'" "t \<le> t'"
    "w_store w' = w_store w" "inv w'"
  shows "good w' L"
proof -
  have "live t l" if "live t' l" for l
    using that assms(4) by (cases "lockAtMostUntil (asl_config l)") (auto simp: live_def)
  with goodD [OF assms(1,2)] assms(3,5,6) show ?thesis by (intro goodI [of _ t']) auto
qed

text \<open>Adding a live object for a name none of the others is live for.\<close>

lemma good_add:
  assumes g: "good w L" and L: "L i = None" and l: "okl l"
    and d: "recorded (deadline (w_store w)) (asl_config l)"
    and t: "ClockProvider_now w = Fin t"
    and others: "\<And>j m. L j = Some m \<Longrightarrow> live t m \<Longrightarrow> cfg_name (asl_config m) \<noteq> cfg_name (asl_config l)"
  shows "good w (L(i := Some l))"
proof (rule goodI [OF _ t])
  note gd = goodD [OF g t]
  show "inv w" by (rule gd)
  show "okl m" if "(L(i := Some l)) j = Some m" for j m
    using that gd(2) l by (auto split: if_splits)
  show "recorded (deadline (w_store w)) (asl_config m)" if "(L(i := Some l)) j = Some m" "live t m" for j m
    using that gd(3) d by (auto split: if_splits)
  show "j = k" if "(L(i := Some l)) j = Some m" "(L(i := Some l)) k = Some n" "live t m" "live t n"
    "cfg_name (asl_config m) = cfg_name (asl_config n)" for j k m n
  proof (cases "j = i \<or> k = i")
    case True
    then show ?thesis using that others by (metis fun_upd_apply option.inject)
  next
    case False
    then show ?thesis using that gd(4) by (metis fun_upd_apply)
  qed
qed

lemma good_but:
  assumes g: "good w L" and t: "ClockProvider_now w = Fin t" and w': "inv w'" "ClockProvider_now w' = Fin t"
    and l: "L i = Some l" "asl_valid l" and u: "lockAtMostUntil (asl_config l) = Fin u"
    and kb: "keeps_but (cfg_name (asl_config l)) u t (deadline (w_store w)) (deadline (w_store w'))"
    and sub: "\<And>j m. L' j = Some m \<Longrightarrow> j \<noteq> i \<and> L j = Some m \<or> okl m \<and> \<not> asl_valid m"
  shows "good w' L'"
proof (rule good_sub [OF g t w'])
  fix j m assume m: "L' j = Some m"
  show "okl m \<and> (live t m \<longrightarrow> L j = Some m \<and>
     (\<forall>v. lockAtMostUntil (asl_config m) = Fin v \<longrightarrow> t < v \<longrightarrow>
        deadline (w_store w) (cfg_name (asl_config m)) = Some v \<longrightarrow>
        deadline (w_store w') (cfg_name (asl_config m)) = Some v))"
  proof (cases "j \<noteq> i \<and> L j = Some m")
    case True
    have "(cfg_name (asl_config m), v) \<noteq> (cfg_name (asl_config l), u)"
      if "live t m" "lockAtMostUntil (asl_config m) = Fin v" for v
    proof
      assume e: "(cfg_name (asl_config m), v) = (cfg_name (asl_config l), u)"
      then have "live t l" using that l(2) u by (simp add: live_def)
      then show False using goodD(4) [OF g t _ l(1)] True that(1) e by blast
    qed
    then show ?thesis using True goodD(2) [OF g t] kb by (auto simp: keeps_but_def)
  next
    case False
    then show ?thesis using sub [OF m] by (auto simp: live_def)
  qed
qed

lemma good_give_up:
  assumes g: "good w L"
  shows "good w (L(i := None))"
proof -
  obtain t where t: "ClockProvider_now w = Fin t" by (rule good_now [OF g])
  show "good w (L(i := None))"
    by (rule good_sub [OF g t goodD(1) [OF g t] t]) (use goodD(2) [OF g t] in \<open>auto split: if_splits\<close>)
qed

lemma good_okl:
  assumes "good w L" "L i = Some l" obtains u where "okl l" "lockAtMostUntil (asl_config l) = Fin u"
  using ok_until okl_ok goodD(2) [OF assms(1) _ assms(2)] good_now [OF assms(1)] by metis

lemma unlock_good:
  assumes g: "good w L" and l: "L i = Some l" and r: "run h (asl_unlock doUnlock l) w = (r, w')"
  shows "good w' (L(i := case r of Inl e \<Rightarrow> None | Inr l' \<Rightarrow> Some l'))"
proof (cases "asl_valid l")
  case True
  obtain t where t: "ClockProvider_now w = Fin t" "inv w" by (rule good_now [OF g])
  obtain u where u: "okl l" "lockAtMostUntil (asl_config l) = Fin u" by (rule good_okl [OF g l])
  obtain r' where r': "run h (doUnlock l) w = (r', w')" and rr: "r = (case r' of Inl e \<Rightarrow> Inl e | Inr _ \<Rightarrow> Inr (l\<lparr>asl_valid := False\<rparr>))"
    by (rule asl_unlock_validE [OF r True])
  note law = unlock_law [OF r' u(1) t(2,1) u(2)]
  show ?thesis
    by (rule good_but [where L = L and w = w and i = i and l = l, OF g t(1) _ _ l True u(2)])
       (use law rr okl_valid [OF u(1)] in \<open>auto split: if_splits sum.splits\<close>)
next
  case False
  then show ?thesis using g r by (auto simp: run_asl_unlock good_give_up)
qed

lemma extend_good:
  assumes g: "good w L" and l: "L i = Some l"
    and c: "ok (extended_config (asl_config l) most least (ClockProvider_now w))"
    and r: "run h (asl_extend doExtend l most least) w = (r, w')"
  shows "(\<exists>e. r = Inl e) \<Longrightarrow> good w' (L(i := None))"
    and "r = Inr (None, l2) \<Longrightarrow> good w' (L(i := Some l2))"
    and "r = Inr (Some l', l2) \<Longrightarrow> L j = None \<Longrightarrow> j \<noteq> i \<Longrightarrow> good w' (L(i := Some l2, j := Some l'))"
proof -
  let ?c = "extended_config (asl_config l) most least (ClockProvider_now w)"
  obtain t where t: "ClockProvider_now w = Fin t" "inv w" by (rule good_now [OF g])
  obtain u where u: "okl l" "lockAtMostUntil (asl_config l) = Fin u" by (rule good_okl [OF g l])
  have okl2: "okl (l\<lparr>asl_valid := False\<rparr>)" using okl_valid [OF u(1)] .
  show "good w' (L(i := None))" if "\<exists>e. r = Inl e"
  proof (cases "asl_valid l")
    case True
    obtain r' where r': "run h (doExtend l ?c) w = (r', w')" by (rule asl_extend_validE [OF r True])
    note law = extend_law [OF r' u(1) c extended_config_simps(1) t(2,1) u(2), unfolded extended_config_simps]
    show ?thesis
      by (rule good_but [OF g t(1) _ _ l True u(2)]) (use law in \<open>auto split: if_splits\<close>)
  next
    case False
    then show ?thesis using g r by (auto simp: asl_invalid_inert good_give_up)
  qed
  have v: "asl_valid l" if "r = Inr (x, l2)" for x
    using r that by (auto simp: run_asl_extend split: if_splits)
  show "good w' (L(i := Some l2))" if rr: "r = Inr (None, l2)"
  proof -
    obtain r' where r': "run h (doExtend l ?c) w = (r', w')"
      "r = (case r' of Inl e \<Rightarrow> Inl e | Inr x \<Rightarrow> Inr (x, if x \<noteq> None then l\<lparr>asl_valid := False\<rparr> else l))"
      by (rule asl_extend_validE [OF r v [OF rr]])
    then have e: "r' = Inr None" "l2 = l" using rr by (auto split: sum.splits if_splits)
    note law = extend_law [OF r'(1) u(1) c extended_config_simps(1) t(2,1) u(2)]
    show ?thesis
      unfolding e(2)
      by (rule good_sub [OF g t(1)])
         (use law e(1) l goodD(2) [OF g t(1)] in \<open>auto simp: keeps_def split: if_splits\<close>)
  qed
  show "good w' (L(i := Some l2, j := Some l'))" if rr: "r = Inr (Some l', l2)" and j: "L j = None" "j \<noteq> i"
  proof -
    obtain r' where r': "run h (doExtend l ?c) w = (r', w')"
      "r = (case r' of Inl e \<Rightarrow> Inl e | Inr x \<Rightarrow> Inr (x, if x \<noteq> None then l\<lparr>asl_valid := False\<rparr> else l))"
      by (rule asl_extend_validE [OF r v [OF rr]])
    then have e: "r' = Inr (Some l')" "l2 = l\<lparr>asl_valid := False\<rparr>"
      using rr by (auto split: sum.splits if_splits)
    note law = extend_law [OF r'(1) u(1) c extended_config_simps(1) t(2,1) u(2), unfolded extended_config_simps]
    have "t < u" "okl l'" "asl_config l' = ?c" "recorded (deadline (w_store w')) ?c"
      "inv w'" "ClockProvider_now w' = Fin t"
      "keeps_but (cfg_name (asl_config l)) u t (deadline (w_store w)) (deadline (w_store w'))"
      using law e(1) by blast+
    note f = this
    have lv: "live t l" using f(1) v [OF rr] u by (simp add: live_def)
    have g': "good w' (L(i := Some l2))"
      by (rule good_but [OF g t(1) f(5,6) l v [OF rr] u(2) f(7)]) (use okl2 e(2) in \<open>auto split: if_splits\<close>)
    show ?thesis
    proof (rule good_add [OF g' _ f(2) _ f(6)])
      show "cfg_name (asl_config m) \<noteq> cfg_name (asl_config l')"
        if "(L(i := Some l2)) k = Some m" "live t m" for k m
      proof
        assume "cfg_name (asl_config m) = cfg_name (asl_config l')"
        then have "cfg_name (asl_config m) = cfg_name (asl_config l)" using f(3) by simp
        moreover have "k \<noteq> i" using that e(2) by auto
        moreover from this have "L k = Some m" using that(1) by simp
        ultimately show False using goodD(4) [OF g t(1) _ l that(2) lv] by blast
      qed
    qed (use j f(3,4) in auto)
  qed
qed

lemma lock_good:
  assumes g: "good w L" and c: "ok c" and r: "run h (lock c) w = (r, w')"
  shows "good w' L" and "r = Inr (Some l) \<Longrightarrow> L i = None \<Longrightarrow> good w' (L(i := Some l))"
proof -
  obtain t where t: "ClockProvider_now w = Fin t" "inv w" by (rule good_now [OF g])
  note law = lock_law [OF r c t(2,1)]
  show g': "good w' L"
    using law goodD(2) [OF g t(1)] by (intro good_sub [OF g t(1)]) (auto simp: keeps_def)
  show "good w' (L(i := Some l))" if "r = Inr (Some l)" "L i = None"
  proof (rule good_add [OF g' that(2)])
    show "cfg_name (asl_config m) \<noteq> cfg_name (asl_config l)" if jm: "L j = Some m" "live t m" for j m
    proof
      assume n: "cfg_name (asl_config m) = cfg_name (asl_config l)"
      obtain u where "t < u" "deadline (w_store w) (cfg_name (asl_config m)) = Some u"
        by (rule live_deadline [OF g t(1) jm])
      then show False using law \<open>r = Inr (Some l)\<close> n by (auto simp: free_def)
    qed
  qed (use law that in auto)
qed

lemma step_good: "step w L w' L' \<Longrightarrow> good w L \<Longrightarrow> good w' L'"
proof (induction rule: step.induct)
  case (tick w t w' t' L)
  show ?case by (rule good_tick [OF tick(6,1,2,3,4,5)])
next
  case (lock_ok c w l w' L i)
  show ?case by (rule lock_good(2) [OF lock_ok(4,1,2) refl lock_ok(3)])
next
  case (lock_no c w r w' L)
  show ?case by (rule lock_good(1) [OF lock_no(4,1,2)])
next
  case (unlock_ok L i l w l' w')
  show ?case using unlock_good [OF unlock_ok(3,1,2)] unfolding sum.case .
next
  case (unlock_err L i l w e w')
  show ?case using unlock_good [OF unlock_err(3,1,2)] unfolding sum.case .
next
  case (extend_ok L i l most least w l' l2 w' j)
  show ?case by (rule extend_good(3) [OF extend_ok(6,1,2,3) refl extend_ok(4,5)])
next
  case (extend_no L i l most least w l2 w')
  show ?case by (rule extend_good(2) [OF extend_no(4,1,2,3) refl])
next
  case (extend_err L i l most least w e w')
  show ?case by (rule extend_good(1) [OF extend_err(4,1,2,3)]) blast
qed

theorem reach_good:
  assumes "inv w0" "ClockProvider_now w0 = Fin t0" "reach w0 w L"
  shows "good w L"
  using assms(3)
proof induction
  case reach_init
  show ?case using assms(1,2) by (intro goodI) auto
next
  case (reach_step w L w' L')
  then show ?case using step_good by blast
qed

text \<open>Two live lock objects for one name are the same object.\<close>

lemma mutual_exclusion:
  assumes "inv w0" "ClockProvider_now w0 = Fin t0" "reach w0 w L"
    and "ClockProvider_now w = Fin t" "L i = Some l" "L j = Some m" "live t l" "live t m"
    and "cfg_name (asl_config l) = cfg_name (asl_config m)"
  shows "i = j"
  by (rule goodD(4) [OF reach_good [OF assms(1-3)] assms(4-9)])

text \<open>While a lock object is live, nobody else is given the name.\<close>

lemma live_blocks:
  assumes "inv w0" "ClockProvider_now w0 = Fin t0" "reach w0 w L"
    and "ClockProvider_now w = Fin t" "L i = Some l" "live t l" "ok c" "cfg_name c = cfg_name (asl_config l)"
  shows "fst (run h (lock c) w) \<noteq> Inr (Some m)"
proof
  assume "fst (run h (lock c) w) = Inr (Some m)"
  then obtain w' where r: "run h (lock c) w = (Inr (Some m), w')" by (cases "run h (lock c) w") auto
  have g: "good w L" by (rule reach_good [OF assms(1-3)])
  have "inv w" by (rule goodD(1) [OF g assms(4)])
  from lock_law [OF r assms(7) this assms(4)] have "free (deadline (w_store w)) (cfg_name c) t" by blast
  moreover obtain u where "t < u" "deadline (w_store w) (cfg_name (asl_config l)) = Some u"
    by (rule live_deadline [OF g assms(4-6)])
  ultimately show False using assms(8) by (simp add: free_def)
qed

end

section \<open>Availability\<close>

locale live_provider = lease_provider +
  assumes lock_free: "ok c \<Longrightarrow> inv w \<Longrightarrow> ClockProvider_now w = Fin t \<Longrightarrow>
      free (deadline (w_store w)) (cfg_name c) t \<Longrightarrow> \<exists>l w'. run h (lock c) w = (Inr (Some l), w')"
begin

text \<open>In every reachable state \<open>lock\<close> gives an object exactly when the name is free.\<close>

lemma lock_iff_free:
  assumes "inv w0" "ClockProvider_now w0 = Fin t0" "reach w0 w L" "ClockProvider_now w = Fin t" "ok c"
  shows "(\<exists>l. fst (run h (lock c) w) = Inr (Some l)) \<longleftrightarrow> free (deadline (w_store w)) (cfg_name c) t"
proof
  have i: "inv w" by (rule goodD(1) [OF reach_good [OF assms(1-3)] assms(4)])
  show "free (deadline (w_store w)) (cfg_name c) t" if "\<exists>l. fst (run h (lock c) w) = Inr (Some l)"
  proof -
    from that obtain l w' where "run h (lock c) w = (Inr (Some l), w')" by (cases "run h (lock c) w") auto
    from lock_law [OF this assms(5) i assms(4)] show ?thesis by blast
  qed
  show "\<exists>l. fst (run h (lock c) w) = Inr (Some l)" if "free (deadline (w_store w)) (cfg_name c) t"
    using lock_free [OF assms(5) i assms(4) that] by force
qed

end

end
