(* ===== verification/InMemory.thy ===== *)
theory InMemory
  imports Lease
begin

text \<open>
  packages/in-memory/src: the provider keeps a \<open>Map\<close> from names to deadlines.  None of its methods awaits, so
  each body is one atomic state function; \<open>im_handler\<close> makes them requests to the provider object, so that
  the lock objects are the programs of \<open>SimpleLock\<close>.
\<close>

section \<open>The provider and its lock objects\<close>

type_synonym im_locks = "string \<Rightarrow> jsnum option"

definition im_set :: "string \<Rightarrow> jsnum \<Rightarrow> im_locks world \<Rightarrow> im_locks world" where
  "im_set name until w = w\<lparr>w_store := (w_store w)(name := Some until)\<rparr>"

definition im_delete :: "string \<Rightarrow> im_locks world \<Rightarrow> im_locks world" where
  "im_delete name w = w\<lparr>w_store := (w_store w)(name := None)\<rparr>"

definition InMemory_isLocked :: "string \<Rightarrow> im_locks world \<Rightarrow> bool \<times> im_locks world" where
  "InMemory_isLocked name w = (case w_store w name of
     None \<Rightarrow> (False, w)
   | Some until \<Rightarrow>
       if js_le until (ClockProvider_now w) then (False, im_delete name w) else (True, w))"

definition InMemory_lock_body :: "LockConfiguration \<Rightarrow> im_locks world \<Rightarrow> bool \<times> im_locks world" where
  "InMemory_lock_body config w = (case InMemory_isLocked (cfg_name config) w of
     (True, w1) \<Rightarrow> (False, w1)
   | (False, w1) \<Rightarrow> (True, im_set (cfg_name config) (lockAtMostUntil config) w1))"

text \<open>\<open>x !== y\<close> for an entry of the map: an absent entry is \<open>undefined\<close>.\<close>

definition entry_is :: "jsnum option \<Rightarrow> jsnum \<Rightarrow> bool" where
  "entry_is e x \<longleftrightarrow> (case e of None \<Rightarrow> False | Some y \<Rightarrow> js_eq y x)"

definition InMemoryLock_unlock_body :: "LockConfiguration \<Rightarrow> im_locks world \<Rightarrow> im_locks world" where
  "InMemoryLock_unlock_body config w =
     (if \<not> entry_is (w_store w (cfg_name config)) (lockAtMostUntil config) then w
      else im_set (cfg_name config) (lockAtLeastUntil config) w)"

definition InMemoryLock_extend_body ::
  "LockConfiguration \<Rightarrow> LockConfiguration \<Rightarrow> im_locks world \<Rightarrow> bool \<times> im_locks world" where
  "InMemoryLock_extend_body config newConfig w =
     (let ownedUntil = lockAtMostUntil config in
      if entry_is (w_store w (cfg_name config)) ownedUntil \<and> js_lt (ClockProvider_now w) ownedUntil
      then (True, im_set (cfg_name config) (lockAtMostUntil newConfig) w)
      else (False, w))"

datatype im_req =
    ImLock LockConfiguration
  | ImUnlock LockConfiguration
  | ImExtend LockConfiguration LockConfiguration

fun im_handler :: "(im_req, im_locks) handler" where
  "im_handler (ImLock c) w = (case InMemory_lock_body c w of (b, w') \<Rightarrow> (Inr (JBool b), w'))"
| "im_handler (ImUnlock c) w = (Inr JUndef, InMemoryLock_unlock_body c w)"
| "im_handler (ImExtend c c') w = (case InMemoryLock_extend_body c c' w of (b, w') \<Rightarrow> (Inr (JBool b), w'))"

definition InMemoryLockProvider_lock :: "LockConfiguration \<Rightarrow> (im_req, unit asl option) prog" where
  "InMemoryLockProvider_lock config =
     request (ImLock config) (\<lambda>r. Ret (if truthy r then Some (new_asl config ()) else None))"

definition InMemoryLock_doUnlock :: "unit asl \<Rightarrow> (im_req, unit) prog" where
  "InMemoryLock_doUnlock l = request (ImUnlock (asl_config l)) (\<lambda>_. Ret ())"

definition InMemoryLock_doExtend :: "unit asl \<Rightarrow> LockConfiguration \<Rightarrow> (im_req, unit asl option) prog" where
  "InMemoryLock_doExtend l newConfig =
     request (ImExtend (asl_config l) newConfig)
       (\<lambda>r. Ret (if truthy r then Some (new_asl newConfig ()) else None))"

section \<open>The provider keeps the contract\<close>

definition finite_config :: "LockConfiguration \<Rightarrow> bool" where
  "finite_config c \<longleftrightarrow> js_isFinite (createdAt c) \<and> js_isFinite (lockAtMostFor c) \<and> js_isFinite (lockAtLeastFor c)"

lemma finite_configE:
  assumes "finite_config c"
  obtains u v where "lockAtMostUntil c = Fin u" "lockAtLeastUntil c = Fin v"
  using assms unfolding finite_config_def lockAtMostUntil_def lockAtLeastUntil_def
  by (auto dest!: js_isFiniteE)

definition im_deadline :: "im_locks \<Rightarrow> deadlines" where
  "im_deadline s n = (case s n of Some (Fin u) \<Rightarrow> Some u | _ \<Rightarrow> None)"

definition im_inv :: "im_locks \<Rightarrow> bool" where
  "im_inv s \<longleftrightarrow> (\<forall>n x. s n = Some x \<longrightarrow> js_isFinite x)"

lemma im_deadline_upd [simp]:
  "im_deadline (s(n := Some (Fin u))) = (im_deadline s)(n := Some u)"
  "im_deadline (s(n := None)) = (im_deadline s)(n := None)"
  by (auto simp: im_deadline_def)

lemma im_inv_upd [simp]: "im_inv s \<Longrightarrow> im_inv (s(n := Some (Fin u)))" "im_inv s \<Longrightarrow> im_inv (s(n := None))"
  by (auto simp: im_inv_def)

lemma im_inv_cases:
  assumes "im_inv s"
  shows "s n = None \<and> im_deadline s n = None \<or> (\<exists>u. s n = Some (Fin u) \<and> im_deadline s n = Some u)"
proof (cases "s n")
  case (Some x)
  then have "js_isFinite x" using assms unfolding im_inv_def by blast
  then obtain u where "x = Fin u" using js_isFiniteE by blast
  with Some show ?thesis by (simp add: im_deadline_def)
qed (simp add: im_deadline_def)

lemma im_set_simps [simp]:
  "w_store (im_set n x w) = (w_store w)(n := Some x)" "ClockProvider_now (im_set n x w) = ClockProvider_now w"
  "w_store (im_delete n w) = (w_store w)(n := None)" "ClockProvider_now (im_delete n w) = ClockProvider_now w"
  by (simp_all add: im_set_def im_delete_def)

lemma im_isLocked_spec:
  assumes "im_inv (w_store w)" "ClockProvider_now w = Fin t" "InMemory_isLocked n w = (b, w')"
  shows "b \<longleftrightarrow> \<not> free (im_deadline (w_store w)) n t" "keeps t (im_deadline (w_store w)) (im_deadline (w_store w'))"
    "im_inv (w_store w')" "ClockProvider_now w' = Fin t" "b \<Longrightarrow> w' = w"
    "\<not> b \<Longrightarrow> free (im_deadline (w_store w')) n t"
  using im_inv_cases [OF assms(1), of n] assms
  by (auto simp: InMemory_isLocked_def free_def keeps_def split: if_splits)

lemma im_lock_spec:
  assumes "im_inv (w_store w)" "ClockProvider_now w = Fin t" "finite_config c"
    "InMemory_lock_body c w = (b, w')"
  shows "b \<longleftrightarrow> free (im_deadline (w_store w)) (cfg_name c) t"
    "keeps t (im_deadline (w_store w)) (im_deadline (w_store w'))"
    "im_inv (w_store w')" "ClockProvider_now w' = Fin t"
    "b \<Longrightarrow> recorded (im_deadline (w_store w')) c" "\<not> b \<Longrightarrow> w' = w"
proof -
  obtain b1 w1 where l: "InMemory_isLocked (cfg_name c) w = (b1, w1)" by fastforce
  obtain u v where u: "lockAtMostUntil c = Fin u" "lockAtLeastUntil c = Fin v" using assms(3) by (rule finite_configE)
  note s = im_isLocked_spec [OF assms(1,2) l]
  show "b \<longleftrightarrow> free (im_deadline (w_store w)) (cfg_name c) t"
    "keeps t (im_deadline (w_store w)) (im_deadline (w_store w'))"
    "im_inv (w_store w')" "ClockProvider_now w' = Fin t"
    "b \<Longrightarrow> recorded (im_deadline (w_store w')) c" "\<not> b \<Longrightarrow> w' = w"
    using s assms(4) u
    by (auto simp: InMemory_lock_body_def l recorded_Fin keeps_def free_def split: bool.splits option.splits)
qed

lemma im_unlock_spec:
  assumes "im_inv (w_store w)" "ClockProvider_now w = Fin t" "finite_config c" "lockAtMostUntil c = Fin u"
    "w' = InMemoryLock_unlock_body c w"
  shows "keeps_but (cfg_name c) u t (im_deadline (w_store w)) (im_deadline (w_store w'))"
    "im_inv (w_store w')" "ClockProvider_now w' = Fin t"
proof -
  obtain v where v: "lockAtLeastUntil c = Fin v" using assms(3) by (rule finite_configE)
  show "keeps_but (cfg_name c) u t (im_deadline (w_store w)) (im_deadline (w_store w'))"
    "im_inv (w_store w')" "ClockProvider_now w' = Fin t"
    using im_inv_cases [OF assms(1), of "cfg_name c"] assms v
    by (auto simp: InMemoryLock_unlock_body_def entry_is_def keeps_but_def)
qed

lemma im_extend_spec:
  assumes "im_inv (w_store w)" "ClockProvider_now w = Fin t" "finite_config c'" "lockAtMostUntil c = Fin u"
    "cfg_name c' = cfg_name c" "InMemoryLock_extend_body c c' w = (b, w')"
  shows "keeps_but (cfg_name c) u t (im_deadline (w_store w)) (im_deadline (w_store w'))"
    "im_inv (w_store w')" "ClockProvider_now w' = Fin t" "\<not> b \<Longrightarrow> w' = w"
    "b \<longleftrightarrow> im_deadline (w_store w) (cfg_name c) = Some u \<and> t < u"
    "b \<Longrightarrow> recorded (im_deadline (w_store w')) c'"
proof -
  obtain v where v: "lockAtMostUntil c' = Fin v" using assms(3) by (rule finite_configE)
  show "keeps_but (cfg_name c) u t (im_deadline (w_store w)) (im_deadline (w_store w'))"
    "im_inv (w_store w')" "ClockProvider_now w' = Fin t" "\<not> b \<Longrightarrow> w' = w"
    "b \<longleftrightarrow> im_deadline (w_store w) (cfg_name c) = Some u \<and> t < u"
    "b \<Longrightarrow> recorded (im_deadline (w_store w')) c'"
    using im_inv_cases [OF assms(1), of "cfg_name c"] assms v
    by (auto simp: InMemoryLock_extend_body_def entry_is_def keeps_but_def recorded_Fin Let_def split: if_splits)
qed

lemma run_InMemory_lock:
  "run im_handler (InMemoryLockProvider_lock c) w =
     (case InMemory_lock_body c w of (b, w') \<Rightarrow> (Inr (if b then Some (new_asl c ()) else None), w'))"
  by (simp add: InMemoryLockProvider_lock_def split: prod.splits)

lemma run_InMemory_unlock:
  "run im_handler (InMemoryLock_doUnlock l) w = (Inr (), InMemoryLock_unlock_body (asl_config l) w)"
  by (simp add: InMemoryLock_doUnlock_def)

lemma run_InMemory_extend:
  "run im_handler (InMemoryLock_doExtend l c) w =
     (case InMemoryLock_extend_body (asl_config l) c w of (b, w') \<Rightarrow> (Inr (if b then Some (new_asl c ()) else None), w'))"
  by (simp add: InMemoryLock_doExtend_def split: prod.splits)

interpretation im: live_provider im_handler InMemoryLockProvider_lock InMemoryLock_doUnlock InMemoryLock_doExtend
  im_deadline "\<lambda>w. im_inv (w_store w)" finite_config "\<lambda>l. finite_config (asl_config l)"
proof (unfold_locales, goal_cases)
  case (1 c)
  then show ?case by (rule finite_configE) blast
next
  case (4 c w r w' t)
  obtain b w1 where b: "InMemory_lock_body c w = (b, w1)" by fastforce
  show ?case
    using im_lock_spec [OF 4(3,4,2) b] 4(1,2) by (auto simp: run_InMemory_lock b split: if_splits)
next
  case (5 l w r' w' t u)
  then show ?case using im_unlock_spec [OF 5(3,4,2,5) refl] by (simp add: run_InMemory_unlock)
next
  case (6 l c w r w' t u)
  obtain b w1 where b: "InMemoryLock_extend_body (asl_config l) c w = (b, w1)" by fastforce
  show ?case
    using im_extend_spec [OF 6(5,6,3,7,4) b] 6(1,3,4) by (auto simp: run_InMemory_extend b split: if_splits)
next
  case (7 c w t)
  obtain b w1 where b: "InMemory_lock_body c w = (b, w1)" by fastforce
  then show ?case using im_lock_spec(1) [OF 7(2,3,1) b] 7(4) by (simp add: run_InMemory_lock)
qed simp_all

section \<open>Properties\<close>

text \<open>A concrete store, for the examples.\<close>

definition im_world0 :: "im_locks world" where
  "im_world0 = \<lparr>w_date = Fin 0, w_clock = None, w_store = (\<lambda>_. None)\<rparr>"

definition im_world1 :: "im_locks world" where
  "im_world1 = im_set ''job'' (Fin 100) im_world0"

lemma im_world0_simps [simp]:
  "w_store im_world0 = (\<lambda>_. None)" "ClockProvider_now im_world0 = Fin 0" "im_inv (\<lambda>_. None)"
  by (simp_all add: im_world0_def ClockProvider_now_def im_inv_def)

lemma im_world1_simps [simp]:
  "w_store im_world1 = [''job'' \<mapsto> Fin 100]" "ClockProvider_now im_world1 = Fin 0" "im_inv [''job'' \<mapsto> Fin 100]"
  by (simp_all add: im_world1_def im_inv_def)

lemma job_config_finite [simp]: "finite_config job_config"
  by (simp add: finite_config_def)

lemma im_lock0: "run im_handler (InMemoryLockProvider_lock job_config) im_world0 =
    (Inr (Some (new_asl job_config ())), im_world1)"
  by (simp add: run_InMemory_lock InMemory_lock_body_def InMemory_isLocked_def im_world1_def)

lemma im_reach1: "im.reach im_world0 im_world1 [0 \<mapsto> new_asl job_config ()]"
  by (rule im.reach_step [OF im.reach_init im.lock_ok [OF _ im_lock0]]) simp_all

text \<open>
  C1: Mutual exclusion of the in-memory provider: from any store of finite deadlines, after any sequence of lock, unlock
  and extend calls by any number of clients, failed and repeated calls included, with the clock
  moving forward, two lock objects for one name that are both unused and unexpired are one and the same object.
\<close>

theorem InMemory_mutual_exclusion:
  assumes "im_inv (w_store w0)" "ClockProvider_now w0 = Fin t0" "im.reach w0 w L"
    and "ClockProvider_now w = Fin t" "L i = Some l" "L j = Some m" "im.live t l" "im.live t m"
    and "cfg_name (asl_config l) = cfg_name (asl_config m)"
  shows "i = j"
  using assms by (rule im.mutual_exclusion)

theorem InMemory_mutual_exclusion_witness:
  "im.live 0 (new_asl job_config ()) \<and> (0::nat) = 0"
proof
  show l: "im.live 0 (new_asl job_config ())" by (simp add: im.live_def)
  show "(0::nat) = 0"
    by (rule InMemory_mutual_exclusion [OF _ _ im_reach1 _ _ _ l l]) simp_all
qed

text \<open>
  C6: Availability of the in-memory provider: in every reachable state \<open>lock\<close> gives a lock object exactly when the
  name has no deadline in the future.
\<close>

theorem InMemory_lock_iff_free:
  assumes "im_inv (w_store w0)" "ClockProvider_now w0 = Fin t0" "im.reach w0 w L" "ClockProvider_now w = Fin t"
    "finite_config c"
  shows "(\<exists>l. fst (run im_handler (InMemoryLockProvider_lock c) w) = Inr (Some l)) \<longleftrightarrow>
    (\<forall>u. w_store w (cfg_name c) = Some (Fin u) \<longrightarrow> u \<le> t)"
proof -
  have "im_inv (w_store w)" by (rule im.goodD(1) [OF im.reach_good [OF assms(1-3)] assms(4)])
  from im_inv_cases [OF this, of "cfg_name c"]
  have "free (im_deadline (w_store w)) (cfg_name c) t \<longleftrightarrow>
      (\<forall>u. w_store w (cfg_name c) = Some (Fin u) \<longrightarrow> u \<le> t)"
    by (auto simp: free_def)
  then show ?thesis using im.lock_iff_free [OF assms] by simp
qed

theorem InMemory_lock_iff_free_witness:
  "\<not> (\<exists>l. fst (run im_handler (InMemoryLockProvider_lock job_config) im_world1) = Inr (Some l))"
  by (subst InMemory_lock_iff_free [OF _ _ im_reach1, where t = 0]) simp_all

text \<open>
  C5: The minimum lock time is kept: after \<open>lock\<close> and a later \<open>unlock\<close>, the name can be locked again exactly from
  \<open>lockAtLeastUntil\<close> of the first configuration on, whatever the times of the calls.
\<close>

theorem InMemory_lock_at_least:
  assumes "im_inv (w_store w)" "ClockProvider_now w = Fin t" "finite_config c"
    "run im_handler (InMemoryLockProvider_lock c) w = (Inr (Some l), w1)"
    "w_store w2 = w_store w1" "run im_handler (asl_unlock InMemoryLock_doUnlock l) w2 = (r, w3)"
    "w_store w4 = w_store w3" "ClockProvider_now w4 = Fin t4" "finite_config c'" "cfg_name c' = cfg_name c"
  shows "(\<exists>l'. fst (run im_handler (InMemoryLockProvider_lock c') w4) = Inr (Some l')) \<longleftrightarrow>
    js_le (lockAtLeastUntil c) (Fin t4)"
proof -
  obtain u v where u: "lockAtMostUntil c = Fin u" "lockAtLeastUntil c = Fin v" using assms(3) by (rule finite_configE)
  obtain b w1' where b: "InMemory_lock_body c w = (b, w1')" by fastforce
  then have l: "l = new_asl c ()" "w1' = w1" "b" using assms(4) by (auto simp: run_InMemory_lock split: if_splits)
  note s = im_lock_spec [OF assms(1-3) b]
  have d: "w_store w2 (cfg_name c) = Some (Fin u)" "im_inv (w_store w2)"
    using s(3,5) l im_inv_cases [OF s(3), of "cfg_name c"] u assms(5) by (auto simp: recorded_Fin)
  have "w3 = im_set (cfg_name c) (Fin v) w2"
    using assms(6) d(1) u l(1) by (simp add: run_asl_unlock run_InMemory_unlock InMemoryLock_unlock_body_def entry_is_def)
  then have "w_store w4 (cfg_name c') = Some (Fin v)" using assms(7,10) by simp
  then show ?thesis
    using assms(8) u by (simp add: run_InMemory_lock InMemory_lock_body_def InMemory_isLocked_def)
qed

theorem InMemory_lock_at_least_witness:
  "\<exists>w3 w4. run im_handler (asl_unlock InMemoryLock_doUnlock (new_asl job_config ())) im_world1 =
      (Inr (new_asl job_config () \<lparr>asl_valid := False\<rparr>), w3) \<and> ClockProvider_now w4 = Fin 10 \<and>
    w_store w4 = w_store w3 \<and>
    (\<exists>l'. fst (run im_handler (InMemoryLockProvider_lock job_config) w4) = Inr (Some l'))"
proof -
  let ?w3 = "im_set ''job'' (Fin 10) im_world1"
  let ?w4 = "?w3\<lparr>w_date := Fin 10\<rparr>"
  have u: "run im_handler (asl_unlock InMemoryLock_doUnlock (new_asl job_config ())) im_world1 =
      (Inr (new_asl job_config () \<lparr>asl_valid := False\<rparr>), ?w3)"
    by (simp add: run_asl_unlock run_InMemory_unlock InMemoryLock_unlock_body_def entry_is_def)
  have n: "ClockProvider_now ?w4 = Fin 10" by (simp add: im_set_def im_world1_def im_world0_def ClockProvider_now_def)
  have st: "w_store ?w4 = w_store ?w3" by simp
  have "\<exists>l'. fst (run im_handler (InMemoryLockProvider_lock job_config) ?w4) = Inr (Some l')"
    by (subst InMemory_lock_at_least [OF _ _ _ im_lock0 refl u st n]) simp_all
  with u n show ?thesis by (intro exI [of _ ?w3] exI [of _ ?w4]) simp
qed

text \<open>
  A lock whose deadline is \<open>NaN\<close> (which \<open>createLockConfig\<close> lets through) is given out on a free name, cannot
  be unlocked, and keeps the name locked for ever: no later \<open>lock\<close> at any time succeeds.
\<close>

theorem InMemory_NaN_never_expires:
  assumes "lockAtMostUntil c = NaN" "w_store w (cfg_name c) = None"
  shows "\<exists>w1. run im_handler (InMemoryLockProvider_lock c) w = (Inr (Some (new_asl c ())), w1) \<and>
    (\<forall>w2. w_store w2 = w_store w1 \<longrightarrow>
       run im_handler (InMemoryLock_doUnlock (new_asl c ())) w2 = (Inr (), w2) \<and>
       (\<forall>c'. cfg_name c' = cfg_name c \<longrightarrow> run im_handler (InMemoryLockProvider_lock c') w2 = (Inr None, w2)))"
  using assms
  by (auto simp: run_InMemory_lock InMemory_lock_body_def InMemory_isLocked_def run_InMemory_unlock
      InMemoryLock_unlock_body_def entry_is_def)

theorem InMemory_NaN_never_expires_witness:
  "\<exists>w1. run im_handler (InMemoryLockProvider_lock (job_config\<lparr>lockAtMostFor := NaN\<rparr>)) im_world0 =
      (Inr (Some (new_asl (job_config\<lparr>lockAtMostFor := NaN\<rparr>) ())), w1)"
  using InMemory_NaN_never_expires [of "job_config\<lparr>lockAtMostFor := NaN\<rparr>" im_world0]
  by (auto simp: lockAtMostUntil_def job_config_def)

end
