(* ===== verification/StorageBased.thy ===== *)
theory StorageBased
  imports Lease
begin

text \<open>
  packages/core/src/storage-based-lock-provider.ts: a provider over any \<open>StorageAccessor\<close>.

  The accessor is a record of four programs over some back end's requests; the provider's own state is the registry of
  names whose record is known to exist.  \<open>storage_accessor\<close> states what the accessor must do to
  the stored deadlines; the provider over it then is a \<open>lease_provider\<close>, and a \<open>live_provider\<close> over an accessor that does not fail.
\<close>

section \<open>Accessors, registry and provider\<close>

record 'q StorageAccessor =
  acc_insertRecord :: "LockConfiguration \<Rightarrow> ('q, bool) prog"
  acc_updateRecord :: "LockConfiguration \<Rightarrow> ('q, bool) prog"
  acc_unlock :: "LockConfiguration \<Rightarrow> ('q, unit) prog"
  acc_extend :: "LockConfiguration \<Rightarrow> jsnum option \<Rightarrow> ('q, bool) prog"

record 's storage_state =
  registry :: "string set"
  backend :: 's

datatype 'q storage_req =
    LockRecordRecentlyCreated string
  | AddRecord string
  | ClearCache string
  | Backend 'q

definition backend_world :: "'s storage_state world \<Rightarrow> 's world" where
  "backend_world w = \<lparr>w_date = w_date w, w_clock = w_clock w, w_store = backend (w_store w)\<rparr>"

definition with_backend :: "'s storage_state world \<Rightarrow> 's world \<Rightarrow> 's storage_state world" where
  "with_backend w v =
     \<lparr>w_date = w_date v, w_clock = w_clock v, w_store = (w_store w)\<lparr>backend := w_store v\<rparr>\<rparr>"

text \<open>\<open>LockRecordRegistry\<close>.\<close>

definition lockRecordRecentlyCreated :: "string \<Rightarrow> 's storage_state \<Rightarrow> bool" where
  "lockRecordRecentlyCreated name s \<longleftrightarrow> name \<in> registry s"

definition addRecord :: "string \<Rightarrow> 's storage_state \<Rightarrow> 's storage_state" where
  "addRecord name s = s\<lparr>registry := insert name (registry s)\<rparr>"

definition clearCache :: "string \<Rightarrow> 's storage_state \<Rightarrow> 's storage_state" where
  "clearCache name s = s\<lparr>registry := registry s - {name}\<rparr>"

fun storage_handler :: "('q, 's) handler \<Rightarrow> ('q storage_req, 's storage_state) handler" where
  "storage_handler h (LockRecordRecentlyCreated n) w = (Inr (JBool (lockRecordRecentlyCreated n (w_store w))), w)"
| "storage_handler h (AddRecord n) w = (Inr JUndef, w\<lparr>w_store := addRecord n (w_store w)\<rparr>)"
| "storage_handler h (ClearCache n) w = (Inr JUndef, w\<lparr>w_store := clearCache n (w_store w)\<rparr>)"
| "storage_handler h (Backend q) w =
     (case h q (backend_world w) of (r, v) \<Rightarrow> (r, with_backend w v))"

definition lift :: "('q, 'a) prog \<Rightarrow> ('q storage_req, 'a) prog" where
  "lift p = map_prog Backend id p"

definition StorageLock_doUnlock :: "'q StorageAccessor \<Rightarrow> unit asl \<Rightarrow> ('q storage_req, unit) prog" where
  "StorageLock_doUnlock accessor l = await (lift (acc_unlock accessor (asl_config l))) Ret"

definition StorageLock_doExtend ::
  "'q StorageAccessor \<Rightarrow> unit asl \<Rightarrow> LockConfiguration \<Rightarrow> ('q storage_req, unit asl option) prog" where
  "StorageLock_doExtend accessor l newConfig =
     await (lift (acc_extend accessor newConfig (Some (lockAtMostUntil (asl_config l)))))
       (\<lambda>isok. Ret (if isok then Some (new_asl newConfig ()) else None))"

definition StorageBased_update :: "'q StorageAccessor \<Rightarrow> LockConfiguration \<Rightarrow> ('q storage_req, unit asl option) prog" where
  "StorageBased_update accessor config =
     pbind (lift (acc_updateRecord accessor config)) (\<lambda>r. case r of
       Inr updated \<Rightarrow> Ret (if updated then Some (new_asl config ()) else None)
     | Inl e \<Rightarrow> request (ClearCache (cfg_name config)) (\<lambda>_. Raise e))"

definition StorageBasedLockProvider_lock ::
  "'q StorageAccessor \<Rightarrow> LockConfiguration \<Rightarrow> ('q storage_req, unit asl option) prog" where
  "StorageBasedLockProvider_lock accessor config =
     request (LockRecordRecentlyCreated (cfg_name config)) (\<lambda>known.
       if \<not> truthy known
       then await (lift (acc_insertRecord accessor config)) (\<lambda>inserted.
              request (AddRecord (cfg_name config)) (\<lambda>_.
                if inserted then Ret (Some (new_asl config ()))
                else StorageBased_update accessor config))
       else StorageBased_update accessor config)"

definition StorageBasedLockProvider_clearCache :: "string \<Rightarrow> ('q storage_req, unit) prog" where
  "StorageBasedLockProvider_clearCache name = request (ClearCache name) (\<lambda>_. Ret ())"

section \<open>Running the lifted accessor\<close>

lemma backend_world_simps [simp]:
  "w_store (backend_world w) = backend (w_store w)" "ClockProvider_now (backend_world w) = ClockProvider_now w"
  by (simp_all add: backend_world_def ClockProvider_now_def split: option.split)

lemma with_backend_simps [simp]:
  "w_store (with_backend w v) = (w_store w)\<lparr>backend := w_store v\<rparr>"
  "ClockProvider_now (with_backend w v) = ClockProvider_now v"
  "backend_world (with_backend w v) = v" "with_backend (with_backend w u) v = with_backend w v"
  "with_backend w (backend_world w) = w"
  by (simp_all add: with_backend_def backend_world_def ClockProvider_now_def split: option.split)

lemma backend_world_upd [simp]:
  "backend_world (w\<lparr>w_store := s\<rparr>) = (backend_world w)\<lparr>w_store := backend s\<rparr>"
  by (simp add: backend_world_def)

lemma registry_simps [simp]:
  "registry (addRecord n s) = insert n (registry s)" "registry (clearCache n s) = registry s - {n}"
  "backend (addRecord n s) = backend s" "backend (clearCache n s) = backend s"
  by (simp_all add: addRecord_def clearCache_def)

lemma run_lift:
  "run (storage_handler h) (lift p) w =
     (case run h p (backend_world w) of (r, v) \<Rightarrow> (r, with_backend w v))"
  by (induction p arbitrary: w) (auto simp: lift_def split: prod.splits)

lemma run_StorageBased_update:
  "run (storage_handler h) (StorageBased_update accessor c) w =
     (case run h (acc_updateRecord accessor c) (backend_world w) of
        (Inr b, v) \<Rightarrow> (Inr (if b then Some (new_asl c ()) else None), with_backend w v)
      | (Inl e, v) \<Rightarrow> (Inl e, with_backend w v\<lparr>w_store := clearCache (cfg_name c) (w_store (with_backend w v))\<rparr>))"
  by (simp add: StorageBased_update_def run_pbind run_lift split: prod.splits sum.splits)

lemma run_StorageBased_lock:
  "run (storage_handler h) (StorageBasedLockProvider_lock accessor c) w =
     (if cfg_name c \<in> registry (w_store w) then run (storage_handler h) (StorageBased_update accessor c) w
      else case run h (acc_insertRecord accessor c) (backend_world w) of
        (Inl e, v) \<Rightarrow> (Inl e, with_backend w v)
      | (Inr b, v) \<Rightarrow>
          let w1 = with_backend w v\<lparr>w_store := addRecord (cfg_name c) (w_store (with_backend w v))\<rparr>
          in if b then (Inr (Some (new_asl c ())), w1)
             else run (storage_handler h) (StorageBased_update accessor c) w1)"
  by (simp add: StorageBasedLockProvider_lock_def run_await run_lift lockRecordRecentlyCreated_def Let_def
      split: prod.splits sum.splits)

lemma run_StorageLock_doUnlock:
  "run (storage_handler h) (StorageLock_doUnlock accessor l) w =
     (case run h (acc_unlock accessor (asl_config l)) (backend_world w) of (r, v) \<Rightarrow> (r, with_backend w v))"
  by (simp add: StorageLock_doUnlock_def run_lift)

lemma run_StorageLock_doExtend:
  "run (storage_handler h) (StorageLock_doExtend accessor l c) w =
     (case run h (acc_extend accessor c (Some (lockAtMostUntil (asl_config l)))) (backend_world w) of
        (Inl e, v) \<Rightarrow> (Inl e, with_backend w v)
      | (Inr b, v) \<Rightarrow> (Inr (if b then Some (new_asl c ()) else None), with_backend w v))"
  by (simp add: StorageLock_doExtend_def run_await run_lift split: prod.splits sum.splits)

section \<open>The contract of accessors\<close>

locale storage_accessor =
  fixes h :: "('q, 's) handler"
    and accessor :: "'q StorageAccessor"
    and deadline :: "'s \<Rightarrow> deadlines"
    and inv :: "'s world \<Rightarrow> bool"
    and ok :: "LockConfiguration \<Rightarrow> bool"
  assumes acc_ok: "ok c \<Longrightarrow> \<exists>u. lockAtMostUntil c = Fin u"
    and insert_law: "run h (acc_insertRecord accessor c) w = (r, w') \<Longrightarrow> ok c \<Longrightarrow> inv w \<Longrightarrow>
      ClockProvider_now w = Fin t \<Longrightarrow>
      inv w' \<and> ClockProvider_now w' = Fin t \<and> keeps t (deadline (w_store w)) (deadline (w_store w')) \<and>
      (r = Inr True \<longrightarrow> free (deadline (w_store w)) (cfg_name c) t \<and> recorded (deadline (w_store w')) c)"
    and update_law: "run h (acc_updateRecord accessor c) w = (r, w') \<Longrightarrow> ok c \<Longrightarrow> inv w \<Longrightarrow>
      ClockProvider_now w = Fin t \<Longrightarrow>
      inv w' \<and> ClockProvider_now w' = Fin t \<and> keeps t (deadline (w_store w)) (deadline (w_store w')) \<and>
      (r = Inr True \<longrightarrow> free (deadline (w_store w)) (cfg_name c) t \<and> recorded (deadline (w_store w')) c)"
    and unlock_law: "run h (acc_unlock accessor c) w = (r', w') \<Longrightarrow> ok c \<Longrightarrow> inv w \<Longrightarrow>
      ClockProvider_now w = Fin t \<Longrightarrow> lockAtMostUntil c = Fin u \<Longrightarrow>
      inv w' \<and> ClockProvider_now w' = Fin t \<and>
      keeps_but (cfg_name c) u t (deadline (w_store w)) (deadline (w_store w'))"
    and extend_law: "run h (acc_extend accessor c (Some (Fin u))) w = (r, w') \<Longrightarrow> ok c \<Longrightarrow> ok p \<Longrightarrow>
      lockAtMostUntil p = Fin u \<Longrightarrow> inv w \<Longrightarrow> ClockProvider_now w = Fin t \<Longrightarrow>
      inv w' \<and> ClockProvider_now w' = Fin t \<and>
      keeps_but (cfg_name c) u t (deadline (w_store w)) (deadline (w_store w')) \<and>
      (r = Inr False \<longrightarrow> keeps t (deadline (w_store w)) (deadline (w_store w'))) \<and>
      (r = Inr True \<longrightarrow> deadline (w_store w) (cfg_name c) = Some u \<and> t < u \<and> recorded (deadline (w_store w')) c)"
begin

lemma update_step:
  assumes "run (storage_handler h) (StorageBased_update accessor c) w = (r, w')" "ok c" "inv (backend_world w)"
    "ClockProvider_now w = Fin t"
  shows "inv (backend_world w')" "ClockProvider_now w' = Fin t"
    "keeps t (deadline (backend (w_store w))) (deadline (backend (w_store w')))"
    "r = Inr (Some l) \<Longrightarrow> l = new_asl c () \<and> free (deadline (backend (w_store w))) (cfg_name c) t \<and>
       recorded (deadline (backend (w_store w'))) c"
proof -
  obtain b v where b: "run h (acc_updateRecord accessor c) (backend_world w) = (b, v)" by fastforce
  from update_law [OF b assms(2)] assms(3,4)
  have law: "inv v \<and> ClockProvider_now v = Fin t \<and>
      keeps t (deadline (backend (w_store w))) (deadline (w_store v)) \<and>
      (b = Inr True \<longrightarrow> free (deadline (backend (w_store w))) (cfg_name c) t \<and> recorded (deadline (w_store v)) c)"
    by simp
  show "inv (backend_world w')" "ClockProvider_now w' = Fin t"
    "keeps t (deadline (backend (w_store w))) (deadline (backend (w_store w')))"
    "r = Inr (Some l) \<Longrightarrow> l = new_asl c () \<and> free (deadline (backend (w_store w))) (cfg_name c) t \<and>
       recorded (deadline (backend (w_store w'))) c"
    using law assms(1) by (auto simp: run_StorageBased_update b split: sum.splits if_splits)
qed

lemma lock_step:
  assumes "run (storage_handler h) (StorageBasedLockProvider_lock accessor c) w = (r, w')" "ok c"
    "inv (backend_world w)" "ClockProvider_now w = Fin t"
  shows "inv (backend_world w') \<and> ClockProvider_now w' = Fin t \<and>
    keeps t (deadline (backend (w_store w))) (deadline (backend (w_store w'))) \<and>
    (\<forall>l. r = Inr (Some l) \<longrightarrow> l = new_asl c () \<and> free (deadline (backend (w_store w))) (cfg_name c) t \<and>
       recorded (deadline (backend (w_store w'))) c)"
proof (cases "cfg_name c \<in> registry (w_store w)")
  case True
  then show ?thesis using update_step [of c w r w' t] assms by (simp add: run_StorageBased_lock)
next
  case False
  obtain b v where b: "run h (acc_insertRecord accessor c) (backend_world w) = (b, v)" by fastforce
  from insert_law [OF b assms(2)] assms(3,4)
  have law: "inv v" "ClockProvider_now v = Fin t"
      "keeps t (deadline (backend (w_store w))) (deadline (w_store v))"
      "b = Inr True \<Longrightarrow> free (deadline (backend (w_store w))) (cfg_name c) t \<and> recorded (deadline (w_store v)) c"
    by simp_all
  define w1 where "w1 = with_backend w v\<lparr>w_store := addRecord (cfg_name c) (w_store (with_backend w v))\<rparr>"
  have w1: "inv (backend_world w1)" "ClockProvider_now w1 = Fin t" "backend (w_store w1) = w_store v"
    using law by (simp_all add: w1_def)
  show ?thesis
  proof (cases "b = Inr False")
    case True
    then have "run (storage_handler h) (StorageBased_update accessor c) w1 = (r, w')"
      using assms(1) False by (simp add: run_StorageBased_lock b w1_def)
    from update_step [OF this assms(2) w1(1,2)] show ?thesis
      using keeps_trans [OF law(3)] free_keeps [OF law(3)] unfolding w1(3) by blast
  next
    case False
    then show ?thesis
      using assms(1) law \<open>cfg_name c \<notin> registry (w_store w)\<close>
      by (cases b) (auto simp: run_StorageBased_lock b w1_def [symmetric] w1 Let_def)
  qed
qed

end

text \<open>The provider over such an accessor keeps the contract of \<open>Lease\<close>.\<close>

sublocale storage_accessor \<subseteq> sb: lease_provider "storage_handler h" "StorageBasedLockProvider_lock accessor"
  "StorageLock_doUnlock accessor" "StorageLock_doExtend accessor" "\<lambda>s. deadline (backend s)" "\<lambda>w. inv (backend_world w)"
  ok "\<lambda>l. ok (asl_config l)"
proof (unfold_locales, goal_cases)
  case (1 c)
  then show ?case by (rule acc_ok)
next
  case (4 c w r w' t)
  note law = lock_step [OF 4]
  have "ok (asl_config l) \<and> asl_valid l \<and> asl_config l = c" if "r = Inr (Some l)" for l
    using law that 4(2) by simp
  with law show ?case by blast
next
  case (5 l w r' w' t u)
  obtain b v where b: "run h (acc_unlock accessor (asl_config l)) (backend_world w) = (b, v)" by fastforce
  show ?case
    using unlock_law [OF b 5(2), of t u] 5 by (auto simp: run_StorageLock_doUnlock b)
next
  case (6 l c w r w' t u)
  obtain b v where b: "run h (acc_extend accessor c (Some (Fin u))) (backend_world w) = (b, v)" by fastforce
  from extend_law [OF b 6(3,2,7)] 6(5,6)
  have law: "inv v" "ClockProvider_now v = Fin t"
      "keeps_but (cfg_name c) u t (deadline (backend (w_store w))) (deadline (w_store v))"
      "b = Inr False \<Longrightarrow> keeps t (deadline (backend (w_store w))) (deadline (w_store v))"
      "b = Inr True \<Longrightarrow> deadline (backend (w_store w)) (cfg_name c) = Some u \<and> t < u \<and> recorded (deadline (w_store v)) c"
    by simp_all
  show ?case
    using 6(1,3,7) law by (auto simp: run_StorageLock_doExtend b split: sum.splits if_splits)
qed simp_all

section \<open>Accessors that do not fail\<close>

text \<open>
  \<open>present\<close> says that the record of a name exists.  A name in the registry must have a record: the
  code never deletes one.
\<close>

locale live_storage_accessor = storage_accessor h accessor deadline inv ok
  for h :: "('q, 's) handler" and accessor and deadline and inv and ok +
  fixes present :: "'s \<Rightarrow> string \<Rightarrow> bool"
  assumes insert_live: "ok c \<Longrightarrow> inv w \<Longrightarrow> ClockProvider_now w = Fin t \<Longrightarrow>
      \<exists>b w'. run h (acc_insertRecord accessor c) w = (Inr b, w') \<and> (b \<longleftrightarrow> \<not> present (w_store w) (cfg_name c)) \<and>
        (\<not> b \<longrightarrow> w' = w) \<and> present (w_store w') (cfg_name c)"
    and update_live: "ok c \<Longrightarrow> inv w \<Longrightarrow> ClockProvider_now w = Fin t \<Longrightarrow>
      present (w_store w) (cfg_name c) \<Longrightarrow> free (deadline (w_store w)) (cfg_name c) t \<Longrightarrow>
      \<exists>w'. run h (acc_updateRecord accessor c) w = (Inr True, w')"
begin

text \<open>\<open>lock\<close> succeeds on a free name, whether its record exists or not, as long as the registry is right about it.\<close>

lemma storage_lock_free:
  assumes c: "ok c" "inv (backend_world w)" "ClockProvider_now w = Fin t"
    and reg: "cfg_name c \<in> registry (w_store w) \<Longrightarrow> present (backend (w_store w)) (cfg_name c)"
    and f: "free (deadline (backend (w_store w))) (cfg_name c) t"
  shows "\<exists>w'. run (storage_handler h) (StorageBasedLockProvider_lock accessor c) w = (Inr (Some (new_asl c ())), w')"
proof (cases "cfg_name c \<in> registry (w_store w)")
  case True
  then obtain v where "run h (acc_updateRecord accessor c) (backend_world w) = (Inr True, v)"
    using update_live [of c "backend_world w" t] c reg f by auto
  then show ?thesis using True by (simp add: run_StorageBased_lock run_StorageBased_update)
next
  case False
  obtain b v where b: "run h (acc_insertRecord accessor c) (backend_world w) = (Inr b, v)"
    "b \<longleftrightarrow> \<not> present (backend (w_store w)) (cfg_name c)" "\<not> b \<Longrightarrow> v = backend_world w"
    using insert_live [of c "backend_world w" t] c by auto
  show ?thesis
  proof (cases b)
    case True
    then show ?thesis using False b by (simp add: run_StorageBased_lock Let_def)
  next
    case nb: False
    then obtain v' where "run h (acc_updateRecord accessor c) (backend_world w) = (Inr True, v')"
      using update_live [of c "backend_world w" t] c f b by auto
    then show ?thesis using False nb b by (simp add: run_StorageBased_lock run_StorageBased_update Let_def)
  qed
qed

end

end
