(* ===== verification/KeepAlive.thy ===== *)
theory KeepAlive
  imports SimpleLock
begin

text \<open>
  packages/core/src: keep-alive-lock-provider.ts and scheduler.ts.

  A keep-alive lock renews the lock it wraps from a timer.  The timer does not wait for a renewal to
  finish, and \<open>unlock\<close> can come at any time, so the methods are split at their \<open>await\<close>: \<open>begin\<close> runs up
  to the call of \<open>extend\<close> on the wrapped lock, \<open>resume\<close> runs from its outcome on.  The renewals under way are
  the list \<open>ka_tasks\<close>, and \<open>ka_step\<close> lets any of them proceed in any order.  Wrapped locks are compared by
  identity only; \<open>'l\<close> is the type of their references.
\<close>

section \<open>State\<close>

definition MIN_LOCK_AT_MOST_FOR :: rat where
  "MIN_LOCK_AT_MOST_FOR = 30000"

text \<open>A renewal that awaits \<open>extended.extend(lockAtMostFor, next)\<close>, with the locals it will need.\<close>

record 'l attempt =
  at_extended :: 'l
  at_next :: jsnum
  at_now :: jsnum

text \<open>
  \<open>safeExtendForNextPeriod\<close>: the first renewal, its rejection on the way to the handler, and the second
  renewal the handler makes (with the first error).
\<close>

datatype 'l task =
    First "'l attempt"
  | Caught jsv
  | Second jsv "'l attempt"

record 'l ka =
  ka_valid :: bool
  baseConfig :: LockConfiguration
  active :: bool
  lost :: bool
  released :: bool
  remainingLockAtLeastFor :: jsnum
  currentLockAtMostUntil :: jsnum
  interval_running :: bool
  currentLock :: 'l
  ka_failures :: "jsv list"

text \<open>The constructor; the interval of the timer is \<open>ka_period\<close>.\<close>

definition new_KeepAliveLock :: "'l \<Rightarrow> LockConfiguration \<Rightarrow> 'l ka" where
  "new_KeepAliveLock initialLock config =
     \<lparr>ka_valid = True, baseConfig = config, active = True, lost = False, released = False,
      remainingLockAtLeastFor = lockAtLeastFor config, currentLockAtMostUntil = lockAtMostUntil config,
      interval_running = True, currentLock = initialLock, ka_failures = []\<rparr>"

definition ka_period :: "LockConfiguration \<Rightarrow> jsnum" where
  "ka_period config = js_floor (js_scale (1 / 2) (lockAtMostFor config))"

definition deactivate :: "'l ka \<Rightarrow> 'l ka" where
  "deactivate k = k\<lparr>active := False, interval_running := False\<rparr>"

definition lost_error :: jsv where
  "lost_error = LockException ''Keep-alive lock was lost''"

text \<open>\<open>this.onKeepAliveFailure?.(baseConfig, e)\<close>: \<open>cb\<close> says what the callback throws, if anything.\<close>

definition report :: "(jsv \<Rightarrow> jsv option) \<Rightarrow> jsv \<Rightarrow> 'l ka \<Rightarrow> 'l ka \<times> jsv option" where
  "report cb e k = (k\<lparr>ka_failures := ka_failures k @ [e]\<rparr>, cb e)"

section \<open>Renewal\<close>

datatype 'l outcome = Done | Threw jsv | Awaiting "'l attempt"

definition outcome_of :: "jsv option \<Rightarrow> 'l outcome" where
  "outcome_of r = (case r of None \<Rightarrow> Done | Some e \<Rightarrow> Threw e)"

text \<open>The lock is given up: \<open>lost\<close>, timer stopped, failure reported.\<close>

definition give_up :: "(jsv \<Rightarrow> jsv option) \<Rightarrow> 'l ka \<Rightarrow> 'l ka \<times> 'l outcome" where
  "give_up cb k = (case report cb lost_error (deactivate (k\<lparr>lost := True\<rparr>)) of (k', r) \<Rightarrow> (k', outcome_of r))"

text \<open>\<open>now1\<close> and \<open>now2\<close> are its two readings of the clock.\<close>

definition extendForNextPeriod_begin ::
  "(jsv \<Rightarrow> jsv option) \<Rightarrow> jsnum \<Rightarrow> jsnum \<Rightarrow> 'l ka \<Rightarrow> 'l ka \<times> 'l outcome" where
  "extendForNextPeriod_begin cb now1 now2 k =
     (if \<not> active k then (k, Done)
      else if js_lt (currentLockAtMostUntil k) now1 then give_up cb k
      else (k, Awaiting \<lparr>at_extended = currentLock k,
                         at_next = js_max (Fin 0) (remainingLockAtLeastFor k), at_now = now2\<rparr>))"

definition extendForNextPeriod_resume ::
  "(jsv \<Rightarrow> jsv option) \<Rightarrow> 'l attempt \<Rightarrow> jsv + 'l option \<Rightarrow> 'l ka \<Rightarrow> 'l ka \<times> 'l outcome" where
  "extendForNextPeriod_resume cb a result k = (case result of
     Inl e \<Rightarrow> (k, Threw e)
   | Inr newLock \<Rightarrow>
       if released k then (k, Done)
       else (case newLock of
         None \<Rightarrow>
           if currentLock k \<noteq> at_extended a \<or> lost k then (k, Done)
           else give_up cb k
       | Some l \<Rightarrow>
           (k\<lparr>lost := False, currentLock := l,
              currentLockAtMostUntil := js_add (at_now a) (lockAtMostFor (baseConfig k)),
              remainingLockAtLeastFor :=
                js_max (Fin 0) (js_sub (at_next a) (js_scale (1 / 2) (lockAtMostFor (baseConfig k))))\<rparr>,
            Done)))"

text \<open>The rejection handlers of \<open>safeExtendForNextPeriod\<close>.\<close>

definition after_first :: "'l outcome \<Rightarrow> 'l task list" where
  "after_first out = (case out of Done \<Rightarrow> [] | Threw e \<Rightarrow> [Caught e] | Awaiting a \<Rightarrow> [First a])"

definition after_second :: "(jsv \<Rightarrow> jsv option) \<Rightarrow> jsv \<Rightarrow> 'l ka \<times> 'l outcome \<Rightarrow> 'l ka \<times> 'l task list" where
  "after_second cb firstError p = (case p of (k, out) \<Rightarrow> (case out of
     Done \<Rightarrow> (k, [])
   | Awaiting a \<Rightarrow> (k, [Second firstError a])
   | Threw _ \<Rightarrow> (fst (report cb firstError (deactivate k)), [])))"

text \<open>What one event of the renewal machinery does: the timer fires, or a task of the list proceeds.\<close>

definition on_timer :: "(jsv \<Rightarrow> jsv option) \<Rightarrow> jsnum \<Rightarrow> jsnum \<Rightarrow> 'l ka \<Rightarrow> 'l ka \<times> 'l task list" where
  "on_timer cb now1 now2 k = (case extendForNextPeriod_begin cb now1 now2 k of (k', out) \<Rightarrow> (k', after_first out))"

fun on_task ::
  "(jsv \<Rightarrow> jsv option) \<Rightarrow> jsnum \<Rightarrow> jsnum \<Rightarrow> jsv + 'l option \<Rightarrow> 'l task \<Rightarrow> 'l ka \<Rightarrow> 'l ka \<times> 'l task list" where
  "on_task cb now1 now2 result (First a) k =
     (case extendForNextPeriod_resume cb a result k of (k', out) \<Rightarrow> (k', after_first out))"
| "on_task cb now1 now2 result (Caught e) k = after_second cb e (extendForNextPeriod_begin cb now1 now2 k)"
| "on_task cb now1 now2 result (Second e a) k = after_second cb e (extendForNextPeriod_resume cb a result k)"

section \<open>unlock and extend\<close>

text \<open>
  \<open>AbstractSimpleLock.unlock\<close> with this class's \<open>doUnlock\<close>: the wrapped lock to unlock and wait for, if any.
\<close>

definition unlock_begin :: "'l ka \<Rightarrow> jsv + ('l ka \<times> 'l option)" where
  "unlock_begin k =
     (if \<not> ka_valid k then Inl (LockException ''Lock has already been released or extended'')
      else (let k1 = deactivate (k\<lparr>released := True\<rparr>)
            in if lost k1 then Inr (k1\<lparr>ka_valid := False\<rparr>, None) else Inr (k1, Some (currentLock k1))))"

definition unlock_resume :: "jsv + unit \<Rightarrow> 'l ka \<Rightarrow> jsv + 'l ka" where
  "unlock_resume result k = (case result of Inl e \<Rightarrow> Inl e | Inr _ \<Rightarrow> Inr (k\<lparr>ka_valid := False\<rparr>))"

definition ka_doExtend :: "'l ka \<Rightarrow> jsv + 'l option" where
  "ka_doExtend k = Inl (LockException ''KeepAliveLock does not support manual extension'')"

section \<open>The provider\<close>

definition new_KeepAliveLockProvider :: "bool \<Rightarrow> jsv + unit" where
  "new_KeepAliveLockProvider extensible =
     (if \<not> extensible then Inl (LockException ''KeepAliveLockProvider requires an ExtensibleLockProvider'') else Inr ())"

definition KeepAliveLockProvider_lock ::
  "(LockConfiguration \<Rightarrow> ('q, 'l option) prog) \<Rightarrow> LockConfiguration \<Rightarrow> ('q, 'l ka option) prog" where
  "KeepAliveLockProvider_lock provider_lock config =
     (if js_lt (lockAtMostFor config) (Fin MIN_LOCK_AT_MOST_FOR)
      then Raise (LockException (''lockAtMostFor must be at least '' @ js_show (Fin MIN_LOCK_AT_MOST_FOR) @
                                 ''ms when using KeepAliveLockProvider''))
      else await (provider_lock config) (\<lambda>lock. Ret (map_option (\<lambda>l. new_KeepAliveLock l config) lock)))"

section \<open>All interleavings\<close>

text \<open>
  The timer fires only while it runs; a task may proceed at any moment, with any answer of the
  wrapped lock; \<open>unlock\<close> may be called at any time.
\<close>

inductive ka_step :: "(jsv \<Rightarrow> jsv option) \<Rightarrow> 'l ka \<times> 'l task list \<Rightarrow> 'l ka \<times> 'l task list \<Rightarrow> bool"
  for cb :: "jsv \<Rightarrow> jsv option" where
  timer: "interval_running k \<Longrightarrow> on_timer cb now1 now2 k = (k', ts') \<Longrightarrow> ka_step cb (k, ts) (k', ts @ ts')"
| task: "on_task cb now1 now2 result t k = (k', ts') \<Longrightarrow> ka_step cb (k, ts1 @ t # ts2) (k', ts1 @ ts' @ ts2)"
| unlock: "unlock_begin k = Inr (k', u) \<Longrightarrow> ka_step cb (k, ts) (k', ts)"
| unlocked: "released k \<Longrightarrow> unlock_resume (Inr ()) k = Inr k' \<Longrightarrow> ka_step cb (k, ts) (k', ts)"

definition ka_reach :: "(jsv \<Rightarrow> jsv option) \<Rightarrow> 'l \<Rightarrow> LockConfiguration \<Rightarrow> 'l ka \<times> 'l task list \<Rightarrow> bool" where
  "ka_reach cb l c s \<longleftrightarrow> (ka_step cb)\<^sup>*\<^sup>* (new_KeepAliveLock l c, []) s"

section \<open>Invariant\<close>

definition ka_ok :: "LockConfiguration \<Rightarrow> 'l ka \<Rightarrow> bool" where
  "ka_ok c k \<longleftrightarrow> (active k \<longleftrightarrow> interval_running k) \<and> (released k \<longrightarrow> \<not> active k) \<and> (lost k \<longrightarrow> \<not> active k) \<and>
     (\<not> ka_valid k \<longrightarrow> released k) \<and> baseConfig k = c"

lemma begin_cases:
  assumes "extendForNextPeriod_begin cb now1 now2 k = (k', out)"
  obtains (idle) "\<not> active k" "k' = k" "out = Done"
  | (late) "active k" "js_lt (currentLockAtMostUntil k) now1" "give_up cb k = (k', out)"
  | (wait) "active k" "\<not> js_lt (currentLockAtMostUntil k) now1" "k' = k"
      "out = Awaiting \<lparr>at_extended = currentLock k, at_next = js_max (Fin 0) (remainingLockAtLeastFor k), at_now = now2\<rparr>"
  using assms by (auto simp: extendForNextPeriod_begin_def split: if_splits)

lemma give_up_simps:
  assumes "give_up cb k = (k', out)"
  shows "active k' = False" "interval_running k' = False" "lost k'" "released k' = released k"
    "ka_valid k' = ka_valid k" "baseConfig k' = baseConfig k" "currentLock k' = currentLock k"
    "out = outcome_of (cb lost_error)"
  using assms by (auto simp: give_up_def report_def deactivate_def)

lemma give_up_ok: "give_up cb k = (k', out) \<Longrightarrow> ka_ok c k \<Longrightarrow> ka_ok c k'"
  using give_up_simps [of cb k k' out] by (auto simp: ka_ok_def)

lemma begin_ok: "extendForNextPeriod_begin cb now1 now2 k = (k', out) \<Longrightarrow> ka_ok c k \<Longrightarrow> ka_ok c k'"
  by (erule begin_cases) (auto intro: give_up_ok)

lemma resume_cases:
  assumes "extendForNextPeriod_resume cb a r k = (k', out)"
  obtains (same) "k' = k"
  | (gone) "\<not> released k" "\<not> lost k" "give_up cb k = (k', out)"
  | (renewed) l where "r = Inr (Some l)" "\<not> released k" "out = Done"
      "k' = k\<lparr>lost := False, currentLock := l,
         currentLockAtMostUntil := js_add (at_now a) (lockAtMostFor (baseConfig k)),
         remainingLockAtLeastFor :=
           js_max (Fin 0) (js_sub (at_next a) (js_scale (1 / 2) (lockAtMostFor (baseConfig k))))\<rparr>"
  using assms by (auto simp: extendForNextPeriod_resume_def split: sum.splits option.splits if_splits)

lemma resume_ok: "extendForNextPeriod_resume cb a r k = (k', out) \<Longrightarrow> ka_ok c k \<Longrightarrow> ka_ok c k'"
proof (erule resume_cases)
  show "give_up cb k = (k', out) \<Longrightarrow> ka_ok c k \<Longrightarrow> ka_ok c k'" by (rule give_up_ok)
qed (auto simp: ka_ok_def)

lemma after_second_ok:
  "after_second cb e (k, out) = (k', ts) \<Longrightarrow> ka_ok c k \<Longrightarrow> ka_ok c k'"
  by (auto simp: after_second_def report_def deactivate_def ka_ok_def split: outcome.splits)

lemma on_task_ok:
  assumes "on_task cb now1 now2 r t k = (k', ts)" "ka_ok c k"
  shows "ka_ok c k'"
proof (cases t)
  case (First a)
  obtain k1 out where e: "extendForNextPeriod_resume cb a r k = (k1, out)" by fastforce
  then show ?thesis using assms First resume_ok [OF e] by simp
next
  case (Caught e)
  obtain k1 out where b: "extendForNextPeriod_begin cb now1 now2 k = (k1, out)" by fastforce
  then show ?thesis using assms Caught begin_ok [OF b] after_second_ok [of cb e k1 out k' ts c] by simp
next
  case (Second e a)
  obtain k1 out where b: "extendForNextPeriod_resume cb a r k = (k1, out)" by fastforce
  then show ?thesis using assms Second resume_ok [OF b] after_second_ok [of cb e k1 out k' ts c] by simp
qed

lemma unlock_ok: "unlock_begin k = Inr (k', u) \<Longrightarrow> ka_ok c k \<Longrightarrow> ka_ok c k'"
  by (auto simp: unlock_begin_def deactivate_def ka_ok_def Let_def split: if_splits)

lemma step_ok: "ka_step cb s s' \<Longrightarrow> ka_ok c (fst s) \<Longrightarrow> ka_ok c (fst s')"
proof (induction rule: ka_step.induct)
  case (timer k now1 now2 k' ts' ts)
  then show ?case by (auto simp: on_timer_def split: prod.splits intro: begin_ok)
next
  case (task now1 now2 r t k k' ts' ts1 ts2)
  then show ?case using on_task_ok by fastforce
next
  case (unlock k k' u ts)
  then show ?case using unlock_ok by fastforce
next
  case (unlocked k k' ts)
  then show ?case by (auto simp: unlock_resume_def ka_ok_def)
qed

text \<open>
  C4: In every reachable state of a keep-alive lock, with renewals overlapping in any way, any
  answers of the wrapped lock and \<open>unlock\<close> at any time: the timer runs exactly while the lock
  is active, and a released or lost lock is not active, so its timer is stopped.
\<close>

theorem KeepAlive_invariant:
  assumes "ka_reach cb l c (k, ts)"
  shows "(interval_running k \<longleftrightarrow> active k) \<and> (released k \<or> lost k \<longrightarrow> \<not> interval_running k) \<and>
    (\<not> ka_valid k \<longrightarrow> released k)"
proof -
  have "ka_ok c (fst (k, ts))"
    using assms unfolding ka_reach_def
    by (induction rule: rtranclp_induct) (auto simp: ka_ok_def new_KeepAliveLock_def dest: step_ok [of _ _ _ c])
  then show ?thesis by (auto simp: ka_ok_def)
qed

theorem KeepAlive_invariant_witness:
  "interval_running (new_KeepAliveLock (0::nat) \<lparr>cfg_name = ''job'', lockAtMostFor = Fin 60000,
     lockAtLeastFor = Fin 0, createdAt = Fin 0\<rparr>)"
  using KeepAlive_invariant [of "\<lambda>_. None" "0::nat" _ "new_KeepAliveLock (0::nat) \<lparr>cfg_name = ''job'',
     lockAtMostFor = Fin 60000, lockAtLeastFor = Fin 0, createdAt = Fin 0\<rparr>" "[]"]
  by (simp add: ka_reach_def new_KeepAliveLock_def)


text \<open>The example lock: 60 s, renewed every 30 s.\<close>

definition ka_config :: LockConfiguration where
  "ka_config = \<lparr>cfg_name = ''job'', lockAtMostFor = Fin 60000, lockAtLeastFor = Fin 50000, createdAt = Fin 0\<rparr>"

definition ka_lock :: "nat ka" where
  "ka_lock = new_KeepAliveLock 0 ka_config"

lemma ka_lock_simps [simp]:
  "active ka_lock" "interval_running ka_lock" "\<not> released ka_lock" "\<not> lost ka_lock" "ka_valid ka_lock"
  "currentLock ka_lock = 0" "currentLockAtMostUntil ka_lock = Fin 60000"
  "remainingLockAtLeastFor ka_lock = Fin 50000" "ka_failures ka_lock = []" "baseConfig ka_lock = ka_config"
  "lockAtMostFor ka_config = Fin 60000"
  by (simp_all add: ka_lock_def new_KeepAliveLock_def ka_config_def lockAtMostUntil_def)

definition ka_attempt :: "nat attempt" where
  "ka_attempt = \<lparr>at_extended = 0, at_next = Fin 50000, at_now = Fin 30000\<rparr>"

lemma ka_timer: "on_timer cb (Fin 30000) (Fin 30000) ka_lock = (ka_lock, [First ka_attempt])"
  by (simp add: on_timer_def extendForNextPeriod_begin_def after_first_def ka_attempt_def)

definition ka_unlocking :: "nat ka" where
  "ka_unlocking = deactivate (ka_lock\<lparr>released := True\<rparr>)"

lemma ka_unlock: "unlock_begin ka_lock = Inr (ka_unlocking, Some 0)"
  by (simp add: unlock_begin_def ka_unlocking_def deactivate_def Let_def)

lemma ka_unlocking_simps [simp]:
  "\<not> active ka_unlocking" "released ka_unlocking" "\<not> lost ka_unlocking" "currentLock ka_unlocking = 0"
  "ka_failures ka_unlocking = []"
  by (simp_all add: ka_unlocking_def deactivate_def)


text \<open>
  A failure can be reported after a clean release: a renewal is rejected, its
  second attempt is under way when \<open>unlock\<close> completes, and the rejection of that attempt is then
  reported to \<open>onKeepAliveFailure\<close> although the lock was released and not lost.
\<close>

theorem KeepAlive_reports_after_release:
  "\<exists>k. ka_reach (\<lambda>_. None) (0::nat) ka_config (k, []) \<and> released k \<and> \<not> lost k \<and> \<not> ka_valid k \<and>
     ka_failures k = [JStr ''network'']"
proof -
  let ?cb = "\<lambda>_. None :: jsv option"
  let ?k = "ka_unlocking\<lparr>ka_valid := False\<rparr>"
  have 1: "ka_step ?cb (ka_lock, []) (ka_lock, [First ka_attempt])"
    using ka_step.timer [OF _ ka_timer [of ?cb], of "[]"] by simp
  have "on_task ?cb NaN NaN (Inl (JStr ''network'')) (First ka_attempt) ka_lock = (ka_lock, [Caught (JStr ''network'')])"
    by (simp add: extendForNextPeriod_resume_def after_first_def)
  from ka_step.task [OF this, of "[]" "[]"]
  have 2: "ka_step ?cb (ka_lock, [First ka_attempt]) (ka_lock, [Caught (JStr ''network'')])" by simp
  have "on_task ?cb (Fin 30000) (Fin 30000) (Inl (JStr ''network'')) (Caught (JStr ''network'')) ka_lock =
      (ka_lock, [Second (JStr ''network'') ka_attempt])"
    by (simp add: extendForNextPeriod_begin_def after_second_def ka_attempt_def)
  from ka_step.task [OF this, of "[]" "[]"]
  have 3: "ka_step ?cb (ka_lock, [Caught (JStr ''network'')]) (ka_lock, [Second (JStr ''network'') ka_attempt])" by simp
  have 4: "ka_step ?cb (ka_lock, ts) (ka_unlocking, ts)" for ts by (rule ka_step.unlock [OF ka_unlock])
  have 5: "ka_step ?cb (ka_unlocking, ts) (?k, ts)" for ts
    by (rule ka_step.unlocked) (simp_all add: unlock_resume_def)
  have "on_task ?cb NaN NaN (Inl (JStr ''again'')) (Second (JStr ''network'') ka_attempt) ?k =
      (deactivate ?k\<lparr>ka_failures := [JStr ''network'']\<rparr>, [])"
    by (simp add: extendForNextPeriod_resume_def after_second_def report_def deactivate_def)
  from ka_step.task [OF this, of "[]" "[]"]
  have 6: "ka_step ?cb (?k, [Second (JStr ''network'') ka_attempt]) (deactivate ?k\<lparr>ka_failures := [JStr ''network'']\<rparr>, [])"
    by simp
  have "ka_reach ?cb 0 ka_config (deactivate ?k\<lparr>ka_failures := [JStr ''network'']\<rparr>, [])"
    unfolding ka_reach_def ka_lock_def [symmetric]
    using 1 2 3 4 [of "[Second (JStr ''network'') ka_attempt]"] 5 [of "[Second (JStr ''network'') ka_attempt]"] 6
    by (meson converse_rtranclp_into_rtranclp rtranclp.rtrancl_refl)
  then show ?thesis by (intro exI conjI) (assumption | simp add: deactivate_def)+
qed

section \<open>Prompt renewals never lose the lock\<close>

text \<open>Renewals at the given times, each granted (with a new wrapped lock) before the next.\<close>

fun prompt :: "(jsv \<Rightarrow> jsv option) \<Rightarrow> (rat \<times> 'l) list \<Rightarrow> 'l ka \<Rightarrow> 'l ka" where
  "prompt cb [] k = k"
| "prompt cb ((t, l) # xs) k = (case on_timer cb (Fin t) (Fin t) k of
     (k1, [First a]) \<Rightarrow> prompt cb xs (fst (on_task cb (Fin t) (Fin t) (Inr (Some l)) (First a) k1))
   | (k1, _) \<Rightarrow> k1)"

text \<open>Each time is at most the deadline the renewal before left.\<close>

fun in_time :: "rat \<Rightarrow> rat \<Rightarrow> (rat \<times> 'l) list \<Rightarrow> bool" where
  "in_time u most [] \<longleftrightarrow> True"
| "in_time u most ((t, l) # xs) \<longleftrightarrow> t \<le> u \<and> in_time (t + most) most xs"

definition running :: "LockConfiguration \<Rightarrow> 'l ka \<Rightarrow> bool" where
  "running c k \<longleftrightarrow> active k \<and> \<not> lost k \<and> \<not> released k \<and> interval_running k \<and> ka_failures k = [] \<and> baseConfig k = c"

lemma prompt_running:
  assumes "running c k" "lockAtMostFor c = Fin m" "currentLockAtMostUntil k = Fin u"
    "remainingLockAtLeastFor k = Fin r" "0 \<le> r" "0 \<le> m" "in_time u m xs"
  shows "running c (prompt cb xs k) \<and>
    remainingLockAtLeastFor (prompt cb xs k) = Fin (max 0 (r - of_nat (length xs) * (m / 2))) \<and>
    (xs \<noteq> [] \<longrightarrow> currentLock (prompt cb xs k) = snd (last xs) \<and>
       currentLockAtMostUntil (prompt cb xs k) = Fin (fst (last xs) + m))"
  using assms
proof (induction xs arbitrary: k u r)
  case Nil
  then show ?case by simp
next
  case (Cons x xs)
  obtain t l where x: "x = (t, l)" by (cases x)
  let ?a = "\<lparr>at_extended = currentLock k, at_next = Fin r, at_now = Fin t\<rparr>"
  let ?k = "k\<lparr>lost := False, currentLock := l, currentLockAtMostUntil := Fin (t + m),
      remainingLockAtLeastFor := Fin (max 0 (r - m / 2))\<rparr>"
  have t: "on_timer cb (Fin t) (Fin t) k = (k, [First ?a])"
    using Cons.prems x by (simp add: on_timer_def extendForNextPeriod_begin_def after_first_def running_def max_def)
  have s: "on_task cb (Fin t) (Fin t) (Inr (Some l)) (First ?a) k = (?k, [])"
    using Cons.prems by (simp add: extendForNextPeriod_resume_def after_first_def running_def)
  have p: "prompt cb (x # xs) k = prompt cb xs ?k" unfolding x by (simp add: t s del: on_task.simps)
  have r: "running c ?k" using Cons.prems(1) by (simp add: running_def)
  have "in_time (t + m) m xs" using Cons.prems(7) x by simp
  from Cons.IH [of ?k "t + m" "max 0 (r - m / 2)", OF r Cons.prems(2)] this Cons.prems(6)
  have "running c (prompt cb xs ?k) \<and>
    remainingLockAtLeastFor (prompt cb xs ?k) = Fin (max 0 (max 0 (r - m / 2) - of_nat (length xs) * (m / 2))) \<and>
    (xs \<noteq> [] \<longrightarrow> currentLock (prompt cb xs ?k) = snd (last xs) \<and>
       currentLockAtMostUntil (prompt cb xs ?k) = Fin (fst (last xs) + m))" by simp
  moreover have "max 0 (max 0 (r - m / 2) - of_nat (length xs) * (m / 2)) =
      max 0 (r - of_nat (length (x # xs)) * (m / 2))"
  proof (cases "r - m / 2 \<le> 0")
    case True
    moreover have "0 \<le> of_nat (length xs) * (m / 2)" using Cons.prems(6) by simp
    ultimately show ?thesis by (simp add: max_def algebra_simps)
  next
    case False
    then show ?thesis by (simp add: max_def algebra_simps)
  qed
  ultimately show ?case unfolding p by (cases xs) (auto simp: x)
qed

text \<open>
  C11: A keep-alive lock of \<open>m\<close> milliseconds whose renewals each come no later than \<open>m\<close> after the one before (the
  timer period is half of that) and are granted is never lost and reports no failure; after \<open>n\<close> renewals it holds the
  wrapped lock of the last one until that renewal's time plus \<open>m\<close>, and the minimum
  lock time left is \<open>max(0, lockAtLeastFor - n * m / 2)\<close>.
\<close>

theorem KeepAlive_prompt_renewals:
  assumes "lockAtMostFor c = Fin m" "lockAtLeastFor c = Fin r" "createdAt c = Fin t0" "0 \<le> m" "0 \<le> r"
    "in_time (t0 + m) m xs" "k = prompt cb xs (new_KeepAliveLock l c)"
  shows "active k \<and> \<not> lost k \<and> interval_running k \<and> ka_failures k = [] \<and>
    remainingLockAtLeastFor k = Fin (max 0 (r - of_nat (length xs) * (m / 2))) \<and>
    (xs \<noteq> [] \<longrightarrow> currentLock k = snd (last xs) \<and> currentLockAtMostUntil k = Fin (fst (last xs) + m))"
proof -
  have "running c (new_KeepAliveLock l c)" by (simp add: running_def new_KeepAliveLock_def)
  from prompt_running [OF this assms(1), of "t0 + m" r xs cb] assms
  show ?thesis by (simp add: running_def new_KeepAliveLock_def lockAtMostUntil_def)
qed

theorem KeepAlive_prompt_renewals_witness:
  "\<not> lost (prompt (\<lambda>_. None) [(30000, 1), (60000, 2)] (new_KeepAliveLock (0::nat) ka_config)) \<and>
   currentLock (prompt (\<lambda>_. None) [(30000, 1), (60000, 2)] (new_KeepAliveLock (0::nat) ka_config)) = 2"
  using KeepAlive_prompt_renewals [of ka_config 60000 50000 0 "[(30000, 1), (60000, 2)]" _ "\<lambda>_. None" "0::nat"]
  by (simp add: ka_config_def)

end
