(* ===== verification/Executor.thy ===== *)
theory Executor
  imports InMemory
begin

text \<open>
  packages/core/src: lock-assert.ts, lock-extender.ts, locking-task-executor.ts and
  locking-task-executor-listener.ts.

  The two \<open>AsyncLocalStorage\<close> stores are a context \<open>ctx\<close> that a task is given and hands back: the names
  locked around it and the stack of lock objects, whose head \<open>extendActiveLock\<close> replaces in place.  A task
  yields its outcome, a thrown value included, together with its context, because the mutation of the store
  survives a throw.  Tasks that fork and share one store between concurrent branches are not modelled.
  The provider, its locks, the listener and \<open>performance.now\<close> are arguments.
\<close>

section \<open>LockAssert and LockExtender\<close>

record 'l ctx =
  assert_stack :: "string list"
  extender_stack :: "'l list"

definition LockAssert_assertLocked :: "'l ctx \<Rightarrow> jsv + unit" where
  "LockAssert_assertLocked ctx =
     (if assert_stack ctx = [] then Inl (LockException ''Expected code to be running under a lock but it was not'')
      else Inr ())"

definition LockAssert_alreadyLockedBy :: "'l ctx \<Rightarrow> string \<Rightarrow> bool" where
  "LockAssert_alreadyLockedBy ctx name \<longleftrightarrow> name \<in> set (assert_stack ctx)"

definition LockAssert_runWithLock :: "string \<Rightarrow> 'l ctx \<Rightarrow> 'l ctx" where
  "LockAssert_runWithLock name ctx = ctx\<lparr>assert_stack := name # assert_stack ctx\<rparr>"

definition LockExtender_activeLock :: "'l ctx \<Rightarrow> 'l option" where
  "LockExtender_activeLock ctx = (case extender_stack ctx of [] \<Rightarrow> None | l # _ \<Rightarrow> Some l)"

definition LockExtender_runWithLock :: "'l \<Rightarrow> 'l ctx \<Rightarrow> 'l ctx" where
  "LockExtender_runWithLock lock ctx = ctx\<lparr>extender_stack := lock # extender_stack ctx\<rparr>"

text \<open>A lock object: its two methods as programs.\<close>

record ('q, 'l) lock_ops =
  op_unlock :: "'l \<Rightarrow> ('q, unit) prog"
  op_extend :: "'l \<Rightarrow> jsnum \<Rightarrow> jsnum \<Rightarrow> ('q, 'l option) prog"

definition LockExtender_extendActiveLock ::
  "('q, 'l) lock_ops \<Rightarrow> DurationInput \<Rightarrow> DurationInput \<Rightarrow> 'l ctx \<Rightarrow> ('q, 'l ctx) prog" where
  "LockExtender_extendActiveLock ops lockAtMost lockAtLeast ctx = (case extender_stack ctx of
     [] \<Rightarrow> Raise NoActiveLockException
   | current # rest \<Rightarrow>
       sync (parseDuration lockAtMost) (\<lambda>most.
       sync (parseDuration lockAtLeast) (\<lambda>least.
       await (op_extend ops current most least) (\<lambda>newLock. case newLock of
         None \<Rightarrow> Raise LockCanNotBeExtendedException
       | Some l \<Rightarrow> Ret (ctx\<lparr>extender_stack := l # rest\<rparr>)))))"

section \<open>Listeners and results\<close>

record 'q LockingTaskExecutorListener =
  onLockAttempt :: "LockConfiguration \<Rightarrow> ('q, unit) prog"
  onLockAcquired :: "LockConfiguration \<Rightarrow> ('q, unit) prog"
  onLockNotAcquired :: "LockConfiguration \<Rightarrow> ('q, unit) prog"
  onTaskStarted :: "LockConfiguration \<Rightarrow> ('q, unit) prog"
  onTaskFinished :: "LockConfiguration \<Rightarrow> jsnum \<Rightarrow> ('q, unit) prog"
  onUnlockError :: "(LockConfiguration \<Rightarrow> jsv \<Rightarrow> ('q, unit) prog) option"

definition NO_OP_LISTENER :: "'q LockingTaskExecutorListener" where
  "NO_OP_LISTENER =
     \<lparr>onLockAttempt = (\<lambda>_. Ret ()), onLockAcquired = (\<lambda>_. Ret ()), onLockNotAcquired = (\<lambda>_. Ret ()),
      onTaskStarted = (\<lambda>_. Ret ()), onTaskFinished = (\<lambda>_ _. Ret ()), onUnlockError = Some (\<lambda>_ _. Ret ())\<rparr>"

datatype 'v TaskResult = Executed 'v | NotExecuted

definition wasExecuted :: "'v TaskResult \<Rightarrow> bool" where
  "wasExecuted r = (case r of Executed _ \<Rightarrow> True | NotExecuted \<Rightarrow> False)"

definition getResult :: "'v TaskResult \<Rightarrow> 'v option" where
  "getResult r = (case r of Executed v \<Rightarrow> Some v | NotExecuted \<Rightarrow> None)"

section \<open>DefaultLockingTaskExecutor\<close>

text \<open>\<open>safeEmit(emit); k\<close>.\<close>

definition safeEmit :: "('q, unit) prog \<Rightarrow> ('q, 'a) prog \<Rightarrow> ('q, 'a) prog" where
  "safeEmit emit k = pbind emit (\<lambda>_. k)"

type_synonym ('q, 'l, 'v) task = "'l ctx \<Rightarrow> ('q, (jsv + 'v) \<times> 'l ctx) prog"

text \<open>\<open>try { await task() } finally ...\<close>: the outcome of the task as a value.\<close>

definition settle :: "('q, 'l, 'v) task \<Rightarrow> 'l ctx \<Rightarrow> ('q, (jsv + 'v) \<times> 'l ctx) prog" where
  "settle task ctx = pbind (task ctx) (\<lambda>r. case r of Inl e \<Rightarrow> Ret (Inl e, ctx) | Inr x \<Rightarrow> Ret x)"

record ('q, 'l) executor =
  lockProvider :: "LockConfiguration \<Rightarrow> ('q, 'l option) prog"
  lockOps :: "('q, 'l) lock_ops"
  listener :: "'q LockingTaskExecutorListener"
  performance_now :: "('q, jsnum) prog"

definition executeTask ::
  "('q, 'l) executor \<Rightarrow> ('q, 'l, 'v) task \<Rightarrow> LockConfiguration \<Rightarrow> ('q, 'l, 'v) task" where
  "executeTask ex task config ctx =
     safeEmit (onTaskStarted (listener ex) config)
       (await (performance_now ex) (\<lambda>start.
        await (settle task ctx) (\<lambda>result.
        safeEmit (await (performance_now ex) (\<lambda>finish. onTaskFinished (listener ex) config (js_sub finish start)))
          (Ret result))))"

definition unlock_active :: "('q, 'l) executor \<Rightarrow> LockConfiguration \<Rightarrow> 'l \<Rightarrow> 'l ctx \<Rightarrow> ('q, unit) prog" where
  "unlock_active ex config lock ctx =
     pbind (op_unlock (lockOps ex) (case LockExtender_activeLock ctx of None \<Rightarrow> lock | Some l \<Rightarrow> l))
       (\<lambda>r. case r of
          Inr _ \<Rightarrow> Ret ()
        | Inl error \<Rightarrow> (case onUnlockError (listener ex) of
            None \<Rightarrow> Ret ()
          | Some f \<Rightarrow> safeEmit (f config error) (Ret ())))"

text \<open>The stores of the inner runs end with them: the caller's context is returned unchanged.\<close>

definition runUnderLock ::
  "('q, 'l) executor \<Rightarrow> ('q, 'l, 'v) task \<Rightarrow> LockConfiguration \<Rightarrow> 'l \<Rightarrow> ('q, 'l, 'v TaskResult) task" where
  "runUnderLock ex task config lock ctx =
     (let inner = LockExtender_runWithLock lock (LockAssert_runWithLock (cfg_name config) ctx) in
      pbind (executeTask ex task config inner) (\<lambda>r.
        let (result, ctx') = (case r of Inl e \<Rightarrow> (Inl e, inner) | Inr x \<Rightarrow> x) in
        await (unlock_active ex config lock ctx') (\<lambda>_. Ret (map_sum id Executed result, ctx))))"

definition executeWithLock ::
  "('q, 'l) executor \<Rightarrow> ('q, 'l, 'v) task \<Rightarrow> LockConfiguration \<Rightarrow> ('q, 'l, 'v TaskResult) task" where
  "executeWithLock ex task config ctx =
     (if LockAssert_alreadyLockedBy ctx (cfg_name config)
      then await (executeTask ex task config ctx) (\<lambda>(result, ctx'). Ret (map_sum id Executed result, ctx'))
      else safeEmit (onLockAttempt (listener ex) config)
        (await (lockProvider ex config) (\<lambda>lock. case lock of
           None \<Rightarrow> safeEmit (onLockNotAcquired (listener ex) config) (Ret (Inr NotExecuted, ctx))
         | Some l \<Rightarrow> safeEmit (onLockAcquired (listener ex) config) (runUnderLock ex task config l ctx))))"

section \<open>Running the executor\<close>

text \<open>What is left of the world after an emitted event, whatever the listener did or threw.\<close>

definition emitted :: "('q, 's) handler \<Rightarrow> ('q, unit) prog \<Rightarrow> 's world \<Rightarrow> 's world" where
  "emitted h p w = snd (run h p w)"

lemma run_safeEmit: "run h (safeEmit p k) w = run h k (emitted h p w)"
  by (simp add: safeEmit_def run_pbind emitted_def split: prod.splits)

lemma run_settle:
  "run h (settle task ctx) w = (case run h (task ctx) w of
     (Inl e, w') \<Rightarrow> (Inr (Inl e, ctx), w') | (Inr x, w') \<Rightarrow> (Inr x, w'))"
  by (auto simp: settle_def run_pbind split: prod.splits sum.splits)

text \<open>The outcome of a task and its last context, and the world it leaves.\<close>

definition task_run ::
  "('q, 's) handler \<Rightarrow> ('q, 'l, 'v) task \<Rightarrow> 'l ctx \<Rightarrow> 's world \<Rightarrow> ((jsv + 'v) \<times> 'l ctx) \<times> 's world" where
  "task_run h task ctx w = (case run h (task ctx) w of (Inl e, w') \<Rightarrow> ((Inl e, ctx), w') | (Inr x, w') \<Rightarrow> (x, w'))"

lemma run_settle_task: "run h (settle task ctx) w = (case task_run h task ctx w of (x, w') \<Rightarrow> (Inr x, w'))"
  by (auto simp: run_settle task_run_def split: prod.splits sum.splits)

lemma run_executeTask:
  assumes "run h (performance_now ex) (emitted h (onTaskStarted (listener ex) config) w) = (Inr start, w1)"
    "task_run h task ctx w1 = (x, w2)"
  shows "run h (executeTask ex task config ctx) w =
    (Inr x, emitted h (await (performance_now ex) (\<lambda>e. onTaskFinished (listener ex) config (js_sub e start))) w2)"
  using assms by (simp add: executeTask_def run_safeEmit run_await run_settle_task)

text \<open>The world after the unlocking: the active lock is unlocked, and a failure is only reported.\<close>

definition unlocked_world ::
  "('q, 's) handler \<Rightarrow> ('q, 'l) executor \<Rightarrow> LockConfiguration \<Rightarrow> 'l \<Rightarrow> 's world \<Rightarrow> 's world" where
  "unlocked_world h ex config l w = (case run h (op_unlock (lockOps ex) l) w of
     (Inr _, w') \<Rightarrow> w'
   | (Inl e, w') \<Rightarrow> (case onUnlockError (listener ex) of None \<Rightarrow> w' | Some f \<Rightarrow> emitted h (f config e) w'))"

lemma run_unlock_active:
  "run h (unlock_active ex config lock ctx) w =
     (Inr (), unlocked_world h ex config (case LockExtender_activeLock ctx of None \<Rightarrow> lock | Some l \<Rightarrow> l) w)"
  by (auto simp: unlock_active_def run_pbind unlocked_world_def run_safeEmit split: prod.splits sum.splits option.splits)

lemma inner_ctx [simp]:
  "assert_stack (LockExtender_runWithLock l (LockAssert_runWithLock n ctx)) = n # assert_stack ctx"
  "extender_stack (LockExtender_runWithLock l (LockAssert_runWithLock n ctx)) = l # extender_stack ctx"
  by (simp_all add: LockExtender_runWithLock_def LockAssert_runWithLock_def)

lemma run_runUnderLock:
  assumes "run h (performance_now ex) (emitted h (onTaskStarted (listener ex) config) w) = (Inr start, w1)"
    "task_run h task (LockExtender_runWithLock l (LockAssert_runWithLock (cfg_name config) ctx)) w1 = ((r, ctx'), w2)"
  shows "run h (runUnderLock ex task config l ctx) w =
    (Inr (map_sum id Executed r, ctx),
     unlocked_world h ex config (case LockExtender_activeLock ctx' of None \<Rightarrow> l | Some a \<Rightarrow> a)
       (emitted h (await (performance_now ex) (\<lambda>e. onTaskFinished (listener ex) config (js_sub e start))) w2))"
  using run_executeTask [OF assms]
  by (simp add: runUnderLock_def run_pbind run_await run_unlock_active Let_def)

section \<open>Properties\<close>

text \<open>
  C3: When the lock is granted, the caller gets exactly the outcome of the task (its value, or the error it threw), and the
  lock that is active at the end of the task is unlocked once, after the task, whatever the
  task did; errors of the listener and of \<open>unlock\<close> itself change nothing but are reported to \<open>onUnlockError\<close>.
\<close>

theorem executeWithLock_granted:
  assumes "\<not> LockAssert_alreadyLockedBy ctx (cfg_name config)"
    "run h (lockProvider ex config) (emitted h (onLockAttempt (listener ex) config) w) = (Inr (Some l), w1)"
    "run h (performance_now ex)
       (emitted h (onTaskStarted (listener ex) config) (emitted h (onLockAcquired (listener ex) config) w1)) = (Inr start, w2)"
    "task_run h task (LockExtender_runWithLock l (LockAssert_runWithLock (cfg_name config) ctx)) w2 = ((r, ctx'), w3)"
  shows "run h (executeWithLock ex task config ctx) w =
    (Inr (map_sum id Executed r, ctx),
     unlocked_world h ex config (case LockExtender_activeLock ctx' of None \<Rightarrow> l | Some a \<Rightarrow> a)
       (emitted h (await (performance_now ex) (\<lambda>e. onTaskFinished (listener ex) config (js_sub e start))) w3))"
  using assms run_runUnderLock [OF assms(3,4)]
  by (simp add: executeWithLock_def run_safeEmit run_await)

text \<open>
  C8: Without the lock the task does not run: when the provider gives nothing, the result is "not executed" and
  only the two listener events happened; when it throws, its error is the caller's.
\<close>

theorem executeWithLock_refused:
  assumes "\<not> LockAssert_alreadyLockedBy ctx (cfg_name config)"
    "run h (lockProvider ex config) (emitted h (onLockAttempt (listener ex) config) w) = (p, w1)"
  shows "(p = Inr None \<longrightarrow> run h (executeWithLock ex task config ctx) w =
            (Inr (Inr NotExecuted, ctx), emitted h (onLockNotAcquired (listener ex) config) w1)) \<and>
         (\<forall>e. p = Inl e \<longrightarrow> run h (executeWithLock ex task config ctx) w = (Inl e, w1))"
  using assms by (auto simp: executeWithLock_def run_safeEmit run_await)

text \<open>
  C9: Re-entrancy: under a lock of the same name, at any depth of other locks, the task runs at once
  in the same context, without asking the provider and without unlocking anything.
\<close>

theorem executeWithLock_reentrant:
  assumes "cfg_name config \<in> set (assert_stack ctx)"
    "run h (performance_now ex) (emitted h (onTaskStarted (listener ex) config) w) = (Inr start, w1)"
    "task_run h task ctx w1 = ((r, ctx'), w2)"
  shows "run h (executeWithLock ex task config ctx) w =
    (Inr (map_sum id Executed r, ctx'),
     emitted h (await (performance_now ex) (\<lambda>e. onTaskFinished (listener ex) config (js_sub e start))) w2)"
  using assms run_executeTask [OF assms(2,3)]
  by (simp add: executeWithLock_def LockAssert_alreadyLockedBy_def run_await)

section \<open>The executor over the in-memory provider\<close>

text \<open>Lock objects as the executor uses them: it calls \<open>unlock\<close> and \<open>extend\<close> and keeps what \<open>extend\<close> returns.\<close>

definition asl_ops ::
  "('d asl \<Rightarrow> ('q, unit) prog) \<Rightarrow> ('d asl \<Rightarrow> LockConfiguration \<Rightarrow> ('q, 'd asl option) prog) \<Rightarrow>
   ('q, 'd asl) lock_ops" where
  "asl_ops doUnlock doExtend =
     \<lparr>op_unlock = (\<lambda>l. await (asl_unlock doUnlock l) (\<lambda>_. Ret ())),
      op_extend = (\<lambda>l most least. await (asl_extend doExtend l most least) (\<lambda>(r, _). Ret r))\<rparr>"

definition im_executor :: "(im_req, unit asl) executor" where
  "im_executor =
     \<lparr>lockProvider = InMemoryLockProvider_lock, lockOps = asl_ops InMemoryLock_doUnlock InMemoryLock_doExtend,
      listener = NO_OP_LISTENER, performance_now = Now Ret\<rparr>"

lemma im_executor_simps [simp]:
  "lockProvider im_executor = InMemoryLockProvider_lock" "listener im_executor = NO_OP_LISTENER"
  "performance_now im_executor = Now Ret"
  "op_unlock (lockOps im_executor) l = await (asl_unlock InMemoryLock_doUnlock l) (\<lambda>_. Ret ())"
  "op_extend (lockOps im_executor) l m le =
     await (asl_extend InMemoryLock_doExtend l m le) (\<lambda>(r, _). Ret r)"
  by (simp_all add: im_executor_def asl_ops_def)

lemma emitted_no_op [simp]:
  "emitted h (onLockAttempt NO_OP_LISTENER c) w = w" "emitted h (onLockAcquired NO_OP_LISTENER c) w = w"
  "emitted h (onLockNotAcquired NO_OP_LISTENER c) w = w" "emitted h (onTaskStarted NO_OP_LISTENER c) w = w"
  "emitted h (onTaskFinished NO_OP_LISTENER c x) w = w" "onUnlockError NO_OP_LISTENER = Some (\<lambda>_ _. Ret ())"
  "emitted h (Ret ()) w = w"
  "emitted h (Now (\<lambda>t. onTaskFinished NO_OP_LISTENER c (f t))) w = w"
  by (simp_all add: emitted_def NO_OP_LISTENER_def)

lemma im_unlocked_world:
  "asl_valid l \<Longrightarrow> unlocked_world im_handler im_executor c l w = InMemoryLock_unlock_body (asl_config l) w"
  by (simp add: unlocked_world_def run_await run_asl_unlock run_InMemory_unlock)

definition empty_ctx :: "'l ctx" where
  "empty_ctx = \<lparr>assert_stack = [], extender_stack = []\<rparr>"

definition failing_task :: "(im_req, unit asl, nat) task" where
  "failing_task ctx = Ret (Inl (JStr ''boom''), ctx)"

theorem executeWithLock_granted_witness:
  "run im_handler (executeWithLock im_executor failing_task job_config empty_ctx) im_world0 =
     (Inr (Inl (JStr ''boom''), empty_ctx), im_set ''job'' (Fin 10) im_world1)"
proof -
  let ?inner = "LockExtender_runWithLock (new_asl job_config ()) (LockAssert_runWithLock ''job'' empty_ctx)"
  have t: "task_run im_handler failing_task ?inner im_world1 = ((Inl (JStr ''boom''), ?inner), im_world1)"
    by (simp add: task_run_def failing_task_def)
  show ?thesis
    by (subst executeWithLock_granted [of _ _ _ im_executor _ "new_asl job_config ()" im_world1 "Fin 0" im_world1
          failing_task "Inl (JStr ''boom'')" ?inner im_world1])
       (simp_all add: LockAssert_alreadyLockedBy_def empty_ctx_def im_lock0 t [unfolded empty_ctx_def]
         LockExtender_activeLock_def im_unlocked_world InMemoryLock_unlock_body_def entry_is_def)
qed

theorem executeWithLock_refused_witness:
  "run im_handler (executeWithLock im_executor failing_task job_config empty_ctx) im_world1 =
     (Inr (Inr NotExecuted, empty_ctx), im_world1)"
proof -
  have "run im_handler (lockProvider im_executor job_config)
      (emitted im_handler (onLockAttempt (listener im_executor) job_config) im_world1) = (Inr None, im_world1)"
    by (simp add: run_InMemory_lock InMemory_lock_body_def InMemory_isLocked_def)
  from executeWithLock_refused [OF _ this, of empty_ctx failing_task] show ?thesis
    by (simp add: LockAssert_alreadyLockedBy_def empty_ctx_def)
qed

theorem executeWithLock_reentrant_witness:
  "run im_handler (executeWithLock im_executor failing_task job_config
       (LockAssert_runWithLock ''other'' (LockAssert_runWithLock ''job'' empty_ctx))) im_world1 =
     (Inr (Inl (JStr ''boom''), LockAssert_runWithLock ''other'' (LockAssert_runWithLock ''job'' empty_ctx)), im_world1)"
  by (subst executeWithLock_reentrant [where start = "Fin 0" and ?w1.0 = im_world1 and r = "Inl (JStr ''boom'')"
        and ctx' = "LockAssert_runWithLock ''other'' (LockAssert_runWithLock ''job'' empty_ctx)" and ?w2.0 = im_world1])
     (simp_all add: LockAssert_runWithLock_def empty_ctx_def task_run_def failing_task_def)

text \<open>
  C12: \<open>extendActiveLock\<close> under the in-memory provider: when the lock on top of the stack is
  unexpired and owns its name, the new lock takes its place on the stack and its deadline is
  the clock plus the new maximum; with an empty stack, or when the name has been taken over or has
  expired, an exception is thrown and neither the stack nor the store changes.
\<close>

theorem extendActiveLock_spec:
  assumes "parseDuration dm = Inr (Fin most)" "parseDuration dl = Inr (Fin least)"
    "ClockProvider_now w = Fin t" "extender_stack ctx = l # rest" "asl_valid l"
    "lockAtMostUntil (asl_config l) = Fin u"
  shows "run im_handler (LockExtender_extendActiveLock (lockOps im_executor) dm dl ctx) w =
    (if w_store w (cfg_name (asl_config l)) = Some (Fin u) \<and> t < u
     then (Inr (ctx\<lparr>extender_stack := new_asl (extended_config (asl_config l) (Fin most) (Fin least) (Fin t)) () # rest\<rparr>),
           im_set (cfg_name (asl_config l)) (Fin (t + most)) w)
     else (Inl LockCanNotBeExtendedException, w)) \<and>
    run im_handler (LockExtender_extendActiveLock (lockOps im_executor) dm dl (ctx\<lparr>extender_stack := []\<rparr>)) w =
       (Inl NoActiveLockException, w)"
  using assms
  by (auto simp: LockExtender_extendActiveLock_def run_await run_asl_extend run_InMemory_extend
      InMemoryLock_extend_body_def entry_is_def lockAtMostUntil_def js_eq_def Let_def split: option.splits)

theorem extendActiveLock_spec_witness:
  "run im_handler (LockExtender_extendActiveLock (lockOps im_executor) (DNumber (Fin 500)) (DNumber (Fin 0))
      \<lparr>assert_stack = [''job''], extender_stack = [new_asl job_config ()]\<rparr>) im_world1 =
    (Inr \<lparr>assert_stack = [''job''],
          extender_stack = [new_asl (extended_config job_config (Fin 500) (Fin 0) (Fin 0)) ()]\<rparr>,
     im_set ''job'' (Fin 500) im_world1)"
  by (subst extendActiveLock_spec [where t = 0 and most = 500 and least = 0 and u = 100
        and l = "new_asl job_config ()" and rest = "[]", THEN conjunct1])
     (simp_all add: parseDuration_number)

end
