(* ===== verification/Tracking.thy ===== *)
theory Tracking
  imports SimpleLock "HOL-Library.List_Lexorder" "HOL-Library.Char_ord" "HOL-Library.Multiset"
begin

text \<open>
  packages/core/src: tracking-lock-provider.ts and lock-health.ts.

  The wrapper keeps the set of the lock objects it gave out and a record for each; both are
  insertion-ordered, so they are lists here, and objects are identified by numbers.  The methods
  are split at their \<open>await\<close>: what a method does before or after the delegate's call is one
  state function, and \<open>tr_step\<close> lets the parts of different calls come in any order.
\<close>

section \<open>TrackingLockProviderWrapper\<close>

record ActiveLockRecord =
  alr_name :: string
  alr_lockAtMostFor :: jsnum
  alr_lockAtLeastFor :: jsnum
  acquiredAt :: jsnum
  updatedAt :: jsnum

record 'l tracking_lock =
  tl_delegate :: 'l
  tl_unlocked :: bool
  tl_record :: ActiveLockRecord

record 'l tracking =
  tr_objects :: "'l tracking_lock list"
  activeLocks :: "nat list"
  records :: "(nat \<times> ActiveLockRecord) list"

definition new_tracking :: "'l tracking" where
  "new_tracking = \<lparr>tr_objects = [], activeLocks = [], records = []\<rparr>"

text \<open>\<open>new TrackingSimpleLock(delegate, ...)\<close>, added to both collections.\<close>

definition tr_wrap :: "'l \<Rightarrow> ActiveLockRecord \<Rightarrow> 'l tracking \<Rightarrow> nat \<times> 'l tracking" where
  "tr_wrap d r s = (let i = length (tr_objects s) in
     (i, s\<lparr>tr_objects := tr_objects s @ [\<lparr>tl_delegate = d, tl_unlocked = False, tl_record = r\<rparr>],
          activeLocks := activeLocks s @ [i], records := records s @ [(i, r)]\<rparr>))"

definition tr_forget :: "nat \<Rightarrow> 'l tracking \<Rightarrow> 'l tracking" where
  "tr_forget i s = s\<lparr>activeLocks := filter (\<lambda>j. j \<noteq> i) (activeLocks s),
                     records := filter (\<lambda>p. fst p \<noteq> i) (records s)\<rparr>"

text \<open>\<open>lock\<close>, from the delegate's answer on.\<close>

definition tr_lock :: "jsnum \<Rightarrow> LockConfiguration \<Rightarrow> 'l option \<Rightarrow> 'l tracking \<Rightarrow> nat option \<times> 'l tracking" where
  "tr_lock now config lock s = (case lock of
     None \<Rightarrow> (None, s)
   | Some d \<Rightarrow>
       (let r = \<lparr>alr_name = cfg_name config, alr_lockAtMostFor = lockAtMostFor config,
                 alr_lockAtLeastFor = lockAtLeastFor config, acquiredAt = now, updatedAt = now\<rparr>;
            (i, s') = tr_wrap d r s
        in (Some i, s')))"

text \<open>\<open>unlock\<close>, up to the delegate's \<open>unlock\<close>: which delegate to unlock, if any.\<close>

definition tr_unlock :: "nat \<Rightarrow> 'l tracking \<Rightarrow> 'l option \<times> 'l tracking" where
  "tr_unlock i s = (let obj = tr_objects s ! i in
     if tl_unlocked obj then (None, s)
     else (Some (tl_delegate obj), tr_forget i (s\<lparr>tr_objects := (tr_objects s)[i := obj\<lparr>tl_unlocked := True\<rparr>]\<rparr>)))"

text \<open>\<open>extend\<close>, from the delegate's answer on.\<close>

definition tr_extend ::
  "jsnum \<Rightarrow> nat \<Rightarrow> jsnum \<Rightarrow> jsnum \<Rightarrow> 'l option \<Rightarrow> 'l tracking \<Rightarrow> nat option \<times> 'l tracking" where
  "tr_extend now i most least newLock s = (case newLock of
     None \<Rightarrow> (None, s)
   | Some d \<Rightarrow>
       (let old = tl_record (tr_objects s ! i);
            r = \<lparr>alr_name = alr_name old, alr_lockAtMostFor = most, alr_lockAtLeastFor = least,
                 acquiredAt = acquiredAt old, updatedAt = now\<rparr>;
            (j, s') = tr_wrap d r (tr_forget i s)
        in (Some j, s')))"

definition getActiveLockRecords :: "'l tracking \<Rightarrow> ActiveLockRecord list" where
  "getActiveLockRecords s = map snd (records s)"

inductive tr_step :: "'l tracking \<Rightarrow> 'l tracking \<Rightarrow> bool" where
  tr_locked: "tr_lock now c l s = (r, s') \<Longrightarrow> tr_step s s'"
| tr_unlocking: "i < length (tr_objects s) \<Longrightarrow> tr_unlock i s = (d, s') \<Longrightarrow> tr_step s s'"
| tr_extended: "i < length (tr_objects s) \<Longrightarrow> tr_extend now i m le l s = (r, s') \<Longrightarrow> tr_step s s'"

definition tr_ok :: "'l tracking \<Rightarrow> bool" where
  "tr_ok s \<longleftrightarrow> map fst (records s) = activeLocks s \<and> distinct (activeLocks s) \<and>
     (\<forall>i r. (i, r) \<in> set (records s) \<longrightarrow> i < length (tr_objects s) \<and> \<not> tl_unlocked (tr_objects s ! i) \<and>
        tl_record (tr_objects s ! i) = r)"

lemma tr_ok_new [simp]: "tr_ok new_tracking"
  by (simp add: tr_ok_def new_tracking_def)

lemma tr_ok_lt: "tr_ok s \<Longrightarrow> i \<in> set (activeLocks s) \<Longrightarrow> i < length (tr_objects s)"
proof -
  assume s: "tr_ok s" and i: "i \<in> set (activeLocks s)"
  have "set (activeLocks s) = fst ` set (records s)" using s by (metis list.set_map tr_ok_def)
  with s i show ?thesis by (auto simp: tr_ok_def)
qed

lemma tr_wrap_ok: "tr_wrap d r s = (i, s') \<Longrightarrow> tr_ok s \<Longrightarrow> tr_ok s'"
  using tr_ok_lt [of s "length (tr_objects s)"]
  by (auto simp: tr_ok_def tr_wrap_def Let_def nth_append less_Suc_eq)

lemma map_fst_filter: "map fst (filter (\<lambda>p. fst p \<noteq> i) xs) = filter (\<lambda>j. j \<noteq> i) (map fst xs)"
  by (induction xs) auto

lemma tr_forget_ok: "tr_ok s \<Longrightarrow> tr_ok (tr_forget i s)"
  by (auto simp: tr_ok_def tr_forget_def map_fst_filter)

lemma tr_unlock_ok: "tr_ok s \<Longrightarrow> i < length (tr_objects s) \<Longrightarrow> tr_ok (snd (tr_unlock i s))"
  by (auto simp: tr_ok_def tr_unlock_def tr_forget_def Let_def map_fst_filter nth_list_update)

lemma tr_step_ok: "tr_step s s' \<Longrightarrow> tr_ok s \<Longrightarrow> tr_ok s'"
proof (induction rule: tr_step.induct)
  case (tr_locked now c l s r s')
  then show ?case by (auto dest: tr_wrap_ok simp: tr_lock_def Let_def split: option.splits prod.splits)
next
  case (tr_unlocking i s d s')
  then show ?case using tr_unlock_ok [of s i] by simp
next
  case (tr_extended i s now m le l r s')
  then show ?case
    by (auto dest: tr_wrap_ok tr_forget_ok [of s i] simp: tr_extend_def Let_def split: option.splits prod.splits)
qed

text \<open>
  C15: In every reachable state of a tracking wrapper, with calls overlapping in any way: the set of active locks and the record map
  name the same objects in the same order, each once; every record shown is the one of its object, and that
  object has not been unlocked.
\<close>

theorem Tracking_consistent:
  assumes "tr_step\<^sup>*\<^sup>* new_tracking s"
  shows "map fst (records s) = activeLocks s \<and> distinct (activeLocks s) \<and>
    (\<forall>i r. (i, r) \<in> set (records s) \<longrightarrow> i < length (tr_objects s) \<and> \<not> tl_unlocked (tr_objects s ! i) \<and>
       tl_record (tr_objects s ! i) = r)"
proof -
  have "tr_ok s" using assms by (induction rule: rtranclp_induct) (auto intro: tr_step_ok)
  then show ?thesis by (simp add: tr_ok_def)
qed

theorem Tracking_consistent_witness:
  "\<exists>s. tr_step\<^sup>*\<^sup>* (new_tracking :: nat tracking) s \<and> activeLocks s = [0] \<and> map fst (records s) = [0]"
proof -
  let ?c = "\<lparr>cfg_name = ''job'', lockAtMostFor = Fin 1, lockAtLeastFor = Fin 0, createdAt = Fin 0\<rparr>"
  obtain r s where l: "tr_lock (Fin 0) ?c (Some 7) (new_tracking :: nat tracking) = (r, s)" by fastforce
  then have a: "activeLocks s = [0]" by (auto simp: tr_lock_def tr_wrap_def new_tracking_def Let_def)
  have "tr_step\<^sup>*\<^sup>* new_tracking s" using tr_locked [OF l] by blast
  with Tracking_consistent [OF this] a show ?thesis by auto
qed

section \<open>LockHealthMonitor\<close>

record LockHealthEvent =
  ev_name :: string
  ev_at :: jsnum
  ev_lockAtMostFor :: jsnum
  ev_lockAtLeastFor :: jsnum

record KeepAliveFailureRecord = LockHealthEvent +
  ev_errorType :: string

record LockHealthSnapshot =
  takenAt :: jsnum
  sn_activeLocks :: "ActiveLockRecord list"
  lastAcquired :: "LockHealthEvent option"
  lastSkipped :: "LockHealthEvent option"
  recentKeepAliveFailures :: "KeepAliveFailureRecord list"
  overdueLocks :: "ActiveLockRecord list"

record monitor =
  maxKeepAliveFailures :: jsnum
  mon_lastAcquired :: "LockHealthEvent option"
  mon_lastSkipped :: "LockHealthEvent option"
  keepAliveFailures :: "KeepAliveFailureRecord list"

definition DEFAULT_MAX_KEEP_ALIVE_FAILURES :: jsnum where
  "DEFAULT_MAX_KEEP_ALIVE_FAILURES = Fin 16"

definition errorType :: "jsv \<Rightarrow> string" where
  "errorType e = (case e of
     JErr _ _ \<Rightarrow> (case jget e ''name'' of JStr s \<Rightarrow> if s \<noteq> [] then s else ''Error'' | _ \<Rightarrow> ''Error'')
   | _ \<Rightarrow> ''Error'')"

definition eventFrom :: "LockConfiguration \<Rightarrow> jsnum \<Rightarrow> LockHealthEvent" where
  "eventFrom config now = \<lparr>ev_name = cfg_name config, ev_at = now, ev_lockAtMostFor = lockAtMostFor config,
                          ev_lockAtLeastFor = lockAtLeastFor config\<rparr>"

definition createLockHealthMonitor :: "jsnum option \<Rightarrow> jsv + monitor" where
  "createLockHealthMonitor opt =
     (let m = (case opt of None \<Rightarrow> DEFAULT_MAX_KEEP_ALIVE_FAILURES | Some x \<Rightarrow> x) in
      if js_lt m (Fin 1) then Inl (LockException ''maxKeepAliveFailures must be at least 1'')
      else Inr \<lparr>maxKeepAliveFailures = m, mon_lastAcquired = None, mon_lastSkipped = None, keepAliveFailures = []\<rparr>)"

definition mon_onLockAcquired :: "jsnum \<Rightarrow> LockConfiguration \<Rightarrow> monitor \<Rightarrow> monitor" where
  "mon_onLockAcquired now config m = m\<lparr>mon_lastAcquired := Some (eventFrom config now)\<rparr>"

definition mon_onLockNotAcquired :: "jsnum \<Rightarrow> LockConfiguration \<Rightarrow> monitor \<Rightarrow> monitor" where
  "mon_onLockNotAcquired now config m = m\<lparr>mon_lastSkipped := Some (eventFrom config now)\<rparr>"

text \<open>\<open>while (failures.length > max) failures.shift()\<close>; the maximum is never below 1.\<close>

fun shift_while :: "jsnum \<Rightarrow> 'a list \<Rightarrow> 'a list" where
  "shift_while m [] = []"
| "shift_while m (x # xs) = (if js_lt m (Fin (of_nat (length (x # xs)))) then shift_while m xs else x # xs)"

definition failure_record :: "jsnum \<Rightarrow> LockConfiguration \<Rightarrow> jsv \<Rightarrow> KeepAliveFailureRecord" where
  "failure_record now config error =
     \<lparr>ev_name = cfg_name config, ev_at = now, ev_lockAtMostFor = lockAtMostFor config,
      ev_lockAtLeastFor = lockAtLeastFor config, ev_errorType = errorType error\<rparr>"

definition onKeepAliveFailure :: "jsnum \<Rightarrow> LockConfiguration \<Rightarrow> jsv \<Rightarrow> monitor \<Rightarrow> monitor" where
  "onKeepAliveFailure now config error m =
     m\<lparr>keepAliveFailures :=
        shift_while (maxKeepAliveFailures m) (keepAliveFailures m @ [failure_record now config error])\<rparr>"

definition snapshot :: "jsnum \<Rightarrow> ActiveLockRecord list \<Rightarrow> monitor \<Rightarrow> LockHealthSnapshot" where
  "snapshot now recs m =
     (let act = sort_key alr_name recs;
          overdue = filter (\<lambda>l. js_lt (alr_lockAtMostFor l) (js_sub now (updatedAt l))) act
      in \<lparr>takenAt = now, sn_activeLocks = act, lastAcquired = mon_lastAcquired m, lastSkipped = mon_lastSkipped m,
          recentKeepAliveFailures = keepAliveFailures m, overdueLocks = overdue\<rparr>)"

definition formatEvent :: "string \<Rightarrow> LockHealthEvent option \<Rightarrow> string" where
  "formatEvent label ev = (case ev of
     None \<Rightarrow> label @ '': none''
   | Some e \<Rightarrow> label @ '': '' @ ev_name e @ '' at='' @ js_show (ev_at e) @ '' lockAtMostFor='' @
       js_show (ev_lockAtMostFor e) @ '' lockAtLeastFor='' @ js_show (ev_lockAtLeastFor e))"

definition formatActiveLock :: "jsnum \<Rightarrow> ActiveLockRecord \<Rightarrow> string" where
  "formatActiveLock taken l =
     ''  - '' @ alr_name l @ '' acquiredAt='' @ js_show (acquiredAt l) @ '' updatedAt='' @ js_show (updatedAt l) @
     '' heldMs='' @ js_show (js_sub taken (acquiredAt l)) @ '' lockAtMostFor='' @ js_show (alr_lockAtMostFor l) @
     '' lockAtLeastFor='' @ js_show (alr_lockAtLeastFor l)"

definition formatKeepAliveFailure :: "KeepAliveFailureRecord \<Rightarrow> string" where
  "formatKeepAliveFailure f =
     ''  - '' @ ev_name f @ '' at='' @ js_show (ev_at f) @ '' errorType='' @ ev_errorType f @
     '' lockAtMostFor='' @ js_show (ev_lockAtMostFor f)"

fun join_lines :: "string list \<Rightarrow> string" where
  "join_lines [] = []"
| "join_lines [l] = l"
| "join_lines (l # ls) = l @ CHR 0x0A # join_lines ls"

definition snapshot_lines :: "LockHealthSnapshot \<Rightarrow> string list" where
  "snapshot_lines s =
     [''tslock lock health takenAt='' @ js_show (takenAt s),
      ''activeLocks: '' @ show_nat (length (sn_activeLocks s))] @
     map (formatActiveLock (takenAt s)) (sn_activeLocks s) @
     [''overdueLocks: '' @ show_nat (length (overdueLocks s))] @
     map (formatActiveLock (takenAt s)) (overdueLocks s) @
     [formatEvent ''lastAcquired'' (lastAcquired s), formatEvent ''lastSkipped'' (lastSkipped s),
      ''recentKeepAliveFailures: '' @ show_nat (length (recentKeepAliveFailures s))] @
     map formatKeepAliveFailure (recentKeepAliveFailures s)"

definition formatSnapshot :: "LockHealthSnapshot \<Rightarrow> string" where
  "formatSnapshot s = join_lines (snapshot_lines s)"

lemma shift_while_drop:
  assumes "m = Fin r" "1 \<le> r"
  shows "shift_while m xs = drop (length xs - nat \<lfloor>r\<rfloor>) xs"
proof (induction xs)
  case (Cons x xs)
  have r: "int (nat \<lfloor>r\<rfloor>) = \<lfloor>r\<rfloor>" using assms(2) by simp
  have "js_lt m (Fin (of_nat (length (x # xs)))) \<longleftrightarrow> nat \<lfloor>r\<rfloor> < length (x # xs)"
  proof -
    have "r < of_nat (length (x # xs)) \<longleftrightarrow> \<lfloor>r\<rfloor> < int (length (x # xs))"
      by (metis floor_less_iff of_int_of_nat_eq)
    then show ?thesis using assms(1) r by (metis js_lt.simps(1) of_nat_less_iff)
  qed
  then show ?case using Cons by (auto simp: Suc_diff_le)
qed simp

lemma drop_snoc_drop:
  "drop (length (drop (length xs - k) xs @ [x]) - k) (drop (length xs - k) xs @ [x]) =
   drop (length (xs @ [x]) - k) (xs @ [x])" if "0 < k"
  using that by (cases "length xs \<le> k") (auto simp: Suc_diff_le)

text \<open>
  The monitor keeps the most recent failures: after any sequence of keep-alive failures the list holds, in
  order, the last \<open>floor(maxKeepAliveFailures)\<close> of them and never more.
\<close>

theorem onKeepAliveFailure_keeps_last:
  assumes "createLockHealthMonitor (Some (Fin r)) = Inr m0"
  shows "keepAliveFailures (fold (\<lambda>(now, c, e). onKeepAliveFailure now c e) evs m0) =
    drop (length evs - nat \<lfloor>r\<rfloor>) (map (\<lambda>(now, c, e). failure_record now c e) evs)"
proof -
  have m0: "maxKeepAliveFailures m0 = Fin r" "keepAliveFailures m0 = []" and r: "1 \<le> r"
    using assms by (auto simp: createLockHealthMonitor_def Let_def split: if_splits)
  have pos: "0 < nat \<lfloor>r\<rfloor>" using r by simp
  have "maxKeepAliveFailures (fold (\<lambda>(now, c, e). onKeepAliveFailure now c e) evs m0) = Fin r \<and>
    keepAliveFailures (fold (\<lambda>(now, c, e). onKeepAliveFailure now c e) evs m0) =
    drop (length evs - nat \<lfloor>r\<rfloor>) (map (\<lambda>(now, c, e). failure_record now c e) evs)"
  proof (induction evs rule: rev_induct)
    case Nil
    then show ?case using m0 by simp
  next
    case (snoc x evs)
    obtain n c e where x: "x = (n, c, e)" by (cases x)
    let ?f = "\<lambda>(now, c, e). failure_record now c e"
    show ?case
      using snoc drop_snoc_drop [OF pos, of "map ?f evs" "failure_record n c e"]
        shift_while_drop [OF refl r, of "drop (length evs - nat \<lfloor>r\<rfloor>) (map ?f evs) @ [failure_record n c e]"]
      by (simp add: x onKeepAliveFailure_def)
  qed
  then show ?thesis by blast
qed

theorem onKeepAliveFailure_keeps_last_witness:
  "\<exists>m0 c. createLockHealthMonitor (Some (Fin 1)) = Inr m0 \<and>
     keepAliveFailures (fold (\<lambda>(now, c, e). onKeepAliveFailure now c e)
        [(Fin 1, c, JNull), (Fin 2, c, TypeError ''x'')] m0) = [failure_record (Fin 2) c (TypeError ''x'')]"
proof -
  have c: "createLockHealthMonitor (Some (Fin 1)) =
      Inr \<lparr>maxKeepAliveFailures = Fin 1, mon_lastAcquired = None, mon_lastSkipped = None, keepAliveFailures = []\<rparr>"
    by (simp add: createLockHealthMonitor_def)
  show ?thesis
    by (intro exI conjI, rule c, subst onKeepAliveFailure_keeps_last [OF c]) simp
qed

text \<open>
  A snapshot shows every tracked lock once, sorted by name with the order of acquisition kept among equal names, and
  marks as overdue exactly those not renewed for longer than their maximum lock time.
\<close>

theorem snapshot_spec:
  "mset (sn_activeLocks (snapshot now recs m)) = mset recs \<and>
   sorted (map alr_name (sn_activeLocks (snapshot now recs m))) \<and>
   (\<forall>n. filter (\<lambda>l. alr_name l = n) (sn_activeLocks (snapshot now recs m)) = filter (\<lambda>l. alr_name l = n) recs) \<and>
   (\<forall>l. l \<in> set (overdueLocks (snapshot now recs m)) \<longleftrightarrow>
      l \<in> set recs \<and> js_lt (alr_lockAtMostFor l) (js_sub now (updatedAt l)))"
  by (auto simp: snapshot_def Let_def stable_sort_key_sort_key [unfolded stable_sort_key_def])

end
