(* ===== verification/Json.thy ===== *)
theory Json
  imports Config
begin

text \<open>
  Values at the boundary of the providers: \<open>===\<close> and \<open>String(v)\<close> on values, and \<open>JSON.stringify\<close>.
\<close>

text \<open>\<open>a === b\<close>; two objects are never the same here, because the code compares no references through this.\<close>

definition strict_eq :: "jsv \<Rightarrow> jsv \<Rightarrow> bool" where
  "strict_eq a b \<longleftrightarrow> (case (a, b) of
     (JNum x, JNum y) \<Rightarrow> js_eq x y
   | _ \<Rightarrow> a = b \<and> \<not> is_object a)"

definition js_String :: "jsv \<Rightarrow> string" where
  "js_String v = (case v of
     JUndef \<Rightarrow> ''undefined'' | JNull \<Rightarrow> ''null'' | JBool b \<Rightarrow> (if b then ''true'' else ''false'')
   | JNum x \<Rightarrow> js_show x | JStr s \<Rightarrow> s | _ \<Rightarrow> ''[object Object]'')"

definition hex_digit :: "nat \<Rightarrow> char" where
  "hex_digit n = (if n < 10 then char_of (48 + n) else char_of (87 + n))"

definition json_char :: "char \<Rightarrow> string" where
  "json_char c = (let n = (of_char c :: nat) in
     if n = 34 then [CHR 0x5C, CHR 0x22] else if n = 92 then [CHR 0x5C, CHR 0x5C]
     else if n = 8 then CHR 0x5C # ''b'' else if n = 9 then CHR 0x5C # ''t'' else if n = 10 then CHR 0x5C # ''n''
     else if n = 12 then CHR 0x5C # ''f'' else if n = 13 then CHR 0x5C # ''r''
     else if n < 32 then CHR 0x5C # ''u00'' @ [hex_digit (n div 16), hex_digit (n mod 16)] else [c])"

definition json_string :: "string \<Rightarrow> string" where
  "json_string s = CHR 0x22 # concat (map json_char s) @ [CHR 0x22]"

fun join :: "string \<Rightarrow> string list \<Rightarrow> string" where
  "join sep [] = []"
| "join sep [s] = s"
| "join sep (s # t # r) = s @ sep @ join sep (t # r)"

fun json :: "jsv \<Rightarrow> string" and json_props :: "(string \<times> jsv) list \<Rightarrow> string list" where
  "json JUndef = ''null''"
| "json JNull = ''null''"
| "json (JBool b) = (if b then ''true'' else ''false'')"
| "json (JNum x) = JSON_number x"
| "json (JStr s) = json_string s"
| "json (JDate d) = (case Date_toISOString d of Inl _ \<Rightarrow> ''null'' | Inr s \<Rightarrow> json_string s)"
| "json (JArr xs) = ''['' @ join '','' (map json xs) @ '']''"
| "json (JObj c ps) = ''{'' @ join '','' (json_props ps) @ ''}''"
| "json (JErr c ps) = ''{'' @ join '','' (json_props ps) @ ''}''"
| "json_props [] = []"
| "json_props ((k, v) # ps) =
     (if v = JUndef then json_props ps else (json_string k @ '':'' @ json v) # json_props ps)"

abbreviation obj :: "(string \<times> jsv) list \<Rightarrow> jsv" where
  "obj ps \<equiv> JObj ''Object'' ps"

text \<open>
  \<open>Number(v)\<close>: decimal digits with an optional sign and white space around them; other numeric forms (fractions,
  exponents, hexadecimal) read as \<open>NaN\<close>.
\<close>

definition js_Number :: "jsv \<Rightarrow> jsnum" where
  "js_Number v = (case v of
     JNum x \<Rightarrow> x | JNull \<Rightarrow> Fin 0 | JBool b \<Rightarrow> Fin (if b then 1 else 0) | JDate d \<Rightarrow> d
   | JStr s \<Rightarrow> (let t = js_trim s in
       if t = [] then Fin 0
       else if list_all is_digit t then Number_of_nat (digits_nat t)
       else if hd t = CHR ''-'' \<and> tl t \<noteq> [] \<and> list_all is_digit (tl t) then js_neg (Number_of_nat (digits_nat (tl t)))
       else NaN)
   | _ \<Rightarrow> NaN)"

lemma js_Number_simps [simp]: "js_Number (JNum x) = x" "js_Number JNull = Fin 0" "js_Number JUndef = NaN"
  by (simp_all add: js_Number_def)

text \<open>A number property that may be missing: the argument of \<open>f(x?: number)\<close>.\<close>

definition opt_num :: "jsnum option \<Rightarrow> jsv" where
  "opt_num x = (case x of None \<Rightarrow> JUndef | Some n \<Rightarrow> JNum n)"

text \<open>\<open>Date.parse(v as string)\<close>.\<close>

definition Date_parse_value :: "jsv \<Rightarrow> jsnum" where
  "Date_parse_value v = (case v of JStr s \<Rightarrow> Date_parse s | _ \<Rightarrow> NaN)"

lemma strict_eq_simps [simp]:
  "strict_eq (JStr s) (JStr t) \<longleftrightarrow> s = t" "\<not> strict_eq JUndef (JStr t)" "\<not> strict_eq JNull (JStr t)"
  "strict_eq (JNum x) (JNum y) \<longleftrightarrow> js_eq x y" "\<not> strict_eq JUndef (JNum y)" "\<not> strict_eq (JStr s) (JNum y)"
  "\<not> strict_eq (JNum y) (JStr s)"
  by (auto simp: strict_eq_def)

lemma strict_eq_JStr: "strict_eq v (JStr s) \<longleftrightarrow> v = JStr s"
  by (cases v) (auto simp: strict_eq_def)

lemma strict_eq_JNum: "strict_eq v (JNum x) \<longleftrightarrow> (\<exists>y. v = JNum y \<and> js_eq y x)"
  by (cases v) (auto simp: strict_eq_def)

lemma Date_parse_value_simps [simp]: "Date_parse_value (JStr s) = Date_parse s"
  by (simp add: Date_parse_value_def)


section \<open>Object literals and property access\<close>

text \<open>\<open>{...a, k: v}\<close> and literals with computed keys: a later property replaces an earlier one of the same key.\<close>

fun set_prop :: "(string \<times> 'v) list \<Rightarrow> string \<Rightarrow> 'v \<Rightarrow> (string \<times> 'v) list" where
  "set_prop [] k v = [(k, v)]"
| "set_prop ((j, x) # ps) k v = (if j = k then (k, v) # ps else (j, x) # set_prop ps k v)"

definition spread :: "(string \<times> 'v) list \<Rightarrow> (string \<times> 'v) list \<Rightarrow> (string \<times> 'v) list" where
  "spread ps qs = foldl (\<lambda>a (k, v). set_prop a k v) ps qs"

definition mk_obj :: "(string \<times> jsv) list \<Rightarrow> jsv" where
  "mk_obj ps = obj (spread [] ps)"

definition own_props :: "jsv \<Rightarrow> (string \<times> jsv) list" where
  "own_props v = (case v of JObj c ps \<Rightarrow> ps | JErr c ps \<Rightarrow> ps | _ \<Rightarrow> [])"

lemma map_of_set_prop [simp]: "map_of (set_prop ps k v) = (map_of ps)(k \<mapsto> v)"
  by (induction ps k v rule: set_prop.induct) auto

lemma map_of_spread: "map_of (spread ps qs) k = (case map_of (rev qs) k of None \<Rightarrow> map_of ps k | Some v \<Rightarrow> Some v)"
proof (induction qs arbitrary: ps)
  case (Cons q qs)
  obtain j v where q: "q = (j, v)" by (cases q)
  have "map_of (spread ps (q # qs)) k = map_of (spread (set_prop ps j v) qs) k" by (simp add: spread_def q)
  also have "\<dots> = (case map_of (rev qs) k of None \<Rightarrow> map_of (set_prop ps j v) k | Some x \<Rightarrow> Some x)" by (rule Cons.IH)
  finally show ?case by (auto simp: q map_add_def split: option.splits)
qed (simp add: spread_def)

lemma jget_obj: "jget (JObj c ps) k = (case map_of ps k of None \<Rightarrow> JUndef | Some x \<Rightarrow> x)"
  by (simp add: jget_def)

lemma jget_mk_obj [simp]: "jget (mk_obj ps) k = jget (obj (rev ps)) k"
  by (simp add: mk_obj_def jget_obj map_of_spread spread_def [of _ "[]"] split: option.splits)

lemma own_props_simps [simp]: "own_props (JObj c ps) = ps" "own_props (JErr c ps) = ps" "own_props (mk_obj ps) = spread [] ps"
  by (simp_all add: own_props_def mk_obj_def)

text \<open>\<open>v.k\<close> and \<open>v[i]\<close> where \<open>v\<close> may be null: a \<open>TypeError\<close>.\<close>

definition prop_of :: "jsv \<Rightarrow> string \<Rightarrow> jsv + jsv" where
  "prop_of v k =
     (if v = JUndef \<or> v = JNull
      then Inl (TypeError (''Cannot read properties of '' @ js_String v @ '' (reading '' @ [CHR 0x27] @ k @ [CHR 0x27] @ '')''))
      else Inr (jget v k))"

definition js_at :: "jsv \<Rightarrow> nat \<Rightarrow> jsv + jsv" where
  "js_at v i =
     (if v = JUndef \<or> v = JNull
      then Inl (TypeError (''Cannot read properties of '' @ js_String v @ '' (reading '' @ [CHR 0x27] @ show_nat i @ [CHR 0x27] @ '')''))
      else Inr (case v of JArr xs \<Rightarrow> if i < length xs then xs ! i else JUndef | _ \<Rightarrow> JUndef))"

lemma js_at_JArr [simp]: "js_at (JArr xs) i = Inr (if i < length xs then xs ! i else JUndef)"
  by (simp add: js_at_def)

lemma prop_of_simps [simp]: "prop_of (JObj c ps) k = Inr (jget (JObj c ps) k)" "prop_of (JErr c ps) k = Inr (jget (JErr c ps) k)"
  by (simp_all add: prop_of_def)

text \<open>The length of an array (and of a string).\<close>

definition js_len :: "jsv \<Rightarrow> nat" where
  "js_len v = (case v of JArr xs \<Rightarrow> length xs | JStr s \<Rightarrow> length s | _ \<Rightarrow> 0)"

lemma js_len_simps [simp]: "js_len (JArr xs) = length xs" "js_len (JStr s) = length s"
  by (simp_all add: js_len_def)

text \<open>\<open>typeof v === 'string'\<close>, \<open>typeof v === 'number'\<close>.\<close>

definition is_string :: "jsv \<Rightarrow> bool" where
  "is_string v \<longleftrightarrow> (case v of JStr _ \<Rightarrow> True | _ \<Rightarrow> False)"

definition is_number :: "jsv \<Rightarrow> bool" where
  "is_number v \<longleftrightarrow> (case v of JNum _ \<Rightarrow> True | _ \<Rightarrow> False)"

definition str_of :: "jsv \<Rightarrow> string" where
  "str_of v = (case v of JStr s \<Rightarrow> s | _ \<Rightarrow> [])"

lemma type_simps [simp]:
  "is_string (JStr s)" "\<not> is_string JUndef" "\<not> is_string JNull" "\<not> is_string (JNum n)" "\<not> is_string (JBool b)"
  "is_number (JNum n)" "\<not> is_number JUndef" "\<not> is_number JNull" "\<not> is_number (JStr s)" "\<not> is_number (JBool b)"
  "str_of (JStr s) = s"
  by (simp_all add: is_string_def is_number_def str_of_def)

end
