(* ===== verification/S3.thy ===== *)
theory S3
  imports StorageBased Json
begin

text \<open>
  packages/s3/src: the accessor over an object store with conditional writes.  A record is the user
  metadata of one object; \<open>updateRecord\<close>, \<open>unlock\<close> and \<open>extend\<close> read the object and write it back
  under the condition that its ETag is still the one read.  The client of the service is the handler of \<open>s3_req\<close>.
\<close>

datatype s3_req =
    HeadObject string string
  | PutObject (put_bucket: string) (put_key: string) (put_body: string) (put_metadata: jsv)
      (put_IfNoneMatch: "string option") (put_IfMatch: "jsv option")

record S3ProviderConfig =
  s3_bucket :: string
  s3_objectPrefix :: string

definition createS3ProviderConfig :: "string \<Rightarrow> string option \<Rightarrow> jsv + S3ProviderConfig" where
  "createS3ProviderConfig bucket objectPrefix =
     (if bucket = [] then Inl (LockException ''bucket must be a non-empty string'')
      else Inr \<lparr>s3_bucket = bucket,
                s3_objectPrefix = (case objectPrefix of None \<Rightarrow> ''shedlock/'' | Some p \<Rightarrow> p)\<rparr>)"

section \<open>Errors (s3-errors.ts)\<close>

definition S3_getErrorName :: "jsv \<Rightarrow> jsv" where
  "S3_getErrorName e = (if is_object e then jget e ''name'' else JUndef)"

definition S3_getStatusCode :: "jsv \<Rightarrow> jsv" where
  "S3_getStatusCode e = (if is_object e then jget (jget e ''$metadata'') ''httpStatusCode'' else JUndef)"

definition S3_isNotFound :: "jsv \<Rightarrow> bool" where
  "S3_isNotFound e \<longleftrightarrow>
     (if instanceof e ''S3ServiceException''
      then strict_eq (jget e ''name'') (JStr ''NotFound'') \<or> strict_eq (jget e ''name'') (JStr ''NoSuchKey'') \<or>
           strict_eq (jget (jget e ''$metadata'') ''httpStatusCode'') (JNum (Fin 404))
      else strict_eq (S3_getErrorName e) (JStr ''NotFound'') \<or> strict_eq (S3_getErrorName e) (JStr ''NoSuchKey'') \<or>
           strict_eq (S3_getStatusCode e) (JNum (Fin 404)))"

definition S3_isConditionalWriteFailed :: "jsv \<Rightarrow> bool" where
  "S3_isConditionalWriteFailed e \<longleftrightarrow>
     (let name = (if instanceof e ''S3ServiceException'' then jget e ''name'' else S3_getErrorName e);
          status = (if instanceof e ''S3ServiceException'' then jget (jget e ''$metadata'') ''httpStatusCode''
                    else S3_getStatusCode e)
      in strict_eq name (JStr ''PreconditionFailed'') \<or> strict_eq name (JStr ''ConditionalRequestConflict'') \<or>
         strict_eq name (JStr ''Conflict'') \<or>
         strict_eq status (JNum (Fin 412)) \<or> strict_eq status (JNum (Fin 409)))"

section \<open>The accessor (s3-storage-accessor.ts)\<close>

definition S3_getMetadataValue :: "jsv \<Rightarrow> string \<Rightarrow> jsv" where
  "S3_getMetadataValue metadata key =
     (if \<not> truthy metadata then JUndef
      else nullish (jget metadata key) (jget metadata (toLowerCase key)))"

definition S3_lockRecordBody :: "jsv \<Rightarrow> string" where
  "S3_lockRecordBody r =
     json (obj [(''lockUntil'', jget r ''lockUntil''), (''lockedAt'', jget r ''lockedAt''), (''lockedBy'', jget r ''lockedBy'')])"

definition S3_objectKey :: "S3ProviderConfig \<Rightarrow> string \<Rightarrow> string" where
  "S3_objectKey cfg name = s3_objectPrefix cfg @ name"

text \<open>\<open>headObject\<close>: \<open>None\<close> for a missing object, else its ETag and metadata.\<close>

definition S3_headObject :: "S3ProviderConfig \<Rightarrow> string \<Rightarrow> (s3_req, (jsv \<times> jsv) option) prog" where
  "S3_headObject cfg name =
     try_request (HeadObject (s3_bucket cfg) (S3_objectKey cfg name))
       (\<lambda>out. Ret (Some (jget out ''ETag'', nullish (jget out ''Metadata'') (obj []))))
       (\<lambda>e. if S3_isNotFound e then Ret None else Raise e)"

definition S3_parseLockUntil :: "jsv \<Rightarrow> jsv + jsnum" where
  "S3_parseLockUntil metadata = (let raw = S3_getMetadataValue metadata ''lockUntil'' in
     if \<not> truthy raw then Inl (LockException ''Corrupted lock record: missing lockUntil'')
     else (let ms = Date_parse_value raw in
       if ms = NaN
       then Inl (LockException (''Corrupted lock record: unparseable lockUntil '' @ [CHR 0x27] @ js_String raw @ [CHR 0x27]))
       else Inr ms))"

definition S3_metadata :: "jsv \<Rightarrow> jsv \<Rightarrow> jsv \<Rightarrow> jsv" where
  "S3_metadata lockUntil lockedAt lockedBy =
     obj [(''lockUntil'', lockUntil), (''lockedAt'', lockedAt), (''lockedBy'', lockedBy)]"

definition S3_buildMetadata :: "string \<Rightarrow> LockConfiguration \<Rightarrow> jsv + jsv" where
  "S3_buildMetadata host config = (case Utils_toIsoString (lockAtMostUntil config) of Inl e \<Rightarrow> Inl e | Inr u \<Rightarrow>
     (case Utils_toIsoString (createdAt config) of Inl e \<Rightarrow> Inl e | Inr a \<Rightarrow>
        Inr (S3_metadata (JStr u) (JStr a) (JStr host))))"

text \<open>The conditional \<open>PutObject\<close>, with \<open>false\<close> for a failed condition.\<close>

definition S3_put ::
  "S3ProviderConfig \<Rightarrow> string \<Rightarrow> jsv \<Rightarrow> string option \<Rightarrow> jsv option \<Rightarrow> (s3_req, bool) prog" where
  "S3_put cfg name metadata ifNoneMatch ifMatch =
     try_request (PutObject (s3_bucket cfg) (S3_objectKey cfg name) (S3_lockRecordBody metadata) metadata ifNoneMatch ifMatch)
       (\<lambda>_. Ret True)
       (\<lambda>e. if S3_isConditionalWriteFailed e then Ret False else Raise e)"

definition S3_insertRecord :: "string \<Rightarrow> S3ProviderConfig \<Rightarrow> LockConfiguration \<Rightarrow> (s3_req, bool) prog" where
  "S3_insertRecord host cfg config =
     await (S3_headObject cfg (cfg_name config)) (\<lambda>head.
       if head \<noteq> None then Ret False
       else sync (S3_buildMetadata host config) (\<lambda>metadata.
         S3_put cfg (cfg_name config) metadata (Some ''*'') None))"

definition S3_updateRecord :: "string \<Rightarrow> S3ProviderConfig \<Rightarrow> LockConfiguration \<Rightarrow> (s3_req, bool) prog" where
  "S3_updateRecord host cfg config =
     await (S3_headObject cfg (cfg_name config)) (\<lambda>head. case head of
       None \<Rightarrow> Raise (LockException (''Lock record not found: '' @ cfg_name config))
     | Some (etag, md) \<Rightarrow>
         sync (S3_parseLockUntil md) (\<lambda>lockUntil. Now (\<lambda>now.
           if js_lt now lockUntil then Ret False
           else sync (S3_buildMetadata host config) (\<lambda>metadata.
             S3_put cfg (cfg_name config) metadata None (Some etag)))))"

definition S3_unlock :: "string \<Rightarrow> S3ProviderConfig \<Rightarrow> LockConfiguration \<Rightarrow> (s3_req, unit) prog" where
  "S3_unlock host cfg config =
     await (S3_headObject cfg (cfg_name config)) (\<lambda>head. case head of
       None \<Rightarrow> Ret ()
     | Some (etag, md) \<Rightarrow>
         if \<not> strict_eq (S3_getMetadataValue md ''lockedBy'') (JStr host) then Ret ()
         else sync (Utils_toIsoString (lockAtMostUntil config)) (\<lambda>mine.
           if \<not> strict_eq (S3_getMetadataValue md ''lockUntil'') (JStr mine) then Ret ()
           else Now (\<lambda>now.
             sync (Utils_toIsoString (unlockTime now config)) (\<lambda>until.
             sync (case nullish (S3_getMetadataValue md ''lockedAt'') JUndef of
                     JUndef \<Rightarrow> map_sum id JStr (Utils_toIsoString (createdAt config)) | a \<Rightarrow> Inr a) (\<lambda>lockedAt.
             await (S3_put cfg (cfg_name config)
                      (S3_metadata (JStr until) lockedAt (nullish (S3_getMetadataValue md ''lockedBy'') (JStr host)))
                      None (Some etag)) (\<lambda>_. Ret ()))))))"

definition S3_extend :: "string \<Rightarrow> S3ProviderConfig \<Rightarrow> LockConfiguration \<Rightarrow> jsnum option \<Rightarrow> (s3_req, bool) prog" where
  "S3_extend host cfg config previousLockAtMostUntil =
     await (S3_headObject cfg (cfg_name config)) (\<lambda>head. case head of
       None \<Rightarrow> Ret False
     | Some (etag, md) \<Rightarrow>
         sync (S3_parseLockUntil md) (\<lambda>lockUntil.
         if \<not> strict_eq (S3_getMetadataValue md ''lockedBy'') (JStr host) then Ret False
         else Now (\<lambda>now. if js_le lockUntil now then Ret False
         else sync (case previousLockAtMostUntil of
                      None \<Rightarrow> Inr True
                    | Some p \<Rightarrow> map_sum id (\<lambda>s. strict_eq (S3_getMetadataValue md ''lockUntil'') (JStr s)) (Utils_toIsoString p))
           (\<lambda>same. if \<not> same then Ret False
         else sync (Utils_toIsoString (lockAtMostUntil config)) (\<lambda>until.
              sync (case nullish (S3_getMetadataValue md ''lockedAt'') JUndef of
                      JUndef \<Rightarrow> map_sum id JStr (Utils_toIsoString (createdAt config)) | a \<Rightarrow> Inr a) (\<lambda>lockedAt.
              S3_put cfg (cfg_name config)
                (S3_metadata (JStr until) lockedAt (nullish (S3_getMetadataValue md ''lockedBy'') (JStr host)))
                None (Some etag)))))))"

definition S3StorageAccessor :: "string \<Rightarrow> S3ProviderConfig \<Rightarrow> s3_req StorageAccessor" where
  "S3StorageAccessor host cfg =
     \<lparr>acc_insertRecord = S3_insertRecord host cfg, acc_updateRecord = S3_updateRecord host cfg,
      acc_unlock = S3_unlock host cfg, acc_extend = S3_extend host cfg\<rparr>"

definition S3LockProvider_lock :: "string \<Rightarrow> S3ProviderConfig \<Rightarrow> LockConfiguration \<Rightarrow> (s3_req storage_req, unit asl option) prog" where
  "S3LockProvider_lock host cfg = StorageBasedLockProvider_lock (S3StorageAccessor host cfg)"

section \<open>Over an object store with conditional writes\<close>

text \<open>
  What the service documents: \<open>HeadObject\<close> gives the object or is rejected; a conditional \<open>PutObject\<close> replaces the object,
  or leaves everything as it was and is rejected.  Any request may also be rejected for other reasons, a \<open>PutObject\<close>
  even after it took effect.
\<close>

locale s3_service =
  fixes h :: "(s3_req, 's) handler"
    and objects :: "'s \<Rightarrow> string \<Rightarrow> string \<Rightarrow> (jsv \<times> jsv) option"
    and host :: string
    and cfg :: S3ProviderConfig
  assumes head: "h (HeadObject b k) w = (r, w') \<Longrightarrow> w' = w \<and>
      (case objects (w_store w) b k of
         Some (e, m) \<Rightarrow> (\<exists>v. r = Inr v \<and> jget v ''ETag'' = e \<and> jget v ''Metadata'' = m) \<or>
                        (\<exists>x. r = Inl x \<and> \<not> S3_isNotFound x)
       | None \<Rightarrow> (\<exists>x. r = Inl x))"
    and put: "h (PutObject b k body m inm im) w = (r, w') \<Longrightarrow> ClockProvider_now w' = ClockProvider_now w \<and>
      (objects (w_store w') = objects (w_store w) \<and> (\<exists>x. r = Inl x) \<or>
       (inm = Some ''*'' \<longrightarrow> objects (w_store w) b k = None) \<and>
       (\<forall>e. im = Some e \<longrightarrow> (\<exists>m'. objects (w_store w) b k = Some (e, m'))) \<and>
       (\<exists>e'. objects (w_store w') = (objects (w_store w))(b := (objects (w_store w) b)(k := Some (e', m)))) \<and>
       (\<forall>x. r = Inl x \<longrightarrow> \<not> S3_isConditionalWriteFailed x))"
begin

definition s3_deadline :: "'s \<Rightarrow> deadlines" where
  "s3_deadline s n = (case objects s (s3_bucket cfg) (S3_objectKey cfg n) of
     None \<Rightarrow> None
   | Some (e, m) \<Rightarrow> (case Date_parse_value (jget m ''lockUntil'') of Fin u \<Rightarrow> Some u | _ \<Rightarrow> None))"

definition record_ok :: "jsv \<Rightarrow> bool" where
  "record_ok m \<longleftrightarrow> (\<exists>t a b. date_range t \<and> m = S3_metadata (JStr (iso_string t)) a b)"

definition s3_inv :: "'s \<Rightarrow> bool" where
  "s3_inv s \<longleftrightarrow> (\<forall>n e m. objects s (s3_bucket cfg) (S3_objectKey cfg n) = Some (e, m) \<longrightarrow> record_ok m)"

lemma objectKey_inj [simp]: "S3_objectKey cfg m = S3_objectKey cfg n \<longleftrightarrow> m = n"
  by (simp add: S3_objectKey_def)

lemma record_ok_simps:
  assumes "record_ok m"
  obtains t where "date_range t" "S3_getMetadataValue m ''lockUntil'' = JStr (iso_string t)"
    "S3_parseLockUntil m = Inr (Fin (of_int t))" "jget m ''lockUntil'' = JStr (iso_string t)" "nullish m x = m"
proof -
  obtain t a b where t: "date_range t" and m: "m = S3_metadata (JStr (iso_string t)) a b"
    using assms by (auto simp: record_ok_def)
  have "iso_string t \<noteq> []" using Date_parse_date [OF t] by (auto simp: Date_parse_def)
  then show ?thesis using t
    by (intro that [of t]) (simp_all add: m S3_metadata_def S3_getMetadataValue_def truthy_def S3_parseLockUntil_def
        nullish_def Let_def)
qed

lemma record_ok_metadata: "date_range t \<Longrightarrow> record_ok (S3_metadata (JStr (iso_string t)) a b)"
  by (auto simp: record_ok_def)

text \<open>The two steps every operation is made of.\<close>

lemma run_head:
  assumes "run h (S3_headObject cfg n) w = (r, w')" "s3_inv (w_store w)"
  shows "w' = w" "r = Inr None \<Longrightarrow> objects (w_store w) (s3_bucket cfg) (S3_objectKey cfg n) = None"
    "r = Inr (Some (e, m)) \<Longrightarrow> objects (w_store w) (s3_bucket cfg) (S3_objectKey cfg n) = Some (e, m) \<and> record_ok m"
proof -
  obtain q v where q: "h (HeadObject (s3_bucket cfg) (S3_objectKey cfg n)) w = (q, v)" by fastforce
  have keep: "nullish m x = m" if "objects (w_store w) (s3_bucket cfg) (S3_objectKey cfg n) = Some (e, m)" for e m x
    using that assms(2) record_ok_simps [of m] unfolding s3_inv_def by metis
  show "w' = w" "r = Inr None \<Longrightarrow> objects (w_store w) (s3_bucket cfg) (S3_objectKey cfg n) = None"
    "r = Inr (Some (e, m)) \<Longrightarrow> objects (w_store w) (s3_bucket cfg) (S3_objectKey cfg n) = Some (e, m) \<and> record_ok m"
    using head [OF q] assms keep
    by (auto simp: S3_headObject_def q s3_inv_def split: sum.splits option.splits if_splits)
qed

lemma run_put:
  assumes "run h (S3_put cfg n m inm im) w = (r, w')" "s3_inv (w_store w)" "record_ok m"
  shows "ClockProvider_now w' = ClockProvider_now w" "s3_inv (w_store w')"
    "s3_deadline (w_store w') = s3_deadline (w_store w) \<and> r \<noteq> Inr True \<or>
     r \<noteq> Inr False \<and> s3_deadline (w_store w') = (s3_deadline (w_store w))
        (n := (case Date_parse_value (jget m ''lockUntil'') of Fin u \<Rightarrow> Some u | _ \<Rightarrow> None)) \<and>
     (inm = Some ''*'' \<longrightarrow> objects (w_store w) (s3_bucket cfg) (S3_objectKey cfg n) = None) \<and>
     (\<forall>e. im = Some e \<longrightarrow> (\<exists>m'. objects (w_store w) (s3_bucket cfg) (S3_objectKey cfg n) = Some (e, m')))"
proof -
  obtain q v where q: "h (PutObject (s3_bucket cfg) (S3_objectKey cfg n) (S3_lockRecordBody m) m inm im) w = (q, v)"
    by fastforce
  have w': "w' = v" and r: "r = (case q of Inr _ \<Rightarrow> Inr True | Inl e \<Rightarrow> if S3_isConditionalWriteFailed e then Inr False else Inl e)"
    using assms(1) by (auto simp: S3_put_def q split: sum.splits if_splits)
  note p = put [OF q]
  have d1: "s3_deadline (w_store v) = s3_deadline (w_store w)" "s3_inv (w_store v)"
    if "objects (w_store v) = objects (w_store w)"
    using that assms(2) by (auto simp: s3_deadline_def s3_inv_def fun_eq_iff)
  have d2: "s3_deadline (w_store v) = (s3_deadline (w_store w))
        (n := (case Date_parse_value (jget m ''lockUntil'') of Fin u \<Rightarrow> Some u | _ \<Rightarrow> None))" "s3_inv (w_store v)"
    if "objects (w_store v) = (objects (w_store w))(s3_bucket cfg := (objects (w_store w) (s3_bucket cfg))
          (S3_objectKey cfg n := Some (e', m)))" for e'
    using that assms(2,3) by (auto simp: s3_deadline_def s3_inv_def fun_eq_iff)
  show "ClockProvider_now w' = ClockProvider_now w" using p w' by simp
  show "s3_inv (w_store w')" using p d1 d2 w' by blast
  show "s3_deadline (w_store w') = s3_deadline (w_store w) \<and> r \<noteq> Inr True \<or>
     r \<noteq> Inr False \<and> s3_deadline (w_store w') = (s3_deadline (w_store w))
        (n := (case Date_parse_value (jget m ''lockUntil'') of Fin u \<Rightarrow> Some u | _ \<Rightarrow> None)) \<and>
     (inm = Some ''*'' \<longrightarrow> objects (w_store w) (s3_bucket cfg) (S3_objectKey cfg n) = None) \<and>
     (\<forall>e. im = Some e \<longrightarrow> (\<exists>m'. objects (w_store w) (s3_bucket cfg) (S3_objectKey cfg n) = Some (e, m')))"
    using p
  proof (elim conjE disjE exE)
    fix x assume "objects (w_store v) = objects (w_store w)" "q = Inl x"
    then show ?thesis using d1 w' r by auto
  next
    fix e' assume "inm = Some ''*'' \<longrightarrow> objects (w_store w) (s3_bucket cfg) (S3_objectKey cfg n) = None"
      "\<forall>e. im = Some e \<longrightarrow> (\<exists>m'. objects (w_store w) (s3_bucket cfg) (S3_objectKey cfg n) = Some (e, m'))"
      "\<forall>x. q = Inl x \<longrightarrow> \<not> S3_isConditionalWriteFailed x"
      "objects (w_store v) = (objects (w_store w))(s3_bucket cfg := (objects (w_store w) (s3_bucket cfg))
          (S3_objectKey cfg n := Some (e', m)))"
    then show ?thesis using d2 w' r by (auto split: sum.splits if_splits)
  qed
qed

lemma buildMetadata_ok:
  assumes "date_config c" "lockAtMostUntil c = Fin (of_int u)" "date_range u"
  shows "\<exists>m. S3_buildMetadata host c = Inr m \<and> record_ok m \<and> jget m ''lockUntil'' = JStr (iso_string u)"
proof -
  obtain a where a: "createdAt c = Fin (of_int a)" "date_range a" using assms(1) by (rule date_configE)
  then show ?thesis using assms(2,3)
    by (simp add: S3_buildMetadata_def record_ok_metadata) (simp add: S3_metadata_def)
qed

lemma deadline_at:
  assumes "objects s (s3_bucket cfg) (S3_objectKey cfg n) = Some (e, m)" "record_ok m"
  obtains t where "date_range t" "s3_deadline s n = Some (of_int t)"
    "S3_getMetadataValue m ''lockUntil'' = JStr (iso_string t)" "S3_parseLockUntil m = Inr (Fin (of_int t))"
proof -
  obtain t where "date_range t" "S3_getMetadataValue m ''lockUntil'' = JStr (iso_string t)"
    "S3_parseLockUntil m = Inr (Fin (of_int t))" "jget m ''lockUntil'' = JStr (iso_string t)"
    using assms(2) by (rule record_ok_simps)
  with assms(1) show ?thesis by (intro that [of t]) (simp_all add: s3_deadline_def)
qed

lemma insert_laws:
  assumes "run h (S3_insertRecord host cfg c) w = (r, w')" "date_config c" "s3_inv (w_store w)"
  shows "s3_inv (w_store w') \<and> ClockProvider_now w' = ClockProvider_now w \<and>
    keeps t (s3_deadline (w_store w)) (s3_deadline (w_store w')) \<and>
    (r = Inr True \<longrightarrow> free (s3_deadline (w_store w)) (cfg_name c) t \<and> recorded (s3_deadline (w_store w')) c)"
proof -
  obtain u where u: "lockAtMostUntil c = Fin (of_int u)" "date_range u" using assms(2) by (rule date_configE)
  obtain m where m: "S3_buildMetadata host c = Inr m" "record_ok m" "jget m ''lockUntil'' = JStr (iso_string u)"
    using buildMetadata_ok [OF assms(2) u] by blast
  obtain q v where q: "run h (S3_headObject cfg (cfg_name c)) w = (q, v)" by fastforce
  note hd = run_head [OF q assms(3)]
  show ?thesis
  proof (cases "q = Inr None")
    case True
    then have p: "run h (S3_put cfg (cfg_name c) m (Some ''*'') None) w = (r, w')"
      using assms(1) q hd(1) by (simp add: S3_insertRecord_def run_await m(1))
    have f: "free (s3_deadline (w_store w)) (cfg_name c) t"
      using hd(2) [OF True] by (simp add: s3_deadline_def free_def)
    show ?thesis
      using run_put [OF p assms(3) m(2)] f keeps_upd [OF f] by (auto simp: m(3) u recorded_Fin)
  next
    case False
    then have "w' = w" "r \<noteq> Inr True" using assms(1) q hd(1)
      by (auto simp: S3_insertRecord_def run_await split: sum.splits if_splits)
    then show ?thesis using assms(3) by simp
  qed
qed

lemma update_laws:
  assumes "run h (S3_updateRecord host cfg c) w = (r, w')" "date_config c" "s3_inv (w_store w)"
    "ClockProvider_now w = Fin t"
  shows "s3_inv (w_store w') \<and> ClockProvider_now w' = ClockProvider_now w \<and>
    keeps t (s3_deadline (w_store w)) (s3_deadline (w_store w')) \<and>
    (r = Inr True \<longrightarrow> free (s3_deadline (w_store w)) (cfg_name c) t \<and> recorded (s3_deadline (w_store w')) c)"
proof -
  obtain u where u: "lockAtMostUntil c = Fin (of_int u)" "date_range u" using assms(2) by (rule date_configE)
  obtain m where m: "S3_buildMetadata host c = Inr m" "record_ok m" "jget m ''lockUntil'' = JStr (iso_string u)"
    using buildMetadata_ok [OF assms(2) u] by blast
  obtain q v where q: "run h (S3_headObject cfg (cfg_name c)) w = (q, v)" by fastforce
  note hd = run_head [OF q assms(3)]
  show ?thesis
  proof (cases "\<exists>e md. q = Inr (Some (e, md))")
    case True
    then obtain e md where e: "q = Inr (Some (e, md))" by blast
    obtain s where s: "s3_deadline (w_store w) (cfg_name c) = Some (of_int s)" "S3_parseLockUntil md = Inr (Fin (of_int s))"
      using deadline_at [OF conjunct1 [OF hd(3) [OF e]] conjunct2 [OF hd(3) [OF e]]] by blast
    show ?thesis
    proof (cases "of_int s \<le> t")
      case True
      then have p: "run h (S3_put cfg (cfg_name c) m None (Some e)) w = (r, w')"
        using assms(1,4) q hd(1) e by (simp add: S3_updateRecord_def run_await m(1) s(2))
      have f: "free (s3_deadline (w_store w)) (cfg_name c) t" using s(1) True by (simp add: free_def)
      show ?thesis
        using run_put [OF p assms(3) m(2)] f keeps_upd [OF f] by (auto simp: m(3) u recorded_Fin)
    next
      case False
      then have "w' = w" "r = Inr False"
        using assms(1,4) q hd(1) e by (simp_all add: S3_updateRecord_def run_await s(2))
      then show ?thesis using assms(3) by simp
    qed
  next
    case False
    then have "w' = w" "r \<noteq> Inr True" using assms(1) q hd(1)
      by (auto simp: S3_updateRecord_def run_await split: sum.splits option.splits)
    then show ?thesis using assms(3) by simp
  qed
qed

lemma keeps_but_put:
  assumes "run h (S3_put cfg n m None (Some e)) w = (r, w')" "s3_inv (w_store w)" "record_ok m"
    "s3_deadline (w_store w) n = Some x"
  shows "s3_inv (w_store w') \<and> ClockProvider_now w' = ClockProvider_now w \<and>
    keeps_but n x t (s3_deadline (w_store w)) (s3_deadline (w_store w'))"
  using run_put [OF assms(1-3)] keeps_but_upd [of "s3_deadline (w_store w)" n x, OF assms(4)] by auto

lemma unlock_laws:
  assumes "run h (S3_unlock host cfg c) w = (r, w')" "date_config c" "s3_inv (w_store w)"
    "lockAtMostUntil c = Fin x"
  shows "s3_inv (w_store w') \<and> ClockProvider_now w' = ClockProvider_now w \<and>
    keeps_but (cfg_name c) x t (s3_deadline (w_store w)) (s3_deadline (w_store w'))"
proof -
  obtain u where u: "lockAtMostUntil c = Fin (of_int u)" "date_range u" using assms(2) by (rule date_configE)
  obtain q v where q: "run h (S3_headObject cfg (cfg_name c)) w = (q, v)" by fastforce
  note hd = run_head [OF q assms(3)]
  show ?thesis
  proof (cases "w' = w")
    case True
    then show ?thesis using assms(3) by simp
  next
    case nw: False
    then obtain e md where e: "q = Inr (Some (e, md))"
      using assms(1) q hd(1) by (auto simp: S3_unlock_def run_await split: sum.splits option.splits)
    obtain s where s: "s3_deadline (w_store w) (cfg_name c) = Some (of_int s)" "date_range s"
      "S3_getMetadataValue md ''lockUntil'' = JStr (iso_string s)"
      using deadline_at [OF conjunct1 [OF hd(3) [OF e]] conjunct2 [OF hd(3) [OF e]]] by blast
    have "s = u"
      using assms(1) q hd(1) e nw by (auto simp: S3_unlock_def run_await s(2,3) u split: if_splits)
    obtain until la lb r2 where p: "run h (S3_put cfg (cfg_name c) (S3_metadata (JStr until) la lb) None (Some e)) w = (r2, w')"
      and un: "Utils_toIsoString (unlockTime (ClockProvider_now w) c) = Inr until"
      using assms(1) q hd(1) e nw
      by (auto simp: S3_unlock_def run_await run_sync split: if_splits sum.splits prod.splits)
    obtain y where "date_range y" "until = iso_string y" using un by (rule Utils_toIsoString_InrE)
    then have "record_ok (S3_metadata (JStr until) la lb)" by (simp add: record_ok_metadata)
    from keeps_but_put [OF p assms(3) this s(1)] show ?thesis using assms(4) u \<open>s = u\<close> by simp
  qed
qed

lemma extend_laws:
  assumes "run h (S3_extend host cfg c (Some (Fin x))) w = (r, w')" "date_config c" "date_config p"
    "lockAtMostUntil p = Fin x" "s3_inv (w_store w)" "ClockProvider_now w = Fin t"
  shows "s3_inv (w_store w') \<and> ClockProvider_now w' = ClockProvider_now w \<and>
    keeps_but (cfg_name c) x t (s3_deadline (w_store w)) (s3_deadline (w_store w')) \<and>
    (r = Inr False \<longrightarrow> keeps t (s3_deadline (w_store w)) (s3_deadline (w_store w'))) \<and>
    (r = Inr True \<longrightarrow> s3_deadline (w_store w) (cfg_name c) = Some x \<and> t < x \<and> recorded (s3_deadline (w_store w')) c)"
proof -
  obtain u where u: "lockAtMostUntil c = Fin (of_int u)" "date_range u" using assms(2) by (rule date_configE)
  obtain v where v': "lockAtMostUntil p = Fin (of_int v)" "date_range v"
    using assms(3) by (rule date_configE)
  then have v: "x = of_int v" "date_range v" using assms(4) by simp_all
  obtain q w1 where q: "run h (S3_headObject cfg (cfg_name c)) w = (q, w1)" by fastforce
  note hd = run_head [OF q assms(5)]
  show ?thesis
  proof (cases "w' = w \<and> r \<noteq> Inr True")
    case True
    then show ?thesis using assms(5) by simp
  next
    case nw: False
    then obtain e md where e: "q = Inr (Some (e, md))"
      using assms(1) q hd(1) by (auto simp: S3_extend_def run_await split: sum.splits option.splits)
    obtain s where s: "s3_deadline (w_store w) (cfg_name c) = Some (of_int s)" "date_range s"
      "S3_getMetadataValue md ''lockUntil'' = JStr (iso_string s)" "S3_parseLockUntil md = Inr (Fin (of_int s))"
      using deadline_at [OF conjunct1 [OF hd(3) [OF e]] conjunct2 [OF hd(3) [OF e]]] by blast
    have sv: "s = v" "t < of_int s"
      using assms(1,6) q hd(1) e nw by (auto simp: S3_extend_def run_await s(2-4) v split: if_splits)
    obtain la lb where p: "run h (S3_put cfg (cfg_name c) (S3_metadata (JStr (iso_string u)) la lb) None (Some e)) w = (r, w')"
      using assms(1,6) q hd(1) e nw sv
      by (auto simp: S3_extend_def run_await run_sync s(2-4) v u split: if_splits sum.splits prod.splits)
    have ok: "record_ok (S3_metadata (JStr (iso_string u)) la lb)"
      "jget (S3_metadata (JStr (iso_string u)) la lb) ''lockUntil'' = JStr (iso_string u)"
      using u(2) by (simp_all add: record_ok_metadata) (simp add: S3_metadata_def)
    show ?thesis
      using keeps_but_put [OF p assms(5) ok(1) s(1)] run_put [OF p assms(5) ok(1)] sv
      by (auto simp: v s(1) u ok(2) recorded_Fin)
  qed
qed

end

sublocale s3_service \<subseteq> acc: storage_accessor h "S3StorageAccessor host cfg" s3_deadline "\<lambda>w. s3_inv (w_store w)" date_config
proof (unfold_locales, goal_cases)
  case (1 c)
  then show ?case by (rule date_configE) blast
next
  case (2 c w r w' t)
  then show ?case using insert_laws [of c w r w' t] by (simp add: S3StorageAccessor_def)
next
  case (3 c w r w' t)
  then show ?case using update_laws [of c w r w' t] by (simp add: S3StorageAccessor_def)
next
  case (4 c w r w' t u)
  then show ?case using unlock_laws [of c w r w' u t] by (simp add: S3StorageAccessor_def)
next
  case (5 c u w r w' p t)
  then show ?case using extend_laws [of c u w r w' p t] by (simp add: S3StorageAccessor_def)
qed

context s3_service
begin

lemma is_lease:
  "lease_provider (storage_handler h) (S3LockProvider_lock host cfg) (StorageLock_doUnlock (S3StorageAccessor host cfg))
    (StorageLock_doExtend (S3StorageAccessor host cfg)) (\<lambda>s. s3_deadline (backend s)) (\<lambda>w. s3_inv (w_store (backend_world w)))
    date_config (\<lambda>l. date_config (asl_config l))"
  unfolding S3LockProvider_lock_def by (rule acc.sb.lease_provider_axioms)

end

section \<open>A store that behaves as documented\<close>

text \<open>Objects with their ETags, a counter for fresh ETags.\<close>

type_synonym s3_store = "(string \<Rightarrow> string \<Rightarrow> (jsv \<times> jsv) option) \<times> nat"

definition s3_error :: "string \<Rightarrow> jsv" where
  "s3_error name = JErr ''S3ServiceException'' [(''name'', JStr name)]"

fun s3_store_handler :: "(s3_req, s3_store) handler" where
  "s3_store_handler (HeadObject b k) w = (case fst (w_store w) b k of
     None \<Rightarrow> (Inl (s3_error ''NotFound''), w)
   | Some (e, m) \<Rightarrow> (Inr (obj [(''ETag'', e), (''Metadata'', m)]), w))"
| "s3_store_handler (PutObject b k body m inm im) w =
     (if (inm = Some ''*'' \<longrightarrow> fst (w_store w) b k = None) \<and>
         (case im of None \<Rightarrow> True | Some e \<Rightarrow> map_option fst (fst (w_store w) b k) = Some e)
      then (Inr (obj []), w\<lparr>w_store := ((fst (w_store w))(b := (fst (w_store w) b)
              (k := Some (JNum (Fin (of_nat (snd (w_store w)))), m))), Suc (snd (w_store w)))\<rparr>)
      else (Inl (s3_error ''PreconditionFailed''), w))"

lemma s3_error_simps [simp]: "\<not> S3_isNotFound (s3_error ''PreconditionFailed'')" "S3_isNotFound (s3_error ''NotFound'')"
  "S3_isConditionalWriteFailed (s3_error ''PreconditionFailed'')"
  by (simp_all add: s3_error_def S3_isNotFound_def S3_isConditionalWriteFailed_def)

interpretation s3_store: s3_service s3_store_handler fst host cfg for host cfg
proof (unfold_locales, goal_cases)
  case (1 b k w r w')
  then show ?case by (auto split: option.splits)
next
  case (2 b k body m inm im w r w')
  then show ?case by (fastforce split: option.splits if_splits)
qed

section \<open>Properties\<close>



definition s3_world0 :: "s3_store storage_state world" where
  "s3_world0 = \<lparr>w_date = Fin 0, w_clock = None, w_store = \<lparr>registry = {}, backend = (\<lambda>_ _. None, 0)\<rparr>\<rparr>"

lemma s3_world0_simps [simp]: "registry (w_store s3_world0) = {}" "backend (w_store s3_world0) = (\<lambda>_ _. None, 0)"
  "ClockProvider_now s3_world0 = Fin 0" "w_store (backend_world s3_world0) = (\<lambda>_ _. None, 0)"
  by (simp_all add: s3_world0_def ClockProvider_now_def)



end
