(* ===== verification/Gcs.thy ===== *)
theory Gcs
  imports StorageBased Json
begin

text \<open>
  packages/gcs/src: the accessor over Google Cloud Storage.  As for S3 a record is the custom metadata of an
  object, and every write carries the generation (and metageneration) that was read as its precondition.
\<close>

datatype gcs_req =
    GetMetadata string string
  | Exists string string
  | Save (save_bucket: string) (save_key: string) (save_metadata: jsv) (save_ifGenerationMatch: jsnum)
      (save_ifMetagenerationMatch: "jsnum option")
  | SetMetadata (set_bucket: string) (set_key: string) (set_metadata: jsv) (set_ifGenerationMatch: jsnum)
      (set_ifMetagenerationMatch: jsnum)

record GcsProviderConfig =
  gcs_bucket :: string
  gcs_objectPrefix :: string
  gcs_lockedBy :: string

definition createGcsProviderConfig ::
  "string \<Rightarrow> string \<Rightarrow> string option \<Rightarrow> string option \<Rightarrow> jsv + GcsProviderConfig" where
  "createGcsProviderConfig hostname bucket objectPrefix lockedBy =
     (if bucket = [] then Inl (LockException ''bucket must be a non-empty string'')
      else Inr \<lparr>gcs_bucket = bucket,
                gcs_objectPrefix = (case objectPrefix of None \<Rightarrow> ''shedlock/'' | Some p \<Rightarrow> p),
                gcs_lockedBy = (case lockedBy of None \<Rightarrow> hostname | Some l \<Rightarrow> l)\<rparr>)"

section \<open>Errors (gcs-errors.ts)\<close>

definition Gcs_getCode :: "jsv \<Rightarrow> jsv" where
  "Gcs_getCode e =
     (if is_object e then (case nullish (jget e ''code'') (jget e ''status'') of JNum n \<Rightarrow> JNum n | _ \<Rightarrow> JUndef)
      else JUndef)"

definition Gcs_isNotFound :: "jsv \<Rightarrow> bool" where
  "Gcs_isNotFound e \<longleftrightarrow> strict_eq (Gcs_getCode e) (JNum (Fin 404))"

definition Gcs_isPreconditionFailed :: "jsv \<Rightarrow> bool" where
  "Gcs_isPreconditionFailed e \<longleftrightarrow> strict_eq (Gcs_getCode e) (JNum (Fin 412))"

section \<open>The accessor (gcs-storage-accessor.ts)\<close>

definition Gcs_objectKey :: "GcsProviderConfig \<Rightarrow> string \<Rightarrow> string" where
  "Gcs_objectKey cfg name = gcs_objectPrefix cfg @ name"

record gcs_object =
  generation :: jsnum
  metageneration :: jsnum
  gcs_metadata :: jsv

definition Gcs_getWithMetadata :: "GcsProviderConfig \<Rightarrow> string \<Rightarrow> (gcs_req, gcs_object option) prog" where
  "Gcs_getWithMetadata cfg name =
     try_request (GetMetadata (gcs_bucket cfg) (Gcs_objectKey cfg name))
       (\<lambda>metadata. Ret (Some
          \<lparr>generation = js_Number (nullish (jget metadata ''generation'') (JNum (Fin 0))),
           metageneration = js_Number (nullish (jget metadata ''metageneration'') (JNum (Fin 0))),
           gcs_metadata = nullish (jget metadata ''metadata'') (obj [])\<rparr>))
       (\<lambda>e. if Gcs_isNotFound e then Ret None else Raise e)"

definition Gcs_parseLockUntil :: "jsv \<Rightarrow> jsv + jsnum" where
  "Gcs_parseLockUntil metadata = (let raw = jget metadata ''lockUntil'' in
     if \<not> truthy raw then Inl (LockException ''Corrupted lock record: missing lockUntil'')
     else (let ms = Date_parse_value raw in
       if ms = NaN
       then Inl (LockException (''Corrupted lock record: unparseable lockUntil '' @ [CHR 0x27] @ js_String raw @ [CHR 0x27]))
       else Inr ms))"

definition Gcs_metadata :: "jsv \<Rightarrow> jsv \<Rightarrow> jsv \<Rightarrow> jsv \<Rightarrow> jsv" where
  "Gcs_metadata lockUntil lockedAt lockedBy lockName =
     obj [(''lockUntil'', lockUntil), (''lockedAt'', lockedAt), (''lockedBy'', lockedBy), (''lockName'', lockName)]"

definition Gcs_buildMetadata :: "GcsProviderConfig \<Rightarrow> LockConfiguration \<Rightarrow> jsv + jsv" where
  "Gcs_buildMetadata cfg config = (case Utils_toIsoString (lockAtMostUntil config) of Inl e \<Rightarrow> Inl e | Inr u \<Rightarrow>
     (case Utils_toIsoString (createdAt config) of Inl e \<Rightarrow> Inl e | Inr a \<Rightarrow>
        Inr (Gcs_metadata (JStr u) (JStr a) (JStr (gcs_lockedBy cfg)) (JStr (cfg_name config)))))"

definition Gcs_write :: "gcs_req \<Rightarrow> (gcs_req, bool) prog" where
  "Gcs_write q = try_request q (\<lambda>_. Ret True)
     (\<lambda>e. if Gcs_isPreconditionFailed e then Ret False else Raise e)"

definition Gcs_insertRecord :: "GcsProviderConfig \<Rightarrow> LockConfiguration \<Rightarrow> (gcs_req, bool) prog" where
  "Gcs_insertRecord cfg config = (let key = Gcs_objectKey cfg (cfg_name config) in
     request (Exists (gcs_bucket cfg) key) (\<lambda>found.
       if truthy found then Ret False
       else sync (Gcs_buildMetadata cfg config) (\<lambda>md. Gcs_write (Save (gcs_bucket cfg) key md (Fin 0) None))))"

definition Gcs_updateRecord :: "GcsProviderConfig \<Rightarrow> LockConfiguration \<Rightarrow> (gcs_req, bool) prog" where
  "Gcs_updateRecord cfg config =
     await (Gcs_getWithMetadata cfg (cfg_name config)) (\<lambda>current. case current of
       None \<Rightarrow> Raise (LockException (''Lock record not found: '' @ cfg_name config))
     | Some c \<Rightarrow>
         sync (Gcs_parseLockUntil (gcs_metadata c)) (\<lambda>lockUntil. Now (\<lambda>now.
           if js_lt now lockUntil then Ret False
           else sync (Gcs_buildMetadata cfg config) (\<lambda>md.
             Gcs_write (Save (gcs_bucket cfg) (Gcs_objectKey cfg (cfg_name config)) md (generation c)
                          (Some (metageneration c)))))))"

definition Gcs_unlock :: "GcsProviderConfig \<Rightarrow> LockConfiguration \<Rightarrow> (gcs_req, unit) prog" where
  "Gcs_unlock cfg config =
     await (Gcs_getWithMetadata cfg (cfg_name config)) (\<lambda>current. case current of
       None \<Rightarrow> Ret ()
     | Some c \<Rightarrow>
         if \<not> strict_eq (jget (gcs_metadata c) ''lockedBy'') (JStr (gcs_lockedBy cfg)) then Ret ()
         else sync (Utils_toIsoString (lockAtMostUntil config)) (\<lambda>mine.
           if \<not> strict_eq (jget (gcs_metadata c) ''lockUntil'') (JStr mine) then Ret ()
           else Now (\<lambda>now.
             sync (Utils_toIsoString (unlockTime now config)) (\<lambda>until.
             sync (case nullish (jget (gcs_metadata c) ''lockedAt'') JUndef of
                     JUndef \<Rightarrow> map_sum id JStr (Utils_toIsoString (createdAt config)) | a \<Rightarrow> Inr a) (\<lambda>lockedAt.
             await (Gcs_write (SetMetadata (gcs_bucket cfg) (Gcs_objectKey cfg (cfg_name config))
                      (Gcs_metadata (JStr until) lockedAt
                         (nullish (jget (gcs_metadata c) ''lockedBy'') (JStr (gcs_lockedBy cfg)))
                         (nullish (jget (gcs_metadata c) ''lockName'') (JStr (cfg_name config))))
                      (generation c) (metageneration c))) (\<lambda>_. Ret ()))))))"

definition Gcs_extend :: "GcsProviderConfig \<Rightarrow> LockConfiguration \<Rightarrow> jsnum option \<Rightarrow> (gcs_req, bool) prog" where
  "Gcs_extend cfg config previousLockAtMostUntil =
     await (Gcs_getWithMetadata cfg (cfg_name config)) (\<lambda>current. case current of
       None \<Rightarrow> Ret False
     | Some c \<Rightarrow>
         sync (Gcs_parseLockUntil (gcs_metadata c)) (\<lambda>lockUntil.
         if \<not> strict_eq (jget (gcs_metadata c) ''lockedBy'') (JStr (gcs_lockedBy cfg)) then Ret False
         else Now (\<lambda>now. if js_le lockUntil now then Ret False
         else sync (case previousLockAtMostUntil of
                      None \<Rightarrow> Inr True
                    | Some p \<Rightarrow> map_sum id (\<lambda>s. strict_eq (jget (gcs_metadata c) ''lockUntil'') (JStr s)) (Utils_toIsoString p))
           (\<lambda>same. if \<not> same then Ret False
         else sync (Utils_toIsoString (lockAtMostUntil config)) (\<lambda>until.
              Gcs_write (SetMetadata (gcs_bucket cfg) (Gcs_objectKey cfg (cfg_name config))
                (Gcs_metadata (JStr until) (jget (gcs_metadata c) ''lockedAt'') (jget (gcs_metadata c) ''lockedBy'')
                   (jget (gcs_metadata c) ''lockName''))
                (generation c) (metageneration c)))))))"

definition GcsStorageAccessor :: "GcsProviderConfig \<Rightarrow> gcs_req StorageAccessor" where
  "GcsStorageAccessor cfg =
     \<lparr>acc_insertRecord = Gcs_insertRecord cfg, acc_updateRecord = Gcs_updateRecord cfg,
      acc_unlock = Gcs_unlock cfg, acc_extend = Gcs_extend cfg\<rparr>"

definition GcsLockProvider_lock :: "GcsProviderConfig \<Rightarrow> LockConfiguration \<Rightarrow> (gcs_req storage_req, unit asl option) prog" where
  "GcsLockProvider_lock cfg config = StorageBasedLockProvider_lock (GcsStorageAccessor cfg) config"

definition GcsLockProvider_clearCache :: "string \<Rightarrow> (gcs_req storage_req, unit) prog" where
  "GcsLockProvider_clearCache name = StorageBasedLockProvider_clearCache name"

section \<open>Properties\<close>

text \<open>
  Over any service, \<open>updateRecord\<close> of the GCS accessor returns true only after it read a record whose
  deadline has passed by its clock and the service accepted the new record under the precondition that generation
  and metageneration are those read: it never overwrites a record that changed in between.
\<close>

theorem Gcs_update_guarded:
  assumes "run h (Gcs_updateRecord cfg config) w = (Inr True, w')"
  shows "\<exists>v w1 u md x. h (GetMetadata (gcs_bucket cfg) (Gcs_objectKey cfg (cfg_name config))) w = (Inr v, w1) \<and>
    Gcs_parseLockUntil (nullish (jget v ''metadata'') (obj [])) = Inr u \<and> \<not> js_lt (ClockProvider_now w1) u \<and>
    Gcs_buildMetadata cfg config = Inr md \<and>
    h (Save (gcs_bucket cfg) (Gcs_objectKey cfg (cfg_name config)) md
         (js_Number (nullish (jget v ''generation'') (JNum (Fin 0))))
         (Some (js_Number (nullish (jget v ''metageneration'') (JNum (Fin 0)))))) w1 = (Inr x, w')"
  using assms
  by (auto simp: Gcs_updateRecord_def Gcs_getWithMetadata_def Gcs_write_def run_await run_sync
      split: prod.splits sum.splits option.splits if_splits)

theorem Gcs_update_guarded_witness:
  "\<exists>u. Gcs_parseLockUntil (obj [(''lockUntil'', JStr (iso_string 0))]) = Inr u \<and> \<not> js_lt (Fin 5) u"
proof -
  let ?cfg = "\<lparr>gcs_bucket = ''b'', gcs_objectPrefix = ''p/'', gcs_lockedBy = ''me''\<rparr>"
  let ?v = "obj [(''generation'', JNum (Fin 7)), (''metageneration'', JNum (Fin 1)),
     (''metadata'', obj [(''lockUntil'', JStr (iso_string 0))])]"
  have t: "iso_string 0 \<noteq> []" using Date_parse_date [of 0] by (auto simp: Date_parse_def date_range_def)
  have "run scripted (Gcs_updateRecord ?cfg job_config) (script_world 5 [Inr ?v, Inr JUndef]) = (Inr True, script_world 5 [])"
    using Utils_toIsoString_date [of 100] Utils_toIsoString_date [of 0] Date_parse_date [of 0]
    by (simp add: Gcs_updateRecord_def Gcs_getWithMetadata_def Gcs_parseLockUntil_def t Gcs_buildMetadata_def
        Gcs_write_def date_range_def Let_def)
  from Gcs_update_guarded [OF this] show ?thesis by auto
qed

end
