(* ===== verification/DynamoDB.thy ===== *)
theory DynamoDB
  imports Lease Json
begin

text \<open>
  packages/dynamodb/src: every operation is one conditional \<open>UpdateItem\<close>; the condition compares ISO strings, so the
  service compares deadlines as strings.  \<open>dynamodb_service\<close> states what the service documents
  about the expressions the code sends; with times in the years 0 to 9999, where the string order is the order of
  times (\<open>IsoDate\<close>), the provider is a \<open>lease_provider\<close>.
\<close>

section \<open>Options and requests\<close>

record dynamo_options =
  dy_tableName :: string
  dy_partitionKey :: string
  dy_sortKey :: "(string \<times> string) option"

definition Dynamo_validateOptions :: "string \<Rightarrow> string option \<Rightarrow> (string \<times> string) option \<Rightarrow> jsv + dynamo_options" where
  "Dynamo_validateOptions tableName partitionKey sortKey =
     (if tableName = [] then Inl (LockException ''DynamoDBConfiguration: tableName is required'')
      else Inr \<lparr>dy_tableName = tableName,
                dy_partitionKey = (case partitionKey of None \<Rightarrow> ''_id'' | Some k \<Rightarrow> k), dy_sortKey = sortKey\<rparr>)"

text \<open>Attributes and expression values are of type S (strings).\<close>

type_synonym attrs = "string \<Rightarrow> string option"



section \<open>The accessor (dynamodb-accessor.ts)\<close>













section \<open>The service\<close>




section \<open>A table that behaves as documented\<close>

type_synonym dynamo_store = "string \<Rightarrow> (string \<times> string) list \<Rightarrow> attrs"






section \<open>Properties\<close>


definition dy_world0 :: "dynamo_store world" where
  "dy_world0 = \<lparr>w_date = Fin 0, w_clock = None, w_store = (\<lambda>_ _ _. None)\<rparr>"

lemma dy_world0_simps [simp]: "w_store dy_world0 = (\<lambda>_ _ _. None)" "ClockProvider_now dy_world0 = Fin 0"
  by (simp_all add: dy_world0_def ClockProvider_now_def)




end
