(* ===== verification/Columns.thy ===== *)
theory Columns
  imports Json
begin

text \<open>
  What the database providers share: the names of the four columns, defaults, checks in sequence, and the identifiers
  that pass \<open>validateIdentifier\<close>.
\<close>

record ColumnNames =
  cn_name :: string
  cn_lockUntil :: string
  cn_lockedAt :: string
  cn_lockedBy :: string

text \<open>Checks in sequence; the first failure is thrown.\<close>

definition also_check :: "jsv + unit \<Rightarrow> jsv + 'a \<Rightarrow> jsv + 'a" where
  "also_check a b = (case a of Inl e \<Rightarrow> Inl e | Inr _ \<Rightarrow> b)"

definition opt_or :: "string option \<Rightarrow> string \<Rightarrow> string" where
  "opt_or x d = (case x of None \<Rightarrow> d | Some v \<Rightarrow> v)"

text \<open>A name in back quotes.\<close>

definition bq :: "string \<Rightarrow> string" where
  "bq s = CHR 0x60 # s @ [CHR 0x60]"

lemma also_check_Inr [simp]: "also_check a b = Inr x \<longleftrightarrow> a = Inr () \<and> b = Inr x"
  by (auto simp: also_check_def split: sum.splits)

lemma validateIdentifier_Inr: "validateIdentifier v l = Inr () \<longleftrightarrow> IDENTIFIER_RE_test v"
  by (auto simp: validateIdentifier_def IDENTIFIER_RE_test_def)

lemma id_char_plain: "is_id_start c \<or> is_digit c \<Longrightarrow> c \<noteq> CHR 0x60 \<and> c \<noteq> CHR 0x22 \<and> c \<noteq> CHR '' '' \<and> c \<noteq> CHR ''$''"
  by (auto simp: is_id_start_def is_digit_def Let_def)

lemma identifier_plain:
  assumes "IDENTIFIER_RE_test s"
  shows "CHR 0x60 \<notin> set s" "CHR 0x22 \<notin> set s" "CHR '' '' \<notin> set s" "CHR ''$'' \<notin> set s" "s \<noteq> []"
proof -
  have "\<forall>c \<in> set s. is_id_start c \<or> is_digit c"
    using assms by (auto simp: IDENTIFIER_RE_test_def list_all_iff split: list.splits)
  then show "CHR 0x60 \<notin> set s" "CHR 0x22 \<notin> set s" "CHR '' '' \<notin> set s" "CHR ''$'' \<notin> set s"
    using id_char_plain by blast+
  show "s \<noteq> []" using assms by (auto simp: IDENTIFIER_RE_test_def)
qed

lemma count_plain: "CHR 0x60 \<notin> set s \<Longrightarrow> length (filter (\<lambda>c. c = CHR 0x60) s) = 0"
  by (auto simp: filter_empty_conv)

end
