(* ===== verification/Couchbase.thy ===== *)
theory Couchbase
  imports StorageBased Columns
begin

text \<open>
  packages/couchbase/src: one document per lock, written with the CAS value that was read.  \<open>couchbase_service\<close> states
  what the collection documents, \<open>couchbase_live\<close> that it also answers; the accessor is then a \<open>storage_accessor\<close>
  and a \<open>live_storage_accessor\<close>.  Deadlines are stored as numbers, so no range of dates is needed.
\<close>

section \<open>Options (couchbase-lock-provider.ts, document-id.ts)\<close>

record CouchbaseOptions =
  cb_documentIdPrefix :: string
  cb_nameCol :: string
  cb_lockUntilCol :: string
  cb_lockedAtCol :: string
  cb_lockedByCol :: string
  cb_lockedByValue :: string

text \<open>\<open>columns\<close> are the defined properties of \<open>options.columnNames\<close>.\<close>

definition Couchbase_resolveOptions ::
  "string option \<Rightarrow> (string \<Rightarrow> string option) \<Rightarrow> string option \<Rightarrow> CouchbaseOptions" where
  "Couchbase_resolveOptions prefix columns lockedBy =
     \<lparr>cb_documentIdPrefix = opt_or prefix ''shedlock:'',
      cb_nameCol = opt_or (columns ''name'') ''name'',
      cb_lockUntilCol = opt_or (columns ''lockUntil'') ''lockUntil'',
      cb_lockedAtCol = opt_or (columns ''lockedAt'') ''lockedAt'',
      cb_lockedByCol = opt_or (columns ''lockedBy'') ''lockedBy'',
      cb_lockedByValue = opt_or lockedBy ''unknown''\<rparr>"

definition MAX_DOCUMENT_ID_LENGTH :: nat where
  "MAX_DOCUMENT_ID_LENGTH = 250"

definition buildDocumentId :: "string \<Rightarrow> string option \<Rightarrow> jsv + string" where
  "buildDocumentId name documentIdPrefix =
     (let i = opt_or documentIdPrefix ''shedlock:'' @ name in
      if utf8_length (code_points i) > MAX_DOCUMENT_ID_LENGTH
      then Inl (LockException (''Document ID too long ('' @ show_nat (utf8_length (code_points i)) @ '' > '' @
                  show_nat MAX_DOCUMENT_ID_LENGTH @ '' bytes)''))
      else Inr i)"

section \<open>The accessor (couchbase-storage-accessor.ts)\<close>

datatype couchbase_req =
    CbInsert string jsv
  | CbGet string
  | CbReplace string jsv jsv

text \<open>The constructor: the default value of \<open>lockedByValue\<close> stands for the host name.\<close>

definition Couchbase_lockedBy :: "string \<Rightarrow> CouchbaseOptions \<Rightarrow> string" where
  "Couchbase_lockedBy hostname opts = (if cb_lockedByValue opts = ''unknown'' then hostname else cb_lockedByValue opts)"

definition Couchbase_docId :: "CouchbaseOptions \<Rightarrow> string \<Rightarrow> jsv + string" where
  "Couchbase_docId opts name = buildDocumentId name (Some (cb_documentIdPrefix opts))"

definition Couchbase_document :: "string \<Rightarrow> CouchbaseOptions \<Rightarrow> LockConfiguration \<Rightarrow> jsnum \<Rightarrow> jsv" where
  "Couchbase_document hostname opts config now = mk_obj
     [(cb_nameCol opts, JStr (cfg_name config)), (cb_lockUntilCol opts, JNum (lockAtMostUntil config)),
      (cb_lockedAtCol opts, JNum now), (cb_lockedByCol opts, JStr (Couchbase_lockedBy hostname opts))]"

definition is_cas_mismatch :: "jsv \<Rightarrow> bool" where
  "is_cas_mismatch e \<longleftrightarrow> instanceof e ''CasMismatchError''"

definition Couchbase_insertRecord :: "string \<Rightarrow> CouchbaseOptions \<Rightarrow> LockConfiguration \<Rightarrow> (couchbase_req, bool) prog" where
  "Couchbase_insertRecord hostname opts config =
     sync (Couchbase_docId opts (cfg_name config)) (\<lambda>i. Now (\<lambda>now.
       request_unless (\<lambda>e. instanceof e ''DocumentExistsError'')
         (CbInsert i (Couchbase_document hostname opts config now)) True False))"

definition Couchbase_updateRecord :: "string \<Rightarrow> CouchbaseOptions \<Rightarrow> LockConfiguration \<Rightarrow> (couchbase_req, bool) prog" where
  "Couchbase_updateRecord hostname opts config =
     sync (Couchbase_docId opts (cfg_name config)) (\<lambda>i.
       request (CbGet i) (\<lambda>getResult.
         let existing = jget getResult ''content'' in
         Now (\<lambda>now. if js_lt now (js_Number (jget existing (cb_lockUntilCol opts))) then Ret False
           else Now (\<lambda>now2. request_unless is_cas_mismatch
                  (CbReplace i (Couchbase_document hostname opts config now2) (jget getResult ''cas'')) True False))))"

definition Couchbase_unlock :: "string \<Rightarrow> CouchbaseOptions \<Rightarrow> LockConfiguration \<Rightarrow> (couchbase_req, unit) prog" where
  "Couchbase_unlock hostname opts config =
     sync (Couchbase_docId opts (cfg_name config)) (\<lambda>i.
       try_request (CbGet i)
         (\<lambda>getResult.
            let existing = jget getResult ''content'' in
            if \<not> strict_eq (jget existing (cb_lockedByCol opts)) (JStr (Couchbase_lockedBy hostname opts)) then Ret ()
            else if \<not> strict_eq (jget existing (cb_lockUntilCol opts)) (JNum (lockAtMostUntil config)) then Ret ()
            else Now (\<lambda>now. request_unless is_cas_mismatch
              (CbReplace i (obj (spread (own_props existing) [(cb_lockUntilCol opts, JNum (unlockTime now config))]))
                 (jget getResult ''cas'')) () ()))
         (\<lambda>e. if instanceof e ''DocumentNotFoundError'' then Ret () else Raise e))"

definition Couchbase_extend ::
  "string \<Rightarrow> CouchbaseOptions \<Rightarrow> LockConfiguration \<Rightarrow> jsnum option \<Rightarrow> (couchbase_req, bool) prog" where
  "Couchbase_extend hostname opts config previousLockAtMostUntil = (case previousLockAtMostUntil of
     None \<Rightarrow> Ret False
   | Some previous \<Rightarrow>
       sync (Couchbase_docId opts (cfg_name config)) (\<lambda>i.
         try_request (CbGet i)
           (\<lambda>getResult.
              let existing = jget getResult ''content''; current = jget existing (cb_lockUntilCol opts) in
              if \<not> strict_eq (jget existing (cb_lockedByCol opts)) (JStr (Couchbase_lockedBy hostname opts)) then Ret False
              else if \<not> strict_eq current (JNum previous) then Ret False
              else Now (\<lambda>now. if js_le (js_Number current) now then Ret False
                else request_unless is_cas_mismatch
                  (CbReplace i (obj (spread (own_props existing) [(cb_lockUntilCol opts, JNum (lockAtMostUntil config))]))
                     (jget getResult ''cas'')) True False))
           (\<lambda>e. if instanceof e ''DocumentNotFoundError'' then Ret False else Raise e)))"

definition CouchbaseStorageAccessor :: "string \<Rightarrow> CouchbaseOptions \<Rightarrow> couchbase_req StorageAccessor" where
  "CouchbaseStorageAccessor hostname opts =
     \<lparr>acc_insertRecord = Couchbase_insertRecord hostname opts, acc_updateRecord = Couchbase_updateRecord hostname opts,
      acc_unlock = Couchbase_unlock hostname opts, acc_extend = Couchbase_extend hostname opts\<rparr>"

definition CouchbaseLockProvider_lock ::
  "string \<Rightarrow> CouchbaseOptions \<Rightarrow> LockConfiguration \<Rightarrow> (couchbase_req storage_req, unit asl option) prog" where
  "CouchbaseLockProvider_lock hostname opts config =
     StorageBasedLockProvider_lock (CouchbaseStorageAccessor hostname opts) config"

definition CouchbaseLockProvider_clearCache :: "string \<Rightarrow> (couchbase_req storage_req, unit) prog" where
  "CouchbaseLockProvider_clearCache name = StorageBasedLockProvider_clearCache name"

section \<open>The collection\<close>

text \<open>
  Documents with their CAS values.  A request may be rejected at any time, even after it took effect, but the two
  error classes the code tests for mean that nothing was changed.
\<close>

locale couchbase_service =
  fixes h :: "(couchbase_req, 's) handler"
    and docs :: "'s \<Rightarrow> string \<Rightarrow> (jsv \<times> jsv) option"
    and host :: string
    and opts :: CouchbaseOptions
  assumes cb_insert: "h (CbInsert k v) w = (r, w') \<Longrightarrow> ClockProvider_now w' = ClockProvider_now w \<and>
      (docs (w_store w') = docs (w_store w) \<and> (\<exists>x. r = Inl x) \<or>
       docs (w_store w) k = None \<and> (\<exists>c. docs (w_store w') = (docs (w_store w))(k \<mapsto> (v, c))) \<and>
       (\<forall>x. r = Inl x \<longrightarrow> \<not> instanceof x ''DocumentExistsError''))"
    and cb_get: "h (CbGet k) w = (r, w') \<Longrightarrow> w' = w \<and>
      (\<forall>v. r = Inr v \<longrightarrow> docs (w_store w) k = Some (jget v ''content'', jget v ''cas''))"
    and cb_replace: "h (CbReplace k v c) w = (r, w') \<Longrightarrow> ClockProvider_now w' = ClockProvider_now w \<and>
      (docs (w_store w') = docs (w_store w) \<and> (\<exists>x. r = Inl x) \<or>
       (\<exists>d. docs (w_store w) k = Some (d, c)) \<and> (\<exists>c'. docs (w_store w') = (docs (w_store w))(k \<mapsto> (v, c'))) \<and>
       (\<forall>x. r = Inl x \<longrightarrow> \<not> is_cas_mismatch x))"
    and columns: "distinct [cb_nameCol opts, cb_lockUntilCol opts, cb_lockedAtCol opts, cb_lockedByCol opts]"
begin

definition cb_id :: "string \<Rightarrow> string" where
  "cb_id n = cb_documentIdPrefix opts @ n"

definition cb_until :: "jsv \<Rightarrow> rat option" where
  "cb_until d = (case jget d (cb_lockUntilCol opts) of JNum (Fin u) \<Rightarrow> Some u | _ \<Rightarrow> None)"

definition cb_deadline :: "'s \<Rightarrow> deadlines" where
  "cb_deadline s n = (case docs s (cb_id n) of None \<Rightarrow> None | Some (d, c) \<Rightarrow> cb_until d)"

text \<open>Every document of the provider holds a finite deadline.\<close>

definition cb_inv :: "'s \<Rightarrow> bool" where
  "cb_inv s \<longleftrightarrow> (\<forall>n d c. docs s (cb_id n) = Some (d, c) \<longrightarrow> cb_until d \<noteq> None)"

definition cb_ok :: "LockConfiguration \<Rightarrow> bool" where
  "cb_ok c \<longleftrightarrow> js_isFinite (lockAtMostUntil c) \<and> js_isFinite (lockAtLeastUntil c) \<and>
     utf8_length (code_points (cb_id (cfg_name c))) \<le> MAX_DOCUMENT_ID_LENGTH"

lemma cb_id_inj [simp]: "cb_id m = cb_id n \<longleftrightarrow> m = n"
  by (simp add: cb_id_def)

lemma docId_ok: "Couchbase_docId opts n = Inr i \<longleftrightarrow>
    i = cb_id n \<and> utf8_length (code_points (cb_id n)) \<le> MAX_DOCUMENT_ID_LENGTH"
  by (auto simp: Couchbase_docId_def buildDocumentId_def opt_or_def cb_id_def Let_def)

lemma cb_okE:
  assumes "cb_ok c"
  obtains u v where "lockAtMostUntil c = Fin u" "lockAtLeastUntil c = Fin v" "Couchbase_docId opts (cfg_name c) = Inr (cb_id (cfg_name c))"
  using assms js_isFiniteE by (metis cb_ok_def docId_ok)

lemma cb_until_document [simp]:
  "lockAtMostUntil c = Fin u \<Longrightarrow> cb_until (Couchbase_document host opts c now) = Some u"
  using columns by (auto simp: cb_until_def Couchbase_document_def)

lemma cb_until_spread [simp]: "cb_until (obj (spread ps [(cb_lockUntilCol opts, JNum (Fin u))])) = Some u"
  by (simp add: cb_until_def spread_def jget_obj)

lemma cb_deadline_upd:
  "docs s' = (docs s)(cb_id n \<mapsto> (d, c)) \<Longrightarrow> cb_deadline s' = (cb_deadline s)(n := cb_until d)"
  by (auto simp: cb_deadline_def fun_eq_iff)

lemma cb_inv_upd: "docs s' = (docs s)(cb_id n \<mapsto> (d, c)) \<Longrightarrow> cb_inv s \<Longrightarrow> cb_until d = Some u \<Longrightarrow> cb_inv s'"
  by (auto simp: cb_inv_def)

lemma cb_same: "docs s' = docs s \<Longrightarrow> cb_deadline s' = cb_deadline s \<and> cb_inv s' = cb_inv s"
  by (simp add: cb_deadline_def cb_inv_def fun_eq_iff)

text \<open>A conditional write: it changed nothing, or it replaced the deadline of the name under its condition.\<close>

lemma run_replace:
  assumes "h (CbReplace (cb_id n) v c) w = (r, w')" "cb_inv (w_store w)" "cb_until v = Some u"
  shows "ClockProvider_now w' = ClockProvider_now w \<and> cb_inv (w_store w') \<and>
    (cb_deadline (w_store w') = cb_deadline (w_store w) \<and> (\<exists>x. r = Inl x) \<or>
     (\<exists>d. docs (w_store w) (cb_id n) = Some (d, c)) \<and>
     cb_deadline (w_store w') = (cb_deadline (w_store w))(n := Some u) \<and> (\<forall>x. r = Inl x \<longrightarrow> \<not> is_cas_mismatch x))"
  using cb_replace [OF assms(1)]
proof (elim conjE disjE)
  assume "docs (w_store w') = docs (w_store w)" "\<exists>x. r = Inl x" "ClockProvider_now w' = ClockProvider_now w"
  then show ?thesis using cb_same [of "w_store w'" "w_store w"] assms(2) by simp
next
  assume a: "ClockProvider_now w' = ClockProvider_now w" "\<exists>d. docs (w_store w) (cb_id n) = Some (d, c)"
    "\<exists>c'. docs (w_store w') = (docs (w_store w))(cb_id n \<mapsto> (v, c'))" "\<forall>x. r = Inl x \<longrightarrow> \<not> is_cas_mismatch x"
  then obtain c' where c': "docs (w_store w') = (docs (w_store w))(cb_id n \<mapsto> (v, c'))" by blast
  have "cb_deadline (w_store w') = (cb_deadline (w_store w))(n := Some u)"
    using cb_deadline_upd [OF c'] assms(3) by simp
  then show ?thesis using a(1,2,4) cb_inv_upd [OF c' assms(2,3)] by blast
qed

lemma insert_laws:
  assumes "run h (Couchbase_insertRecord host opts c) w = (r, w')" "cb_ok c" "cb_inv (w_store w)" "ClockProvider_now w = Fin t"
  shows "cb_inv (w_store w') \<and> ClockProvider_now w' = Fin t \<and>
    keeps t (cb_deadline (w_store w)) (cb_deadline (w_store w')) \<and>
    (r = Inr True \<longrightarrow> free (cb_deadline (w_store w)) (cfg_name c) t \<and> recorded (cb_deadline (w_store w')) c)"
proof -
  obtain u where u: "lockAtMostUntil c = Fin u" "Couchbase_docId opts (cfg_name c) = Inr (cb_id (cfg_name c))"
    using assms(2) by (rule cb_okE)
  let ?d = "Couchbase_document host opts c (Fin t)"
  obtain q where q: "h (CbInsert (cb_id (cfg_name c)) ?d) w = (q, w')" "r = Inr True \<Longrightarrow> \<exists>v. q = Inr v"
    using assms(1,4) u by (auto simp: Couchbase_insertRecord_def split: prod.splits sum.splits if_splits)
  note up = cb_deadline_upd [of "w_store w'" "w_store w" "cfg_name c" ?d] cb_inv_upd [of "w_store w'" "w_store w" "cfg_name c" ?d]
  have none: "free (cb_deadline (w_store w)) (cfg_name c) t" if "docs (w_store w) (cb_id (cfg_name c)) = None"
    using that by (simp add: free_def cb_deadline_def)
  show ?thesis
    using cb_insert [OF q(1)]
  proof (elim conjE disjE)
    assume "docs (w_store w') = docs (w_store w)" "\<exists>x. q = Inl x" "ClockProvider_now w' = ClockProvider_now w"
    then show ?thesis using cb_same [of "w_store w'" "w_store w"] assms(3,4) q(2) by auto
  next
    assume a: "docs (w_store w) (cb_id (cfg_name c)) = None" "ClockProvider_now w' = ClockProvider_now w"
      "\<exists>x. docs (w_store w') = (docs (w_store w))(cb_id (cfg_name c) \<mapsto> (?d, x))"
    then have "cb_deadline (w_store w') = (cb_deadline (w_store w))(cfg_name c := Some u)" "cb_inv (w_store w')"
      using up u(1) assms(3) by (metis cb_until_document)+
    then show ?thesis using a none assms(4) keeps_upd u(1) by (simp add: recorded_Fin)
  qed
qed

lemma get_content:
  assumes "h (CbGet (cb_id n)) w = (Inr g, v)" "cb_inv (w_store w)"
  obtains x where "v = w" "jget (jget g ''content'') (cb_lockUntilCol opts) = JNum (Fin x)"
    "cb_deadline (w_store w) n = Some x" "docs (w_store w) (cb_id n) = Some (jget g ''content'', jget g ''cas'')"
proof -
  have d: "v = w" "docs (w_store w) (cb_id n) = Some (jget g ''content'', jget g ''cas'')"
    using cb_get [OF assms(1)] by auto
  then obtain x where x: "cb_until (jget g ''content'') = Some x" using assms(2) unfolding cb_inv_def by blast
  then have "jget (jget g ''content'') (cb_lockUntilCol opts) = JNum (Fin x)"
    unfolding cb_until_def by (auto split: jsv.splits jsnum.splits)
  with d x show ?thesis by (intro that) (simp_all add: cb_deadline_def)
qed

lemma update_laws:
  assumes "run h (Couchbase_updateRecord host opts c) w = (r, w')" "cb_ok c" "cb_inv (w_store w)" "ClockProvider_now w = Fin t"
  shows "cb_inv (w_store w') \<and> ClockProvider_now w' = Fin t \<and>
    keeps t (cb_deadline (w_store w)) (cb_deadline (w_store w')) \<and>
    (r = Inr True \<longrightarrow> free (cb_deadline (w_store w)) (cfg_name c) t \<and> recorded (cb_deadline (w_store w')) c)"
proof -
  let ?n = "cfg_name c"
  obtain u where u: "lockAtMostUntil c = Fin u" "Couchbase_docId opts ?n = Inr (cb_id ?n)"
    using assms(2) by (rule cb_okE)
  obtain g v where g: "h (CbGet (cb_id ?n)) w = (g, v)" by fastforce
  show ?thesis
  proof (cases g)
    case (Inl e)
    then show ?thesis using assms cb_get [OF g] u by (auto simp: Couchbase_updateRecord_def g)
  next
    case (Inr gr)
    then obtain x where x: "v = w" "jget (jget gr ''content'') (cb_lockUntilCol opts) = JNum (Fin x)"
      "cb_deadline (w_store w) ?n = Some x" using get_content g assms(3) by metis
    show ?thesis
    proof (cases "t < x")
      case True
      then show ?thesis using assms u x by (auto simp: Couchbase_updateRecord_def g Inr Let_def)
    next
      case False
      then obtain q where q: "h (CbReplace (cb_id ?n) (Couchbase_document host opts c (Fin t)) (jget gr ''cas'')) w = (q, w')"
        "r = Inr True \<Longrightarrow> \<exists>v. q = Inr v"
        using assms(1,4) u x by (auto simp: Couchbase_updateRecord_def g Inr Let_def split: prod.splits sum.splits if_splits)
      have f: "free (cb_deadline (w_store w)) ?n t" using False x(3) by (simp add: free_def)
      show ?thesis
        using run_replace [OF q(1) assms(3)] u(1) f keeps_upd [OF f] q(2) assms(4) by (auto simp: recorded_Fin)
    qed
  qed
qed

lemma unlock_laws:
  assumes "run h (Couchbase_unlock host opts c) w = (r, w')" "cb_ok c" "cb_inv (w_store w)" "ClockProvider_now w = Fin t"
    "lockAtMostUntil c = Fin u"
  shows "cb_inv (w_store w') \<and> ClockProvider_now w' = Fin t \<and>
    keeps_but (cfg_name c) u t (cb_deadline (w_store w)) (cb_deadline (w_store w'))"
proof -
  let ?n = "cfg_name c"
  obtain l where l: "lockAtLeastUntil c = Fin l" "Couchbase_docId opts ?n = Inr (cb_id ?n)"
    using assms(2) by (rule cb_okE)
  obtain g v where g: "h (CbGet (cb_id ?n)) w = (g, v)" by fastforce
  show ?thesis
  proof (cases g)
    case (Inl e)
    then show ?thesis using assms cb_get [OF g] l by (auto simp: Couchbase_unlock_def g split: if_splits)
  next
    case (Inr gr)
    then obtain x where x: "v = w" "jget (jget gr ''content'') (cb_lockUntilCol opts) = JNum (Fin x)"
      "cb_deadline (w_store w) ?n = Some x" using get_content g assms(3) by metis
    consider "w' = w" | q where "x = u" "h (CbReplace (cb_id ?n)
        (obj (spread (own_props (jget gr ''content'')) [(cb_lockUntilCol opts, JNum (unlockTime (Fin t) c))]))
        (jget gr ''cas'')) w = (q, w')"
      using assms(1,4,5) l x by (auto simp: Couchbase_unlock_def g Inr Let_def split: prod.splits sum.splits if_splits)
    then show ?thesis
    proof cases
      case 1
      then show ?thesis using assms by auto
    next
      case 2
      have "unlockTime (Fin t) c = Fin (max t l)" using l(1) by (simp add: unlockTime_def)
      then show ?thesis
        using run_replace [OF 2(2) assms(3), of "max t l"] x(3) 2(1) assms(4) keeps_but_upd [of "cb_deadline (w_store w)" ?n u]
        by auto
    qed
  qed
qed

lemma extend_laws:
  assumes "run h (Couchbase_extend host opts c (Some (Fin p))) w = (r, w')" "cb_ok c" "cb_inv (w_store w)"
    "ClockProvider_now w = Fin t"
  shows "cb_inv (w_store w') \<and> ClockProvider_now w' = Fin t \<and>
    keeps_but (cfg_name c) p t (cb_deadline (w_store w)) (cb_deadline (w_store w')) \<and>
    (r = Inr False \<longrightarrow> keeps t (cb_deadline (w_store w)) (cb_deadline (w_store w'))) \<and>
    (r = Inr True \<longrightarrow> cb_deadline (w_store w) (cfg_name c) = Some p \<and> t < p \<and> recorded (cb_deadline (w_store w')) c)"
proof -
  let ?n = "cfg_name c"
  obtain u where u: "lockAtMostUntil c = Fin u" "Couchbase_docId opts ?n = Inr (cb_id ?n)"
    using assms(2) by (rule cb_okE)
  obtain g v where g: "h (CbGet (cb_id ?n)) w = (g, v)" by fastforce
  show ?thesis
  proof (cases g)
    case (Inl e)
    then show ?thesis using assms cb_get [OF g] u by (auto simp: Couchbase_extend_def g split: if_splits)
  next
    case (Inr gr)
    then obtain x where x: "v = w" "jget (jget gr ''content'') (cb_lockUntilCol opts) = JNum (Fin x)"
      "cb_deadline (w_store w) ?n = Some x" using get_content g assms(3) by metis
    consider "w' = w" "r = Inr False" | q where "x = p" "t < p" "h (CbReplace (cb_id ?n)
        (obj (spread (own_props (jget gr ''content'')) [(cb_lockUntilCol opts, JNum (lockAtMostUntil c))]))
        (jget gr ''cas'')) w = (q, w')" "r = (case q of Inr v \<Rightarrow> Inr True | Inl e \<Rightarrow> if is_cas_mismatch e then Inr False else Inl e)"
      using assms(1,4) u x by (auto simp: Couchbase_extend_def g Inr Let_def split: prod.splits sum.splits if_splits)
    then show ?thesis
    proof cases
      case 1
      then show ?thesis using assms by auto
    next
      case (2 q)
      from run_replace [OF 2(3) assms(3), of u] show ?thesis
        using x(3) 2(1,2,4) assms(4) keeps_but_upd [of "cb_deadline (w_store w)" ?n p] u(1)
        by (auto simp: recorded_Fin split: sum.splits if_splits)
    qed
  qed
qed

end

sublocale couchbase_service \<subseteq> acc: storage_accessor h "CouchbaseStorageAccessor host opts" cb_deadline
  "\<lambda>w. cb_inv (w_store w)" cb_ok
proof (unfold_locales, goal_cases)
  case (1 c)
  then show ?case by (rule cb_okE) blast
next
  case (2 c w r w' t)
  then show ?case using insert_laws [of c w r w' t] by (simp add: CouchbaseStorageAccessor_def)
next
  case (3 c w r w' t)
  then show ?case using update_laws [of c w r w' t] by (simp add: CouchbaseStorageAccessor_def)
next
  case (4 c w r w' t u)
  then show ?case using unlock_laws [of c w r w' t u] by (simp add: CouchbaseStorageAccessor_def)
next
  case (5 c u w r w' p t)
  then show ?case using extend_laws [of c u w r w' t] by (simp add: CouchbaseStorageAccessor_def)
qed

section \<open>A collection that answers\<close>

locale couchbase_live = couchbase_service h docs host opts
  for h :: "(couchbase_req, 's) handler" and docs and host and opts +
  assumes insert_new: "docs (w_store w) k = None \<Longrightarrow> \<exists>v w' c. h (CbInsert k d) w = (Inr v, w') \<and>
      docs (w_store w') = (docs (w_store w))(k \<mapsto> (d, c))"
    and insert_old: "docs (w_store w) k = Some x \<Longrightarrow> \<exists>e. h (CbInsert k d) w = (Inl e, w) \<and> instanceof e ''DocumentExistsError''"
    and get_old: "docs (w_store w) k = Some x \<Longrightarrow> \<exists>v. h (CbGet k) w = (Inr v, w)"
    and replace_same: "docs (w_store w) k = Some (y, c) \<Longrightarrow> \<exists>v w'. h (CbReplace k d c) w = (Inr v, w')"
begin

definition cb_present :: "'s \<Rightarrow> string \<Rightarrow> bool" where
  "cb_present s n \<longleftrightarrow> docs s (cb_id n) \<noteq> None"

lemma insert_live_laws:
  assumes "cb_ok c" "ClockProvider_now w = Fin t"
  shows "\<exists>b w'. run h (Couchbase_insertRecord host opts c) w = (Inr b, w') \<and> (b \<longleftrightarrow> \<not> cb_present (w_store w) (cfg_name c)) \<and>
    (\<not> b \<longrightarrow> w' = w) \<and> cb_present (w_store w') (cfg_name c)"
proof -
  let ?i = "cb_id (cfg_name c)"
  have i: "Couchbase_docId opts (cfg_name c) = Inr ?i" using assms(1) by (rule cb_okE)
  show ?thesis
  proof (cases "docs (w_store w) ?i")
    case None
    obtain v w' x where q: "h (CbInsert ?i (Couchbase_document host opts c (Fin t))) w = (Inr v, w')"
      "docs (w_store w') = (docs (w_store w))(?i \<mapsto> (Couchbase_document host opts c (Fin t), x))"
      using insert_new [OF None] by blast
    then show ?thesis using None i assms(2)
      by (intro exI [of _ True] exI [of _ w']) (simp add: Couchbase_insertRecord_def cb_present_def)
  next
    case (Some d)
    obtain e where "h (CbInsert ?i (Couchbase_document host opts c (Fin t))) w = (Inl e, w)" "instanceof e ''DocumentExistsError''"
      using insert_old [OF Some] by blast
    then show ?thesis using Some i assms(2)
      by (intro exI [of _ False] exI [of _ w]) (simp add: Couchbase_insertRecord_def cb_present_def)
  qed
qed

lemma update_live_laws:
  assumes "cb_ok c" "cb_inv (w_store w)" "ClockProvider_now w = Fin t" "cb_present (w_store w) (cfg_name c)"
    "free (cb_deadline (w_store w)) (cfg_name c) t"
  shows "\<exists>w'. run h (Couchbase_updateRecord host opts c) w = (Inr True, w')"
proof -
  let ?i = "cb_id (cfg_name c)"
  have i: "Couchbase_docId opts (cfg_name c) = Inr ?i" using assms(1) by (rule cb_okE)
  obtain d where "docs (w_store w) ?i = Some d" using assms(4) by (auto simp: cb_present_def)
  then obtain g where g: "h (CbGet ?i) w = (Inr g, w)" using get_old by blast
  then obtain x where x: "jget (jget g ''content'') (cb_lockUntilCol opts) = JNum (Fin x)"
    "cb_deadline (w_store w) (cfg_name c) = Some x" "docs (w_store w) ?i = Some (jget g ''content'', jget g ''cas'')"
    using get_content assms(2) by metis
  obtain v w' where "h (CbReplace ?i (Couchbase_document host opts c (Fin t)) (jget g ''cas'')) w = (Inr v, w')"
    using replace_same [OF x(3)] by blast
  then show ?thesis using g i assms(3,5) x(1,2) by (simp add: Couchbase_updateRecord_def free_def Let_def)
qed

end

sublocale couchbase_live \<subseteq> live: live_storage_accessor h "CouchbaseStorageAccessor host opts" cb_deadline
  "\<lambda>w. cb_inv (w_store w)" cb_ok cb_present
proof (unfold_locales, goal_cases)
  case (1 c w t)
  then show ?case using insert_live_laws [of c w t] by (simp add: CouchbaseStorageAccessor_def)
next
  case (2 c w t)
  then show ?case using update_live_laws [of c w t] by (simp add: CouchbaseStorageAccessor_def)
qed

context couchbase_live
begin

lemma lock_iff_free:
  assumes "cb_ok c" "cb_inv (backend (w_store w))" "ClockProvider_now w = Fin t"
    and "cfg_name c \<in> registry (w_store w) \<Longrightarrow> docs (backend (w_store w)) (cb_id (cfg_name c)) \<noteq> None"
  shows "(\<exists>l w'. run (storage_handler h) (CouchbaseLockProvider_lock host opts c) w = (Inr (Some l), w')) \<longleftrightarrow>
    free (cb_deadline (backend (w_store w))) (cfg_name c) t"
proof
  assume "\<exists>l w'. run (storage_handler h) (CouchbaseLockProvider_lock host opts c) w = (Inr (Some l), w')"
  then obtain l w' where "run (storage_handler h) (CouchbaseLockProvider_lock host opts c) w = (Inr (Some l), w')" by blast
  from acc.lock_step [OF this [unfolded CouchbaseLockProvider_lock_def] assms(1) _ assms(3)] assms(2)
  show "free (cb_deadline (backend (w_store w))) (cfg_name c) t" by simp
next
  assume "free (cb_deadline (backend (w_store w))) (cfg_name c) t"
  from live.storage_lock_free [OF assms(1) _ assms(3) _ this] assms(2,4)
  show "\<exists>l w'. run (storage_handler h) (CouchbaseLockProvider_lock host opts c) w = (Inr (Some l), w')"
    unfolding CouchbaseLockProvider_lock_def cb_present_def by auto
qed

end

section \<open>A collection in memory\<close>

type_synonym couchbase_store = "(string \<Rightarrow> (jsv \<times> jsv) option) \<times> nat"

definition cb_error :: "string \<Rightarrow> jsv" where
  "cb_error c = JErr c []"

fun couchbase_store_handler :: "(couchbase_req, couchbase_store) handler" where
  "couchbase_store_handler (CbInsert k d) w = (case fst (w_store w) k of
     None \<Rightarrow> (Inr (obj []), w\<lparr>w_store := ((fst (w_store w))(k \<mapsto> (d, JNum (Fin (of_nat (snd (w_store w)))))), Suc (snd (w_store w)))\<rparr>)
   | Some _ \<Rightarrow> (Inl (cb_error ''DocumentExistsError''), w))"
| "couchbase_store_handler (CbGet k) w = (case fst (w_store w) k of
     None \<Rightarrow> (Inl (cb_error ''DocumentNotFoundError''), w)
   | Some (d, c) \<Rightarrow> (Inr (obj [(''content'', d), (''cas'', c)]), w))"
| "couchbase_store_handler (CbReplace k d c) w = (case fst (w_store w) k of
     None \<Rightarrow> (Inl (cb_error ''DocumentNotFoundError''), w)
   | Some (x, c') \<Rightarrow>
       if c' = c
       then (Inr (obj []), w\<lparr>w_store := ((fst (w_store w))(k \<mapsto> (d, JNum (Fin (of_nat (snd (w_store w)))))), Suc (snd (w_store w)))\<rparr>)
       else (Inl (cb_error ''CasMismatchError''), w))"

definition cb_opts :: CouchbaseOptions where
  "cb_opts = Couchbase_resolveOptions None (\<lambda>_. None) None"

lemma cb_opts_simps [simp]: "cb_documentIdPrefix cb_opts = ''shedlock:''" "cb_nameCol cb_opts = ''name''"
  "cb_lockUntilCol cb_opts = ''lockUntil''" "cb_lockedAtCol cb_opts = ''lockedAt''" "cb_lockedByCol cb_opts = ''lockedBy''"
  by (simp_all add: cb_opts_def Couchbase_resolveOptions_def opt_or_def)

interpretation cb_store: couchbase_live couchbase_store_handler fst host cb_opts for host
proof (unfold_locales, goal_cases)
  case (1 k v w r w')
  then show ?case by (fastforce split: option.splits)
next
  case (2 k w r w')
  then show ?case by (auto split: option.splits)
next
  case (3 k v c w r w')
  then show ?case by (fastforce split: option.splits if_splits)
qed (auto simp: cb_error_def)

section \<open>Properties\<close>

text \<open>
  C18: Refinement of the lock table: over a collection that answers as documented, with a registry that only holds names
  whose document exists, \<open>lock\<close> of the Couchbase provider returns a lock exactly when the stored deadline of the
  name is missing or has passed.
\<close>

theorem Couchbase_lock_iff_free:
  assumes "couchbase_live h docs opts" "couchbase_service.cb_ok opts c"
    and "couchbase_service.cb_inv docs opts (backend (w_store w))" "ClockProvider_now w = Fin t"
    and "cfg_name c \<in> registry (w_store w) \<Longrightarrow> docs (backend (w_store w)) (couchbase_service.cb_id opts (cfg_name c)) \<noteq> None"
  shows "(\<exists>l w'. run (storage_handler h) (CouchbaseLockProvider_lock host opts c) w = (Inr (Some l), w')) \<longleftrightarrow>
    free (couchbase_service.cb_deadline docs opts (backend (w_store w))) (cfg_name c) t"
  using couchbase_live.lock_iff_free [OF assms] .

definition cb_world0 :: "couchbase_store storage_state world" where
  "cb_world0 = \<lparr>w_date = Fin 0, w_clock = None, w_store = \<lparr>registry = {}, backend = (\<lambda>_. None, 0)\<rparr>\<rparr>"

theorem Couchbase_lock_iff_free_witness:
  "\<exists>l w'. run (storage_handler couchbase_store_handler) (CouchbaseLockProvider_lock ''host'' cb_opts job_config) cb_world0 =
     (Inr (Some l), w')"
proof -
  have s: "backend (w_store cb_world0) = (\<lambda>_. None, 0)" "registry (w_store cb_world0) = {}" "ClockProvider_now cb_world0 = Fin 0"
    by (simp_all add: cb_world0_def ClockProvider_now_def)
  have "couchbase_service.cb_ok cb_opts job_config"
    by (simp add: cb_store.cb_ok_def cb_store.cb_id_def utf8_length_def code_points_def MAX_DOCUMENT_ID_LENGTH_def)
  from Couchbase_lock_iff_free [OF cb_store.couchbase_live_axioms this, of cb_world0 0 "''host''"]
  show ?thesis by (simp add: s cb_store.cb_inv_def cb_store.cb_deadline_def free_def)
qed

end
