(* ===== verification/Mongo.thy ===== *)
theory Mongo
  imports SimpleLock Json
begin

text \<open>
  packages/mongo/src: \<open>lock\<close>, \<open>unlock\<close> and \<open>extend\<close> are one \<open>findOneAndUpdate\<close> each.  A lock object keeps the deadline it
  wrote as a date; filters and updates are the documents the code builds.
\<close>

record MongoCollection =
  coll_name :: string
  coll_writeConcern :: "(string \<times> jsv) list"
  coll_readConcern :: "(string \<times> jsv) list"

datatype mongo_req = FindOneAndUpdate MongoCollection jsv jsv jsv

section \<open>Options (mongo-lock-provider.ts)\<close>

text \<open>The collection \<open>createMongoLockProvider\<close> asks the driver for.\<close>

definition createMongoLockProvider ::
  "string option \<Rightarrow> (string \<times> jsv) list \<Rightarrow> (string \<times> jsv) list \<Rightarrow> MongoCollection" where
  "createMongoLockProvider collection writeConcern readConcern =
     \<lparr>coll_name = (case collection of None \<Rightarrow> ''shedLock'' | Some c \<Rightarrow> c),
      coll_writeConcern = spread [(''w'', JStr ''majority'')] writeConcern,
      coll_readConcern = spread [(''level'', JStr ''majority'')] readConcern\<rparr>"

section \<open>Lock objects (mongo-lock.ts)\<close>

definition mongoDate :: "jsnum \<Rightarrow> jsnum" where
  "mongoDate epochMillis = new_Date (js_trunc epochMillis)"

definition storedDeadline :: "jsnum \<Rightarrow> jsv \<Rightarrow> jsnum" where
  "storedDeadline written stored = (case stored of JDate d \<Rightarrow> if js_eq d written then d else written | _ \<Rightarrow> written)"

definition new_MongoLock :: "LockConfiguration \<Rightarrow> jsnum \<Rightarrow> jsnum asl" where
  "new_MongoLock config deadline = new_asl config (mongoDate deadline)"

definition owned_filter :: "string \<Rightarrow> jsnum asl \<Rightarrow> jsv" where
  "owned_filter hostname l =
     obj [(''_id'', JStr (cfg_name (asl_config l))), (''lockedBy'', JStr hostname), (''lockUntil'', JDate (asl_data l))]"

definition mongo_set :: "(string \<times> jsv) list \<Rightarrow> jsv" where
  "mongo_set ps = obj [(''$set'', obj ps)]"

definition MongoLock_doUnlock :: "string \<Rightarrow> MongoCollection \<Rightarrow> jsnum asl \<Rightarrow> (mongo_req, unit) prog" where
  "MongoLock_doUnlock hostname coll l = Now (\<lambda>now.
     request (FindOneAndUpdate coll (owned_filter hostname l)
                (mongo_set [(''lockUntil'', JDate (mongoDate (unlockTime now (asl_config l))))]) JUndef) (\<lambda>_. Ret ()))"

definition MongoLock_doExtend :: "string \<Rightarrow> MongoCollection \<Rightarrow> jsnum asl \<Rightarrow> LockConfiguration \<Rightarrow> (mongo_req, jsnum asl option) prog" where
  "MongoLock_doExtend hostname coll l newConfig = Now (\<lambda>now.
     if js_le (asl_data l) now then Ret None
     else let written = mongoDate (lockAtMostUntil newConfig) in
       request (FindOneAndUpdate coll (owned_filter hostname l) (mongo_set [(''lockUntil'', JDate written)])
                  (obj [(''returnDocument'', JStr ''after'')])) (\<lambda>result.
         if \<not> truthy result then Ret None
         else Ret (Some (new_MongoLock newConfig (storedDeadline written (jget result ''lockUntil''))))))"

section \<open>The accessor and the provider (mongo-accessor.ts, mongo-lock-provider.ts)\<close>

definition MongoAccessor_lock :: "string \<Rightarrow> MongoCollection \<Rightarrow> LockConfiguration \<Rightarrow> (mongo_req, jsnum asl option) prog" where
  "MongoAccessor_lock hostname coll config = Now (\<lambda>now.
     let written = mongoDate (lockAtMostUntil config) in
     try_request (FindOneAndUpdate coll
         (obj [(''_id'', JStr (cfg_name config)), (''lockUntil'', obj [(''$lte'', JDate (mongoDate now))])])
         (mongo_set [(''lockUntil'', JDate written), (''lockedAt'', JDate (mongoDate now)), (''lockedBy'', JStr hostname)])
         (obj [(''upsert'', JBool True), (''returnDocument'', JStr ''after'')]))
       (\<lambda>result. if \<not> truthy result then Ret None
                 else Ret (Some (new_MongoLock config (storedDeadline written (jget result ''lockUntil'')))))
       (\<lambda>e. if instanceof e ''MongoServerError'' \<and> strict_eq (jget e ''code'') (JNum (Fin 11000)) then Ret None else Raise e))"

definition MongoLockProvider_lock :: "string \<Rightarrow> MongoCollection \<Rightarrow> LockConfiguration \<Rightarrow> (mongo_req, jsnum asl option) prog" where
  "MongoLockProvider_lock hostname coll config = MongoAccessor_lock hostname coll config"

section \<open>Properties\<close>

text \<open>The written deadline is kept whatever the server returns; making the lock truncates it once more, which changes nothing.\<close>

lemma mongoDate_idem [simp]: "mongoDate (mongoDate x) = mongoDate x"
proof (cases x)
  case (Fin r)
  have "js_trunc (Fin (of_int (trunc_rat r))) = Fin (of_int (trunc_rat r))" by simp
  then show ?thesis by (simp add: mongoDate_def Fin new_Date.simps)
qed (simp_all add: mongoDate_def)

lemma storedDeadline_written [simp]: "storedDeadline written stored = written"
  by (auto simp: storedDeadline_def js_eq_def split: jsv.splits)

definition mongo_lock_ok :: "jsnum asl \<Rightarrow> bool" where
  "mongo_lock_ok l \<longleftrightarrow> asl_data l = mongoDate (lockAtMostUntil (asl_config l))"

lemma mongo_lock_ok_new [simp]: "mongo_lock_ok (new_MongoLock c (mongoDate (lockAtMostUntil c)))"
  by (simp add: mongo_lock_ok_def new_MongoLock_def)

text \<open>
  Over any service, a lock object that \<open>extend\<close> returns carries the new configuration and its own deadline, and was granted only while the old
  deadline was in the future by the client's clock, by a request that matched a document with this
  owner and exactly the deadline the old lock object wrote.
\<close>

theorem Mongo_extend_guarded:
  assumes "run h (MongoLock_doExtend hostname coll l c) w = (Inr (Some l'), w')"
  shows "\<not> js_le (asl_data l) (ClockProvider_now w) \<and> mongo_lock_ok l' \<and> asl_config l' = c \<and> asl_valid l' \<and>
    (\<exists>v. truthy v \<and> h (FindOneAndUpdate coll
        (obj [(''_id'', JStr (cfg_name (asl_config l))), (''lockedBy'', JStr hostname), (''lockUntil'', JDate (asl_data l))])
        (mongo_set [(''lockUntil'', JDate (mongoDate (lockAtMostUntil c)))]) (obj [(''returnDocument'', JStr ''after'')])) w
      = (Inr v, w'))"
  using assms
  by (auto simp: MongoLock_doExtend_def owned_filter_def Let_def mongo_lock_ok_def new_MongoLock_def
      split: if_splits prod.splits sum.splits)

theorem Mongo_extend_guarded_witness:
  "\<not> js_le (mongoDate (Fin 100)) (Fin 5)"
proof -
  let ?coll = "createMongoLockProvider None [] []"
  let ?l = "new_MongoLock job_config (Fin 100)"
  have "run scripted (MongoLock_doExtend ''host'' ?coll ?l job_config)
      (script_world 5 [Inr (obj [(''_id'', JStr ''job'')])]) =
    (Inr (Some (new_MongoLock job_config (mongoDate (Fin 100)))), script_world 5 [])"
    using new_Date_int [of 100]
    by (simp add: MongoLock_doExtend_def new_MongoLock_def mongoDate_def truthy_def Let_def)
  from Mongo_extend_guarded [OF this] show ?thesis by (simp add: new_MongoLock_def)
qed

end
