(* ===== verification/Transactions.thy ===== *)
theory Transactions
  imports StorageBased Json
begin

text \<open>
  packages/firestore/src and packages/datastore/src: accessors whose operations are callbacks of a transaction.

  The request of an operation carries its callback, a program over the requests of the transaction: the client library
  runs it (again, when the transaction is contended) and commits the writes it buffered, so how
  often it runs and what it reads is up to the handler.  A callback's result is a value: a boolean or \<open>undefined\<close>.
\<close>

section \<open>Configuration\<close>

record FieldNames =
  fn_lockUntil :: string
  fn_lockedAt :: string
  fn_lockedBy :: string

text \<open>
  \<open>names\<close> are the properties of \<open>input.fieldNames\<close>.  The loop over the merged names rejects the first empty one, in the order of
  the object's properties; a property of another name is only checked.
\<close>

definition resolve_names :: "string \<Rightarrow> (string \<times> string) list \<Rightarrow> jsv + FieldNames" where
  "resolve_names label names =
     (let merged = spread [(''lockUntil'', ''lockUntil''), (''lockedAt'', ''lockedAt''), (''lockedBy'', ''lockedBy'')] names in
      case find (\<lambda>(k, v). v = []) merged of
        Some (k, _) \<Rightarrow> Inl (LockException (label @ '': fieldNames.'' @ k @ '' must not be empty''))
      | None \<Rightarrow> Inr \<lparr>fn_lockUntil = the (map_of merged ''lockUntil''), fn_lockedAt = the (map_of merged ''lockedAt''),
                      fn_lockedBy = the (map_of merged ''lockedBy'')\<rparr>)"

record ResolvedFirestoreConfiguration =
  fs_collectionName :: string
  fs_fieldNames :: FieldNames
  fs_lockedByValue :: string
  fs_useTimestamps :: bool

definition resolveFirestoreConfiguration ::
  "string \<Rightarrow> bool \<Rightarrow> string option \<Rightarrow> (string \<times> string) list \<Rightarrow> string option \<Rightarrow> bool option \<Rightarrow> jsv + ResolvedFirestoreConfiguration" where
  "resolveFirestoreConfiguration hostname firestore collectionName names lockedBy useTimestamps =
     (if \<not> firestore then Inl (LockException ''FirestoreConfiguration: firestore is required'')
      else let collection = (case collectionName of None \<Rightarrow> ''shedlock'' | Some c \<Rightarrow> c) in
      if collection = [] then Inl (LockException ''FirestoreConfiguration: collectionName must not be empty'')
      else (case resolve_names ''FirestoreConfiguration'' names of
          Inl e \<Rightarrow> Inl e
        | Inr fns \<Rightarrow> Inr \<lparr>fs_collectionName = collection, fs_fieldNames = fns,
            fs_lockedByValue = (case lockedBy of None \<Rightarrow> hostname | Some b \<Rightarrow> b),
            fs_useTimestamps = (case useTimestamps of None \<Rightarrow> False | Some b \<Rightarrow> b)\<rparr>))"

record ResolvedDatastoreConfiguration =
  ds_entityName :: string
  ds_fieldNames :: FieldNames
  ds_lockedByValue :: string
  ds_useDate :: bool

definition resolveDatastoreConfiguration ::
  "string \<Rightarrow> bool \<Rightarrow> string option \<Rightarrow> (string \<times> string) list \<Rightarrow> string option \<Rightarrow> bool option \<Rightarrow> jsv + ResolvedDatastoreConfiguration" where
  "resolveDatastoreConfiguration hostname datastore entityName names lockedBy useDate =
     (if \<not> datastore then Inl (LockException ''DatastoreConfiguration: datastore is required'')
      else let entity = (case entityName of None \<Rightarrow> ''shedlock'' | Some c \<Rightarrow> c) in
      if entity = [] then Inl (LockException ''DatastoreConfiguration: entityName must not be empty'')
      else (case resolve_names ''DatastoreConfiguration'' names of
          Inl e \<Rightarrow> Inl e
        | Inr fns \<Rightarrow> Inr \<lparr>ds_entityName = entity, ds_fieldNames = fns,
            ds_lockedByValue = (case lockedBy of None \<Rightarrow> hostname | Some b \<Rightarrow> b),
            ds_useDate = (case useDate of None \<Rightarrow> False | Some b \<Rightarrow> b)\<rparr>))"

section \<open>Firestore (firestore-storage-accessor.ts)\<close>

text \<open>What the accessor uses of the client library: timestamps and snapshots.  \<open>toMillisOf\<close> is the value's \<open>toMillis\<close> method, if it has one.\<close>

record firestore_lib =
  fromMillis :: "jsnum \<Rightarrow> jsv + jsv"
  toMillisOf :: "jsv \<Rightarrow> jsnum option"
  snapGet :: "jsv \<Rightarrow> string \<Rightarrow> jsv"

datatype fs_txn =
    TxnGet string string
  | TxnCreate string string jsv
  | TxnUpdate string string jsv

datatype fs_req = RunTransaction "(fs_txn, jsv) prog"

definition Firestore_toMillis :: "firestore_lib \<Rightarrow> jsv \<Rightarrow> jsnum" where
  "Firestore_toMillis lib value = (case toMillisOf lib value of
     Some ms \<Rightarrow> if is_object value then ms else Date_parse_value value
   | None \<Rightarrow> Date_parse_value value)"

definition Firestore_toFieldValue :: "firestore_lib \<Rightarrow> ResolvedFirestoreConfiguration \<Rightarrow> jsnum \<Rightarrow> jsv + jsv" where
  "Firestore_toFieldValue lib cfg epochMillis =
     (if fs_useTimestamps cfg then fromMillis lib epochMillis else map_sum id JStr (Utils_toIsoString epochMillis))"

definition Firestore_toData :: "firestore_lib \<Rightarrow> ResolvedFirestoreConfiguration \<Rightarrow> LockConfiguration \<Rightarrow> jsnum \<Rightarrow> jsv + jsv" where
  "Firestore_toData lib cfg config now =
     (case Firestore_toFieldValue lib cfg (lockAtMostUntil config) of Inl e \<Rightarrow> Inl e | Inr until \<Rightarrow>
     (case Firestore_toFieldValue lib cfg now of Inl e \<Rightarrow> Inl e | Inr lockedAt \<Rightarrow>
       Inr (mk_obj [(fn_lockUntil (fs_fieldNames cfg), until), (fn_lockedAt (fs_fieldNames cfg), lockedAt),
                    (fn_lockedBy (fs_fieldNames cfg), JStr (fs_lockedByValue cfg))])))"

definition Firestore_insert_body :: "firestore_lib \<Rightarrow> ResolvedFirestoreConfiguration \<Rightarrow> LockConfiguration \<Rightarrow> (fs_txn, jsv) prog" where
  "Firestore_insert_body lib cfg config =
     request (TxnGet (fs_collectionName cfg) (cfg_name config)) (\<lambda>snap.
       if truthy (jget snap ''exists'') then Ret (JBool False)
       else Now (\<lambda>now. sync (Firestore_toData lib cfg config now) (\<lambda>data.
         request (TxnCreate (fs_collectionName cfg) (cfg_name config) data) (\<lambda>_. Ret (JBool True)))))"

definition Firestore_update_body :: "firestore_lib \<Rightarrow> ResolvedFirestoreConfiguration \<Rightarrow> LockConfiguration \<Rightarrow> (fs_txn, jsv) prog" where
  "Firestore_update_body lib cfg config =
     request (TxnGet (fs_collectionName cfg) (cfg_name config)) (\<lambda>snap.
       if \<not> truthy (jget snap ''exists'') then Raise (LockException (''Lock record not found: '' @ cfg_name config))
       else let current = Firestore_toMillis lib (snapGet lib snap (fn_lockUntil (fs_fieldNames cfg))) in
         Now (\<lambda>now. if js_lt now current then Ret (JBool False)
           else Now (\<lambda>now2. sync (Firestore_toData lib cfg config now2) (\<lambda>data.
             request (TxnUpdate (fs_collectionName cfg) (cfg_name config) data) (\<lambda>_. Ret (JBool True))))))"

definition Firestore_unlock_seen ::
  "firestore_lib \<Rightarrow> ResolvedFirestoreConfiguration \<Rightarrow> LockConfiguration \<Rightarrow> jsv \<Rightarrow> (fs_txn, jsv) prog" where
  "Firestore_unlock_seen lib cfg config snap =
     (if \<not> truthy (jget snap ''exists'') then Ret JUndef
      else if \<not> strict_eq (snapGet lib snap (fn_lockedBy (fs_fieldNames cfg))) (JStr (fs_lockedByValue cfg)) then Ret JUndef
      else if \<not> js_eq (Firestore_toMillis lib (snapGet lib snap (fn_lockUntil (fs_fieldNames cfg)))) (lockAtMostUntil config)
      then Ret JUndef
      else Now (\<lambda>now. sync (Firestore_toFieldValue lib cfg (unlockTime now config)) (\<lambda>v.
        request (TxnUpdate (fs_collectionName cfg) (cfg_name config) (mk_obj [(fn_lockUntil (fs_fieldNames cfg), v)]))
          (\<lambda>_. Ret JUndef))))"

definition Firestore_unlock_body :: "firestore_lib \<Rightarrow> ResolvedFirestoreConfiguration \<Rightarrow> LockConfiguration \<Rightarrow> (fs_txn, jsv) prog" where
  "Firestore_unlock_body lib cfg config =
     request (TxnGet (fs_collectionName cfg) (cfg_name config)) (Firestore_unlock_seen lib cfg config)"

definition Firestore_extend_seen ::
  "firestore_lib \<Rightarrow> ResolvedFirestoreConfiguration \<Rightarrow> LockConfiguration \<Rightarrow> jsnum \<Rightarrow> jsv \<Rightarrow> (fs_txn, jsv) prog" where
  "Firestore_extend_seen lib cfg config previous snap =
     (if \<not> truthy (jget snap ''exists'') then Ret (JBool False)
      else if \<not> strict_eq (snapGet lib snap (fn_lockedBy (fs_fieldNames cfg))) (JStr (fs_lockedByValue cfg)) then Ret (JBool False)
      else let current = Firestore_toMillis lib (snapGet lib snap (fn_lockUntil (fs_fieldNames cfg))) in
        if \<not> js_eq current previous then Ret (JBool False)
        else Now (\<lambda>now. if js_le current now then Ret (JBool False)
          else sync (Firestore_toFieldValue lib cfg (lockAtMostUntil config)) (\<lambda>v.
            request (TxnUpdate (fs_collectionName cfg) (cfg_name config) (mk_obj [(fn_lockUntil (fs_fieldNames cfg), v)]))
              (\<lambda>_. Ret (JBool True)))))"

definition Firestore_extend_body ::
  "firestore_lib \<Rightarrow> ResolvedFirestoreConfiguration \<Rightarrow> LockConfiguration \<Rightarrow> jsnum \<Rightarrow> (fs_txn, jsv) prog" where
  "Firestore_extend_body lib cfg config previous =
     request (TxnGet (fs_collectionName cfg) (cfg_name config)) (Firestore_extend_seen lib cfg config previous)"

definition FirestoreStorageAccessor :: "firestore_lib \<Rightarrow> ResolvedFirestoreConfiguration \<Rightarrow> fs_req StorageAccessor" where
  "FirestoreStorageAccessor lib cfg =
     \<lparr>acc_insertRecord = (\<lambda>c. request (RunTransaction (Firestore_insert_body lib cfg c)) (\<lambda>r. Ret (truthy r))),
      acc_updateRecord = (\<lambda>c. request (RunTransaction (Firestore_update_body lib cfg c)) (\<lambda>r. Ret (truthy r))),
      acc_unlock = (\<lambda>c. request (RunTransaction (Firestore_unlock_body lib cfg c)) (\<lambda>_. Ret ())),
      acc_extend = (\<lambda>c previous. case previous of None \<Rightarrow> Ret False
        | Some p \<Rightarrow> request (RunTransaction (Firestore_extend_body lib cfg c p)) (\<lambda>r. Ret (truthy r)))\<rparr>"

definition createFirestoreProvider_lock ::
  "firestore_lib \<Rightarrow> ResolvedFirestoreConfiguration \<Rightarrow> LockConfiguration \<Rightarrow> (fs_req storage_req, unit asl option) prog" where
  "createFirestoreProvider_lock lib resolved config = StorageBasedLockProvider_lock (FirestoreStorageAccessor lib resolved) config"

section \<open>Datastore (datastore-storage-accessor.ts)\<close>

datatype ds_txn =
    EntityGet string string
  | EntityUpsert string string jsv

datatype ds_req = DsTransaction "(ds_txn, jsv) prog"

definition Datastore_isNotFound :: "jsv \<Rightarrow> bool" where
  "Datastore_isNotFound e \<longleftrightarrow> is_object e \<and>
     (strict_eq (jget e ''code'') (JNum (Fin 5)) \<or>
      (case jget e ''message'' of JStr m \<Rightarrow>
         (let msg = toLowerCase m in
          str_includes msg ''not found'' \<or> str_includes msg ''no entity'' \<or> str_includes msg ''no matching'')
       | _ \<Rightarrow> False))"

definition Datastore_toFieldValue :: "ResolvedDatastoreConfiguration \<Rightarrow> jsnum \<Rightarrow> jsv + jsv" where
  "Datastore_toFieldValue cfg epochMillis =
     (if ds_useDate cfg then Inr (JDate (new_Date epochMillis)) else map_sum id JStr (Utils_toIsoString epochMillis))"

text \<open>\<open>getTimeOf\<close>: the \<open>getTime\<close> method of objects that are not dates but have one.\<close>

definition Datastore_parseFieldValue :: "(jsv \<Rightarrow> jsnum option) \<Rightarrow> jsv \<Rightarrow> jsnum" where
  "Datastore_parseFieldValue getTimeOf value = (case value of
     JDate d \<Rightarrow> d
   | _ \<Rightarrow> (case getTimeOf value of
       Some ms \<Rightarrow> if is_object value then ms else Date_parse_value value
     | None \<Rightarrow> Date_parse_value value))"

definition Datastore_toData :: "ResolvedDatastoreConfiguration \<Rightarrow> LockConfiguration \<Rightarrow> jsnum \<Rightarrow> jsv + jsv" where
  "Datastore_toData cfg config now =
     (case Datastore_toFieldValue cfg (lockAtMostUntil config) of Inl e \<Rightarrow> Inl e | Inr until \<Rightarrow>
     (case Datastore_toFieldValue cfg now of Inl e \<Rightarrow> Inl e | Inr lockedAt \<Rightarrow>
       Inr (mk_obj [(fn_lockUntil (ds_fieldNames cfg), until), (fn_lockedAt (ds_fieldNames cfg), lockedAt),
                    (fn_lockedBy (ds_fieldNames cfg), JStr (ds_lockedByValue cfg))])))"

definition Datastore_safeGet ::
  "ResolvedDatastoreConfiguration \<Rightarrow> string \<Rightarrow> (jsv \<Rightarrow> (ds_txn, jsv) prog) \<Rightarrow> (ds_txn, jsv) prog" where
  "Datastore_safeGet cfg name f =
     pbind (request (EntityGet (ds_entityName cfg) name) (\<lambda>r. sync (js_at r 0) Ret))
       (\<lambda>r. case r of Inr entity \<Rightarrow> f entity | Inl e \<Rightarrow> if Datastore_isNotFound e then f JUndef else Raise e)"

definition Datastore_upsert :: "ResolvedDatastoreConfiguration \<Rightarrow> string \<Rightarrow> jsv \<Rightarrow> jsv \<Rightarrow> (ds_txn, jsv) prog" where
  "Datastore_upsert cfg name data result = request (EntityUpsert (ds_entityName cfg) name data) (\<lambda>_. Ret result)"

definition Datastore_insert_body :: "ResolvedDatastoreConfiguration \<Rightarrow> LockConfiguration \<Rightarrow> (ds_txn, jsv) prog" where
  "Datastore_insert_body cfg config = Datastore_safeGet cfg (cfg_name config) (\<lambda>existing.
     if truthy existing then Ret (JBool False)
     else Now (\<lambda>now. sync (Datastore_toData cfg config now) (\<lambda>data.
       Datastore_upsert cfg (cfg_name config) data (JBool True))))"

definition Datastore_update_body ::
  "(jsv \<Rightarrow> jsnum option) \<Rightarrow> ResolvedDatastoreConfiguration \<Rightarrow> LockConfiguration \<Rightarrow> (ds_txn, jsv) prog" where
  "Datastore_update_body getTimeOf cfg config = Datastore_safeGet cfg (cfg_name config) (\<lambda>existing.
     if \<not> truthy existing then Raise (LockException (''Lock record not found: '' @ cfg_name config))
     else let current = Datastore_parseFieldValue getTimeOf (jget existing (fn_lockUntil (ds_fieldNames cfg))) in
       Now (\<lambda>now. if js_lt now current then Ret (JBool False)
         else Now (\<lambda>now2. sync (Datastore_toData cfg config now2) (\<lambda>data.
           Datastore_upsert cfg (cfg_name config) data (JBool True)))))"

definition Datastore_unlock_seen ::
  "(jsv \<Rightarrow> jsnum option) \<Rightarrow> ResolvedDatastoreConfiguration \<Rightarrow> LockConfiguration \<Rightarrow> jsv \<Rightarrow> (ds_txn, jsv) prog" where
  "Datastore_unlock_seen getTimeOf cfg config existing =
     (if \<not> truthy existing then Ret JUndef
      else if \<not> strict_eq (jget existing (fn_lockedBy (ds_fieldNames cfg))) (JStr (ds_lockedByValue cfg)) then Ret JUndef
      else if \<not> js_eq (Datastore_parseFieldValue getTimeOf (jget existing (fn_lockUntil (ds_fieldNames cfg)))) (lockAtMostUntil config)
      then Ret JUndef
      else Now (\<lambda>now. sync (Datastore_toFieldValue cfg (unlockTime now config)) (\<lambda>v.
        Datastore_upsert cfg (cfg_name config)
          (obj (spread (own_props existing) [(fn_lockUntil (ds_fieldNames cfg), v)])) JUndef)))"

definition Datastore_unlock_body ::
  "(jsv \<Rightarrow> jsnum option) \<Rightarrow> ResolvedDatastoreConfiguration \<Rightarrow> LockConfiguration \<Rightarrow> (ds_txn, jsv) prog" where
  "Datastore_unlock_body getTimeOf cfg config =
     Datastore_safeGet cfg (cfg_name config) (Datastore_unlock_seen getTimeOf cfg config)"

definition Datastore_extend_seen ::
  "(jsv \<Rightarrow> jsnum option) \<Rightarrow> ResolvedDatastoreConfiguration \<Rightarrow> LockConfiguration \<Rightarrow> jsnum \<Rightarrow> jsv \<Rightarrow> (ds_txn, jsv) prog" where
  "Datastore_extend_seen getTimeOf cfg config previous existing =
     (if \<not> truthy existing then Ret (JBool False)
      else if \<not> strict_eq (jget existing (fn_lockedBy (ds_fieldNames cfg))) (JStr (ds_lockedByValue cfg)) then Ret (JBool False)
      else let current = Datastore_parseFieldValue getTimeOf (jget existing (fn_lockUntil (ds_fieldNames cfg))) in
        if \<not> js_eq current previous then Ret (JBool False)
        else Now (\<lambda>now. if js_le current now then Ret (JBool False)
          else sync (Datastore_toFieldValue cfg (lockAtMostUntil config)) (\<lambda>v.
            Datastore_upsert cfg (cfg_name config)
              (obj (spread (own_props existing) [(fn_lockUntil (ds_fieldNames cfg), v)])) (JBool True))))"

definition Datastore_extend_body ::
  "(jsv \<Rightarrow> jsnum option) \<Rightarrow> ResolvedDatastoreConfiguration \<Rightarrow> LockConfiguration \<Rightarrow> jsnum \<Rightarrow> (ds_txn, jsv) prog" where
  "Datastore_extend_body getTimeOf cfg config previous =
     Datastore_safeGet cfg (cfg_name config) (Datastore_extend_seen getTimeOf cfg config previous)"

definition DatastoreStorageAccessor :: "(jsv \<Rightarrow> jsnum option) \<Rightarrow> ResolvedDatastoreConfiguration \<Rightarrow> ds_req StorageAccessor" where
  "DatastoreStorageAccessor getTimeOf cfg =
     \<lparr>acc_insertRecord = (\<lambda>c. request (DsTransaction (Datastore_insert_body cfg c)) (\<lambda>r. Ret (truthy r))),
      acc_updateRecord = (\<lambda>c. request (DsTransaction (Datastore_update_body getTimeOf cfg c)) (\<lambda>r. Ret (truthy r))),
      acc_unlock = (\<lambda>c. request (DsTransaction (Datastore_unlock_body getTimeOf cfg c)) (\<lambda>_. Ret ())),
      acc_extend = (\<lambda>c previous. case previous of None \<Rightarrow> Ret False
        | Some p \<Rightarrow> request (DsTransaction (Datastore_extend_body getTimeOf cfg c p)) (\<lambda>r. Ret (truthy r)))\<rparr>"

definition createDatastoreProvider_lock ::
  "(jsv \<Rightarrow> jsnum option) \<Rightarrow> ResolvedDatastoreConfiguration \<Rightarrow> LockConfiguration \<Rightarrow> (ds_req storage_req, unit asl option) prog" where
  "createDatastoreProvider_lock getTimeOf resolved config =
     StorageBasedLockProvider_lock (DatastoreStorageAccessor getTimeOf resolved) config"

section \<open>Properties\<close>

text \<open>A date read back is a whole number of milliseconds.\<close>

lemma of_fields_int: "of_fields y ns = Fin r \<Longrightarrow> r = of_int \<lfloor>r\<rfloor>"
  by (cases "(y, ns)" rule: of_fields.cases) (auto simp: new_Date.simps split: if_splits)

lemma Date_parse_int: "Date_parse_value v = Fin r \<Longrightarrow> r = of_int \<lfloor>r\<rfloor>"
  by (auto simp: Date_parse_value_def Date_parse_def parse_year6_def of_fields_int
      split: jsv.splits list.splits if_splits option.splits)


definition demo_lib :: firestore_lib where
  "demo_lib = \<lparr>fromMillis = (\<lambda>n. Inr (JObj ''Timestamp'' [(''ms'', JNum n)])),
     toMillisOf = (\<lambda>v. case jget v ''ms'' of JNum n \<Rightarrow> Some n | _ \<Rightarrow> None), snapGet = jget\<rparr>"

definition demo_fs :: ResolvedFirestoreConfiguration where
  "demo_fs = \<lparr>fs_collectionName = ''shedlock'',
     fs_fieldNames = \<lparr>fn_lockUntil = ''lockUntil'', fn_lockedAt = ''lockedAt'', fn_lockedBy = ''lockedBy''\<rparr>,
     fs_lockedByValue = ''host'', fs_useTimestamps = True\<rparr>"


text \<open>
  C20: With ISO strings a lock whose deadline is not a whole number of milliseconds (durations may be fractions) is never
  released: the stored deadline was truncated, so \<open>unlock\<close> finds no record to change whatever it reads.
\<close>

theorem Firestore_fractional_unlock:
  assumes "lockAtMostUntil config = Fin u" "u \<noteq> of_int \<lfloor>u\<rfloor>"
    and "toMillisOf lib (snapGet lib snap (fn_lockUntil (fs_fieldNames cfg))) = None"
  shows "Firestore_unlock_seen lib cfg config snap = Ret JUndef"
proof -
  have "\<not> js_eq (Firestore_toMillis lib (snapGet lib snap (fn_lockUntil (fs_fieldNames cfg)))) (lockAtMostUntil config)"
    using assms Date_parse_int by (auto simp: Firestore_toMillis_def js_eq_def)
  then show ?thesis by (simp add: Firestore_unlock_seen_def)
qed

theorem Firestore_fractional_unlock_witness:
  "Firestore_unlock_seen demo_lib (demo_fs\<lparr>fs_useTimestamps := False\<rparr>) (job_config\<lparr>lockAtMostFor := Fin (201 / 2)\<rparr>)
     (obj [(''exists'', JBool True), (''lockedBy'', JStr ''host''), (''lockUntil'', JStr (iso_string 100))]) = Ret JUndef"
proof -
  have "\<lfloor>201 / 2 :: rat\<rfloor> = 100" by (simp add: floor_eq_iff)
  then show ?thesis
    by (intro Firestore_fractional_unlock [where u = "201 / 2"])
       (simp_all add: lockAtMostUntil_def demo_lib_def demo_fs_def job_config_def)
qed

end
