(* ===== verification/Spanner.thy ===== *)
theory Spanner
  imports StorageBased Columns
begin

text \<open>
  packages/spanner/src: the accessor over Cloud Spanner.  \<open>insertRecord\<close> and \<open>updateRecord\<close> use mutations, \<open>unlock\<close> and \<open>extend\<close> an SQL
  update with named parameters; the identifiers in the SQL are the validated ones of the configuration.  As in
  \<open>Transactions\<close>, the callback of a transaction is part of the request.
\<close>

section \<open>Configuration (spanner-configuration.ts)\<close>

record SpannerConfiguration =
  sp_tableName :: string
  sp_columnNames :: ColumnNames
  sp_lockedByValue :: string

definition validateSpannerIdentifiers :: "string \<Rightarrow> ColumnNames \<Rightarrow> jsv + unit" where
  "validateSpannerIdentifiers tableName cols =
     also_check (validateIdentifier tableName ''tableName'')
     (also_check (validateIdentifier (cn_name cols) ''columnNames.name'')
     (also_check (validateIdentifier (cn_lockUntil cols) ''columnNames.lockUntil'')
     (also_check (validateIdentifier (cn_lockedAt cols) ''columnNames.lockedAt'')
                 (validateIdentifier (cn_lockedBy cols) ''columnNames.lockedBy''))))"

definition resolveSpannerConfiguration ::
  "string \<Rightarrow> bool \<Rightarrow> string option \<Rightarrow> (string \<Rightarrow> string option) \<Rightarrow> string option \<Rightarrow> jsv + SpannerConfiguration" where
  "resolveSpannerConfiguration hostname database table columns lockedBy =
     (if \<not> database then Inl (LockException ''SpannerConfiguration: database is required'')
      else let tableName = opt_or table ''shedlock'';
               merged = \<lparr>cn_name = opt_or (columns ''name'') ''name'', cn_lockUntil = opt_or (columns ''lockUntil'') ''lockUntil'',
                         cn_lockedAt = opt_or (columns ''lockedAt'') ''lockedAt'',
                         cn_lockedBy = opt_or (columns ''lockedBy'') ''lockedBy''\<rparr>
      in also_check (validateSpannerIdentifiers tableName merged)
           (Inr \<lparr>sp_tableName = tableName, sp_columnNames = merged, sp_lockedByValue = opt_or lockedBy hostname\<rparr>))"

section \<open>The accessor (spanner-storage-accessor.ts)\<close>

datatype sp_txn =
    SpInsert string jsv
  | SpRead string "string list" "string list"
  | SpUpdate string jsv
  | SpRunUpdate string "(string \<times> jsv) list" "string list"
  | SpCommit

datatype sp_req = RunTransactionAsync "(sp_txn, jsv) prog"

definition readLockUntilMillis :: "(jsv \<Rightarrow> jsnum option) \<Rightarrow> jsv \<Rightarrow> string \<Rightarrow> jsv + jsnum" where
  "readLockUntilMillis getTimeOf value lockName =
     (let millis = (case value of
          JDate d \<Rightarrow> d
        | JStr s \<Rightarrow> Date_parse s
        | _ \<Rightarrow> (if is_object value then (case getTimeOf value of Some ms \<Rightarrow> ms | None \<Rightarrow> NaN) else NaN))
      in if \<not> js_isFinite millis then Inl (LockException (''Invalid lockUntil for '' @ lockName)) else Inr millis)"

definition Spanner_row :: "SpannerConfiguration \<Rightarrow> LockConfiguration \<Rightarrow> jsnum \<Rightarrow> jsv + jsv" where
  "Spanner_row cfg config now =
     (case Utils_toIsoString (lockAtMostUntil config) of Inl e \<Rightarrow> Inl e | Inr until \<Rightarrow>
     (case Utils_toIsoString now of Inl e \<Rightarrow> Inl e | Inr lockedAt \<Rightarrow>
       Inr (mk_obj [(cn_name (sp_columnNames cfg), JStr (cfg_name config)), (cn_lockUntil (sp_columnNames cfg), JStr until),
                    (cn_lockedAt (sp_columnNames cfg), JStr lockedAt),
                    (cn_lockedBy (sp_columnNames cfg), JStr (sp_lockedByValue cfg))])))"

definition Spanner_insertRecord :: "SpannerConfiguration \<Rightarrow> LockConfiguration \<Rightarrow> (sp_req, bool) prog" where
  "Spanner_insertRecord cfg config =
     try_request (RunTransactionAsync (Now (\<lambda>now. sync (Spanner_row cfg config now) (\<lambda>row.
         request (SpInsert (sp_tableName cfg) row) (\<lambda>_. request SpCommit (\<lambda>_. Ret (JBool True)))))))
       (\<lambda>r. Ret (truthy r))
       (\<lambda>e. case prop_of e ''code'' of
          Inl te \<Rightarrow> Raise te
        | Inr code \<Rightarrow> if strict_eq code (JNum (Fin 6)) \<and> truthy e \<or> strict_eq code (JNum (Fin 9)) then Ret False else Raise e)"

definition Spanner_update_body ::
  "(jsv \<Rightarrow> jsnum option) \<Rightarrow> SpannerConfiguration \<Rightarrow> LockConfiguration \<Rightarrow> (sp_txn, jsv) prog" where
  "Spanner_update_body getTimeOf cfg config =
     request (SpRead (sp_tableName cfg) [cfg_name config] [cn_lockUntil (sp_columnNames cfg)]) (\<lambda>r.
     sync (js_at r 0) (\<lambda>rows.
       if js_len rows = 0 then Raise (LockException (''Lock record not found: '' @ cfg_name config))
       else sync (js_at rows 0) (\<lambda>row.
         sync (readLockUntilMillis getTimeOf (jget row (cn_lockUntil (sp_columnNames cfg))) (cfg_name config)) (\<lambda>current.
           Now (\<lambda>now. if js_lt now current then Ret (JBool False)
             else Now (\<lambda>now2. sync (Spanner_row cfg config now2) (\<lambda>new.
               request (SpUpdate (sp_tableName cfg) new) (\<lambda>_. request SpCommit (\<lambda>_. Ret (JBool True))))))))))"

definition Spanner_unlock_sql :: "SpannerConfiguration \<Rightarrow> string" where
  "Spanner_unlock_sql cfg = (let c = sp_columnNames cfg in
     ''UPDATE '' @ bq (sp_tableName cfg) @ '' SET '' @ bq (cn_lockUntil c) @ '' = @unlockTime WHERE '' @ bq (cn_name c) @
     '' = @name AND '' @ bq (cn_lockedBy c) @ '' = @lockedBy AND '' @ bq (cn_lockUntil c) @ '' = @expectedLockUntil'')"

definition Spanner_extend_sql :: "SpannerConfiguration \<Rightarrow> string" where
  "Spanner_extend_sql cfg = (let c = sp_columnNames cfg in
     ''UPDATE '' @ bq (sp_tableName cfg) @ '' SET '' @ bq (cn_lockUntil c) @ '' = @lockUntil WHERE '' @ bq (cn_name c) @
     '' = @name AND '' @ bq (cn_lockedBy c) @ '' = @lockedBy AND '' @ bq (cn_lockUntil c) @ '' = @expectedLockUntil AND '' @
     bq (cn_lockUntil c) @ '' > @now'')"

definition Spanner_unlock_body :: "SpannerConfiguration \<Rightarrow> LockConfiguration \<Rightarrow> (sp_txn, jsv) prog" where
  "Spanner_unlock_body cfg config = Now (\<lambda>now.
     sync (Utils_toIsoString (unlockTime now config)) (\<lambda>until.
     sync (Utils_toIsoString (lockAtMostUntil config)) (\<lambda>mine.
     request (SpRunUpdate (Spanner_unlock_sql cfg)
        [(''unlockTime'', JStr until), (''name'', JStr (cfg_name config)), (''lockedBy'', JStr (sp_lockedByValue cfg)),
         (''expectedLockUntil'', JStr mine)] [''unlockTime'', ''expectedLockUntil'']) (\<lambda>_.
     request SpCommit (\<lambda>_. Ret JUndef)))))"

definition Spanner_extend_body :: "SpannerConfiguration \<Rightarrow> LockConfiguration \<Rightarrow> jsnum \<Rightarrow> (sp_txn, jsv) prog" where
  "Spanner_extend_body cfg config previous =
     sync (Utils_toIsoString (lockAtMostUntil config)) (\<lambda>until.
     sync (Utils_toIsoString previous) (\<lambda>mine. Now (\<lambda>now.
     sync (Utils_toIsoString now) (\<lambda>isoNow.
     request (SpRunUpdate (Spanner_extend_sql cfg)
        [(''lockUntil'', JStr until), (''name'', JStr (cfg_name config)), (''lockedBy'', JStr (sp_lockedByValue cfg)),
         (''expectedLockUntil'', JStr mine), (''now'', JStr isoNow)] [''lockUntil'', ''expectedLockUntil'', ''now'']) (\<lambda>r.
     sync (js_at r 0) (\<lambda>rowCount.
     request SpCommit (\<lambda>_. Ret (JBool (js_lt (Fin 0) (js_Number rowCount))))))))))"

definition SpannerStorageAccessor :: "(jsv \<Rightarrow> jsnum option) \<Rightarrow> SpannerConfiguration \<Rightarrow> sp_req StorageAccessor" where
  "SpannerStorageAccessor getTimeOf cfg =
     \<lparr>acc_insertRecord = Spanner_insertRecord cfg,
      acc_updateRecord = (\<lambda>c. request (RunTransactionAsync (Spanner_update_body getTimeOf cfg c)) (\<lambda>r. Ret (truthy r))),
      acc_unlock = (\<lambda>c. request (RunTransactionAsync (Spanner_unlock_body cfg c)) (\<lambda>_. Ret ())),
      acc_extend = (\<lambda>c previous. case previous of None \<Rightarrow> Ret False
        | Some p \<Rightarrow> request (RunTransactionAsync (Spanner_extend_body cfg c p)) (\<lambda>r. Ret (truthy r)))\<rparr>"

text \<open>The accessor's constructor validates the identifiers again.\<close>

definition new_SpannerStorageAccessor ::
  "(jsv \<Rightarrow> jsnum option) \<Rightarrow> string \<Rightarrow> ColumnNames \<Rightarrow> string \<Rightarrow> jsv + sp_req StorageAccessor" where
  "new_SpannerStorageAccessor getTimeOf tableName cols lockedBy =
     also_check (validateSpannerIdentifiers tableName cols)
       (Inr (SpannerStorageAccessor getTimeOf \<lparr>sp_tableName = tableName, sp_columnNames = cols, sp_lockedByValue = lockedBy\<rparr>))"

definition createSpannerProvider_lock ::
  "(jsv \<Rightarrow> jsnum option) \<Rightarrow> string \<Rightarrow> ColumnNames \<Rightarrow> string \<Rightarrow> LockConfiguration \<Rightarrow> jsv + (sp_req storage_req, unit asl option) prog" where
  "createSpannerProvider_lock getTimeOf tableName cols lockedBy config =
     map_sum id (\<lambda>a. StorageBasedLockProvider_lock a config) (new_SpannerStorageAccessor getTimeOf tableName cols lockedBy)"

section \<open>Properties\<close>

text \<open>
  No configuration can escape the quoting of the SQL: for every accepted configuration each identifier matches the identifier
  pattern, so the extend statement has exactly its six pairs of back quotes, each closed around one identifier.
\<close>

theorem Spanner_sql_quoting:
  assumes "resolveSpannerConfiguration hostname database table columns lockedBy = Inr cfg"
  shows "database \<and> validateSpannerIdentifiers (sp_tableName cfg) (sp_columnNames cfg) = Inr () \<and>
    length (filter (\<lambda>c. c = CHR 0x60) (Spanner_unlock_sql cfg)) = 10 \<and>
    length (filter (\<lambda>c. c = CHR 0x60) (Spanner_extend_sql cfg)) = 12"
proof -
  have db: "database" and ok: "validateSpannerIdentifiers (sp_tableName cfg) (sp_columnNames cfg) = Inr ()"
    using assms by (auto simp: resolveSpannerConfiguration_def Let_def split: if_splits)
  then have "IDENTIFIER_RE_test (sp_tableName cfg)" "IDENTIFIER_RE_test (cn_name (sp_columnNames cfg))"
    "IDENTIFIER_RE_test (cn_lockUntil (sp_columnNames cfg))" "IDENTIFIER_RE_test (cn_lockedBy (sp_columnNames cfg))"
    by (simp_all add: validateSpannerIdentifiers_def validateIdentifier_Inr)
  note z = this [THEN identifier_plain(1), THEN count_plain]
  show ?thesis
    using db ok z by (simp add: Spanner_unlock_sql_def Spanner_extend_sql_def bq_def Let_def)
qed

theorem Spanner_sql_quoting_witness:
  "\<exists>cfg. resolveSpannerConfiguration ''host'' True None (\<lambda>_. None) None = Inr cfg \<and>
     length (filter (\<lambda>c. c = CHR 0x60) (Spanner_extend_sql cfg)) = 12"
proof -
  let ?cfg = "\<lparr>sp_tableName = ''shedlock'', sp_columnNames = \<lparr>cn_name = ''name'', cn_lockUntil = ''lockUntil'',
     cn_lockedAt = ''lockedAt'', cn_lockedBy = ''lockedBy''\<rparr>, sp_lockedByValue = ''host''\<rparr>"
  have r: "resolveSpannerConfiguration ''host'' True None (\<lambda>_. None) None = Inr ?cfg"
    by (simp add: resolveSpannerConfiguration_def opt_or_def validateSpannerIdentifiers_def validateIdentifier_Inr
        IDENTIFIER_RE_test_def is_id_start_def Let_def)
  from Spanner_sql_quoting [OF r] r show ?thesis by blast
qed

end
