(* ===== verification/Cassandra.thy ===== *)
theory Cassandra
  imports StorageBased Columns
begin

text \<open>
  packages/cassandra/src: lightweight transactions, one conditional CQL statement per operation.  The row the server answers with says whether
  the condition held; \<open>updateRecord\<close> tells a held lock from a missing record by the row's columns.
\<close>

section \<open>CQL (cassandra-cql.ts)\<close>

record CassandraOptions =
  ca_keyspace :: string
  ca_tableName :: string
  ca_columnNames :: ColumnNames
  ca_lockedByValue :: string
  ca_consistencyLevel :: jsnum
  ca_serialConsistencyLevel :: jsnum

definition ca_table :: "CassandraOptions \<Rightarrow> string" where
  "ca_table o' = ca_keyspace o' @ ''.'' @ ca_tableName o'"

definition buildInsertCql :: "CassandraOptions \<Rightarrow> string" where
  "buildInsertCql o' = (let c = ca_columnNames o' in
     ''INSERT INTO '' @ ca_table o' @ '' ('' @ cn_name c @ '', '' @ cn_lockUntil c @ '', '' @ cn_lockedAt c @ '', '' @
     cn_lockedBy c @ '') VALUES (?, ?, ?, ?) IF NOT EXISTS'')"

definition buildUpdateCql :: "CassandraOptions \<Rightarrow> string" where
  "buildUpdateCql o' = (let c = ca_columnNames o' in
     ''UPDATE '' @ ca_table o' @ '' SET '' @ cn_lockUntil c @ '' = ?, '' @ cn_lockedAt c @ '' = ?, '' @ cn_lockedBy c @
     '' = ? WHERE '' @ cn_name c @ '' = ? IF '' @ cn_lockUntil c @ '' < ?'')"

definition buildUnlockCql :: "CassandraOptions \<Rightarrow> string" where
  "buildUnlockCql o' = (let c = ca_columnNames o' in
     ''UPDATE '' @ ca_table o' @ '' SET '' @ cn_lockUntil c @ '' = ? WHERE '' @ cn_name c @ '' = ? IF '' @ cn_lockedBy c @
     '' = ? AND '' @ cn_lockUntil c @ '' = ?'')"

definition buildExtendCql :: "CassandraOptions \<Rightarrow> string" where
  "buildExtendCql o' = (let c = ca_columnNames o' in
     ''UPDATE '' @ ca_table o' @ '' SET '' @ cn_lockUntil c @ '' = ? WHERE '' @ cn_name c @ '' = ? IF '' @ cn_lockedBy c @
     '' = ? AND '' @ cn_lockUntil c @ '' = ? AND '' @ cn_lockUntil c @ '' > ?'')"

definition buildCreateTableCql :: "CassandraOptions \<Rightarrow> string" where
  "buildCreateTableCql o' = (let c = ca_columnNames o' in
     ''CREATE TABLE IF NOT EXISTS '' @ ca_table o' @ '' ('' @ cn_name c @ '' text PRIMARY KEY, '' @ cn_lockUntil c @
     '' timestamp, '' @ cn_lockedAt c @ '' timestamp, '' @ cn_lockedBy c @ '' text)'')"

section \<open>Options (cassandra-lock-provider.ts, validation.ts)\<close>

definition validateSerialConsistency :: "jsnum \<Rightarrow> jsv + unit" where
  "validateSerialConsistency level =
     (if \<not> js_eq level (Fin 8) \<and> \<not> js_eq level (Fin 9)
      then Inl (LockException (''serialConsistencyLevel must be SERIAL or LOCAL_SERIAL for LWT, got '' @ js_show level))
      else Inr ())"

text \<open>\<open>columns\<close> are the properties of \<open>options.columnNames\<close>, spread over the defaults.\<close>

definition Cassandra_columns :: "(string \<times> string) list \<Rightarrow> ColumnNames" where
  "Cassandra_columns columns =
     (let m = map_of (spread [(''name'', ''name''), (''lockUntil'', ''lock_until''), (''lockedAt'', ''locked_at''),
                              (''lockedBy'', ''locked_by'')] columns) in
      \<lparr>cn_name = the (m ''name''), cn_lockUntil = the (m ''lockUntil''), cn_lockedAt = the (m ''lockedAt''),
       cn_lockedBy = the (m ''lockedBy'')\<rparr>)"

definition Cassandra_resolveOptions ::
  "string \<Rightarrow> string \<Rightarrow> string option \<Rightarrow> (string \<times> string) list \<Rightarrow> string option \<Rightarrow> jsnum option \<Rightarrow> jsnum option \<Rightarrow> jsv + CassandraOptions" where
  "Cassandra_resolveOptions hostname keyspace table columns lockedBy consistency serial =
     (let tableName = opt_or table ''shedlock''; c = Cassandra_columns columns;
          serialLevel = (case serial of None \<Rightarrow> Fin 9 | Some s \<Rightarrow> s) in
      also_check (validateIdentifier keyspace ''keyspace'')
     (also_check (validateIdentifier tableName ''tableName'')
     (also_check (validateIdentifier (cn_name c) ''columnNames.name'')
     (also_check (validateIdentifier (cn_lockUntil c) ''columnNames.lockUntil'')
     (also_check (validateIdentifier (cn_lockedAt c) ''columnNames.lockedAt'')
     (also_check (validateIdentifier (cn_lockedBy c) ''columnNames.lockedBy'')
     (also_check (validateSerialConsistency serialLevel)
       (Inr \<lparr>ca_keyspace = keyspace, ca_tableName = tableName, ca_columnNames = c,
             ca_lockedByValue = opt_or lockedBy hostname,
             ca_consistencyLevel = (case consistency of None \<Rightarrow> Fin 6 | Some l \<Rightarrow> l),
             ca_serialConsistencyLevel = serialLevel\<rparr>))))))))"

section \<open>The accessor (cassandra-storage-accessor.ts)\<close>

datatype cassandra_req =
    CqlExecute string "jsv list" jsnum jsnum
  | CqlStatement string

definition Cassandra_executeRow :: "CassandraOptions \<Rightarrow> string \<Rightarrow> jsv list \<Rightarrow> (jsv \<Rightarrow> (cassandra_req, 'a) prog) \<Rightarrow> (cassandra_req, 'a) prog" where
  "Cassandra_executeRow opts cql params f =
     request (CqlExecute cql params (ca_consistencyLevel opts) (ca_serialConsistencyLevel opts)) (\<lambda>result.
       sync (js_at (jget result ''rows'') 0) f)"

definition ca_applied :: "jsv \<Rightarrow> bool" where
  "ca_applied row \<longleftrightarrow> strict_eq (jget row ''[applied]'') (JBool True)"

definition Cassandra_executeLwt :: "CassandraOptions \<Rightarrow> string \<Rightarrow> jsv list \<Rightarrow> (cassandra_req, bool) prog" where
  "Cassandra_executeLwt opts cql params = Cassandra_executeRow opts cql params (\<lambda>row. Ret (ca_applied row))"

text \<open>\<open>getOf row\<close>: the driver row's \<open>get\<close> method, when it has one.\<close>

definition ca_cell :: "(jsv \<Rightarrow> (string \<Rightarrow> jsv) option) \<Rightarrow> jsv \<Rightarrow> string \<Rightarrow> jsv" where
  "ca_cell getOf row name = (case getOf row of Some g \<Rightarrow> g name | None \<Rightarrow> jget row name)"

definition first_defined :: "jsv list \<Rightarrow> jsv" where
  "first_defined vs = (case find (\<lambda>v. v \<noteq> JUndef) vs of None \<Rightarrow> JUndef | Some v \<Rightarrow> v)"

definition ca_readLockUntil :: "(jsv \<Rightarrow> (string \<Rightarrow> jsv) option) \<Rightarrow> jsv \<Rightarrow> string \<Rightarrow> jsv" where
  "ca_readLockUntil getOf row column =
     (if row = JUndef \<or> row = JNull then JUndef
      else let folded = toLowerCase column;
               names = (if folded = column then [column] else [column, folded]);
               keys = filter (\<lambda>k. toLowerCase k = folded) (map fst (own_props row))
           in first_defined (map (ca_cell getOf row) (names @ keys)))"

definition js_Date :: "jsnum \<Rightarrow> jsv" where
  "js_Date x = JDate (new_Date x)"

definition Cassandra_insertRecord :: "CassandraOptions \<Rightarrow> LockConfiguration \<Rightarrow> (cassandra_req, bool) prog" where
  "Cassandra_insertRecord opts config = Now (\<lambda>now. Cassandra_executeLwt opts (buildInsertCql opts)
     [JStr (cfg_name config), js_Date (lockAtMostUntil config), js_Date now, JStr (ca_lockedByValue opts)])"

definition Cassandra_updateRecord ::
  "(jsv \<Rightarrow> (string \<Rightarrow> jsv) option) \<Rightarrow> CassandraOptions \<Rightarrow> LockConfiguration \<Rightarrow> (cassandra_req, bool) prog" where
  "Cassandra_updateRecord getOf opts config = Now (\<lambda>now. Now (\<lambda>now2.
     Cassandra_executeRow opts (buildUpdateCql opts)
       [js_Date (lockAtMostUntil config), js_Date now2, JStr (ca_lockedByValue opts), JStr (cfg_name config), js_Date now]
       (\<lambda>row. if ca_applied row then Ret True
         else if ca_readLockUntil getOf row (cn_lockUntil (ca_columnNames opts)) \<notin> {JUndef, JNull} then Ret False
         else Raise (LockException (''Lock record not found: '' @ cfg_name config)))))"

definition Cassandra_unlock :: "CassandraOptions \<Rightarrow> LockConfiguration \<Rightarrow> (cassandra_req, unit) prog" where
  "Cassandra_unlock opts config = Now (\<lambda>now.
     await (Cassandra_executeLwt opts (buildUnlockCql opts)
       [js_Date (unlockTime now config), JStr (cfg_name config), JStr (ca_lockedByValue opts), js_Date (lockAtMostUntil config)])
       (\<lambda>_. Ret ()))"

definition Cassandra_extend :: "CassandraOptions \<Rightarrow> LockConfiguration \<Rightarrow> jsnum option \<Rightarrow> (cassandra_req, bool) prog" where
  "Cassandra_extend opts config previousLockAtMostUntil = (case previousLockAtMostUntil of
     None \<Rightarrow> Ret False
   | Some previous \<Rightarrow> Now (\<lambda>now. Cassandra_executeLwt opts (buildExtendCql opts)
       [js_Date (lockAtMostUntil config), JStr (cfg_name config), JStr (ca_lockedByValue opts), js_Date previous, js_Date now]))"

definition CassandraStorageAccessor ::
  "(jsv \<Rightarrow> (string \<Rightarrow> jsv) option) \<Rightarrow> CassandraOptions \<Rightarrow> cassandra_req StorageAccessor" where
  "CassandraStorageAccessor getOf opts =
     \<lparr>acc_insertRecord = Cassandra_insertRecord opts, acc_updateRecord = Cassandra_updateRecord getOf opts,
      acc_unlock = Cassandra_unlock opts, acc_extend = Cassandra_extend opts\<rparr>"

definition CassandraLockProvider_lock ::
  "(jsv \<Rightarrow> (string \<Rightarrow> jsv) option) \<Rightarrow> CassandraOptions \<Rightarrow> LockConfiguration \<Rightarrow> (cassandra_req storage_req, unit asl option) prog" where
  "CassandraLockProvider_lock getOf opts config = StorageBasedLockProvider_lock (CassandraStorageAccessor getOf opts) config"

definition CassandraLockProvider_clearCache :: "string \<Rightarrow> (cassandra_req storage_req, unit) prog" where
  "CassandraLockProvider_clearCache name = StorageBasedLockProvider_clearCache name"

definition createLockTable :: "string \<Rightarrow> string \<Rightarrow> string option \<Rightarrow> (string \<times> string) list \<Rightarrow> (cassandra_req, unit) prog" where
  "createLockTable hostname keyspace table columns =
     sync (Cassandra_resolveOptions hostname keyspace table columns None None None) (\<lambda>opts. let c = ca_columnNames opts in
       request (CqlStatement (''CREATE TABLE IF NOT EXISTS '' @ ca_keyspace opts @ ''.'' @ ca_tableName opts @ '' ('' @
         cn_name c @ '' text PRIMARY KEY, '' @ cn_lockUntil c @ '' timestamp, '' @ cn_lockedAt c @ '' timestamp, '' @
         cn_lockedBy c @ '' text)'')) (\<lambda>_. Ret ()))"

section \<open>Properties\<close>

lemma lower_char_idem [simp]: "lower_char (lower_char c) = lower_char c"
  by (auto simp: lower_char_def Let_def)

lemma toLowerCase_idem: "toLowerCase (toLowerCase s) = toLowerCase s"
  by (induction s) auto

lemma first_defined_cases:
  "\<forall>v \<in> set vs. v \<noteq> JNull \<Longrightarrow> first_defined vs \<in> {JUndef, JNull} \<longleftrightarrow> (\<forall>v \<in> set vs. v = JUndef)"
  by (induction vs) (auto simp: first_defined_def)

text \<open>
  \<open>updateRecord\<close> of the Cassandra accessor sorts the server's row into three cases: true exactly for an applied statement,
  false exactly when the row has a deadline column under any spelling of its case, and otherwise the error that the record does not exist.
\<close>

theorem Cassandra_update_cases:
  assumes "h (CqlExecute (buildUpdateCql opts)
      [js_Date (lockAtMostUntil config), js_Date (ClockProvider_now w), JStr (ca_lockedByValue opts), JStr (cfg_name config),
       js_Date (ClockProvider_now w)] (ca_consistencyLevel opts) (ca_serialConsistencyLevel opts)) w = (Inr v, w')"
    and "jget v ''rows'' = JArr [JObj ''Row'' ps]" "getOf (JObj ''Row'' ps) = None"
    and "\<forall>(k, x) \<in> set ps. x \<noteq> JUndef \<and> x \<noteq> JNull"
  shows "run h (Cassandra_updateRecord getOf opts config) w =
     (if map_of ps ''[applied]'' = Some (JBool True) then Inr True
      else if \<exists>k \<in> fst ` set ps. toLowerCase k = toLowerCase (cn_lockUntil (ca_columnNames opts)) then Inr False
      else Inl (LockException (''Lock record not found: '' @ cfg_name config)), w')"
proof -
  let ?row = "JObj ''Row'' ps" and ?col = "cn_lockUntil (ca_columnNames opts)"
  have cell: "ca_cell getOf ?row = jget ?row" using assms(3) by (simp add: ca_cell_def fun_eq_iff)
  have app: "ca_applied ?row \<longleftrightarrow> map_of ps ''[applied]'' = Some (JBool True)"
    by (auto simp: ca_applied_def jget_obj strict_eq_def split: option.splits jsv.splits)
  have r: "run h (Cassandra_updateRecord getOf opts config) w =
     (if ca_applied ?row then Inr True
      else if ca_readLockUntil getOf ?row ?col \<notin> {JUndef, JNull} then Inr False
      else Inl (LockException (''Lock record not found: '' @ cfg_name config)), w')"
    using assms(1,2) by (simp add: Cassandra_updateRecord_def Cassandra_executeRow_def)
  have val': "jget ?row k \<noteq> JNull \<and> (jget ?row k = JUndef \<longleftrightarrow> k \<notin> fst ` set ps)" for k
  proof (cases "map_of ps k")
    case None
    then show ?thesis by (simp add: jget_obj flip: map_of_eq_None_iff)
  next
    case (Some x)
    then have "(k, x) \<in> set ps" by (rule map_of_SomeD)
    then show ?thesis using Some assms(4) by (force simp: jget_obj)
  qed
  then have val: "jget ?row k \<noteq> JNull" "jget ?row k = JUndef \<longleftrightarrow> k \<notin> fst ` set ps" for k by simp_all
  define names where "names = (if toLowerCase ?col = ?col then [?col] else [?col, toLowerCase ?col]) @
    filter (\<lambda>k. toLowerCase k = toLowerCase ?col) (map fst ps)"
  have rd: "ca_readLockUntil getOf ?row ?col = first_defined (map (jget ?row) names)"
    by (simp add: ca_readLockUntil_def cell names_def Let_def)
  have "ca_readLockUntil getOf ?row ?col \<in> {JUndef, JNull} \<longleftrightarrow> (\<forall>k \<in> set names. k \<notin> fst ` set ps)"
    unfolding rd using first_defined_cases [of "map (jget ?row) names"] val by simp
  also have "\<dots> \<longleftrightarrow> \<not> (\<exists>k \<in> fst ` set ps. toLowerCase k = toLowerCase ?col)"
    using toLowerCase_idem [of ?col] by (auto simp: names_def simp del: map_map)
  finally show ?thesis by (simp add: r app)
qed

definition ca_opts :: CassandraOptions where
  "ca_opts = \<lparr>ca_keyspace = ''ks'', ca_tableName = ''shedlock'', ca_columnNames = Cassandra_columns [],
     ca_lockedByValue = ''host'', ca_consistencyLevel = Fin 6, ca_serialConsistencyLevel = Fin 9\<rparr>"

theorem Cassandra_update_cases_witness:
  "run scripted (Cassandra_updateRecord (\<lambda>_. None) ca_opts job_config)
     (script_world 5 [Inr (obj [(''rows'', JArr [JObj ''Row'' [(''[applied]'', JBool True)]])])]) = (Inr True, script_world 5 [])"
  by (subst Cassandra_update_cases [where w' = "script_world 5 []" and ps = "[(''[applied]'', JBool True)]"
      and v = "obj [(''rows'', JArr [JObj ''Row'' [(''[applied]'', JBool True)]])]"]) simp_all

end
