(* ===== verification/Neo4j.thy ===== *)
theory Neo4j
  imports StorageBased Columns
begin

text \<open>
  packages/neo4j/src: the accessor over a graph database.  Every operation opens a session, runs a managed transaction
  in it (its callback is part of the request: the driver may run it again) and closes the session whatever happened.
\<close>

section \<open>Cypher (neo4j-cypher.ts)\<close>

record Neo4jOptions =
  neo_label :: string
  neo_nameCol :: string
  neo_lockUntilCol :: string
  neo_lockedAtCol :: string
  neo_lockedByCol :: string

definition neo_match :: "Neo4jOptions \<Rightarrow> string" where
  "neo_match r = ''MATCH (lock:'' @ bq (neo_label r) @ '' {'' @ bq (neo_nameCol r) @ '': $name})''"

definition buildInsertCypher :: "Neo4jOptions \<Rightarrow> string" where
  "buildInsertCypher r =
     ''CREATE (lock:'' @ bq (neo_label r) @ '' {'' @ bq (neo_nameCol r) @ '': $name, '' @ bq (neo_lockUntilCol r) @
     '': $lockUntil, '' @ bq (neo_lockedAtCol r) @ '': $lockedAt, '' @ bq (neo_lockedByCol r) @ '': $lockedBy})''"

definition buildProbeLockExpiryCypher :: "Neo4jOptions \<Rightarrow> string" where
  "buildProbeLockExpiryCypher r = neo_match r @ '' RETURN lock.'' @ bq (neo_lockUntilCol r) @ '' <= $now AS expired''"

definition buildUpdateCypher :: "Neo4jOptions \<Rightarrow> string" where
  "buildUpdateCypher r =
     neo_match r @ '' WHERE lock.'' @ bq (neo_lockUntilCol r) @ '' <= $now SET lock.'' @ bq (neo_lockUntilCol r) @
     '' = $lockUntil, lock.'' @ bq (neo_lockedAtCol r) @ '' = $lockedAt, lock.'' @ bq (neo_lockedByCol r) @
     '' = $lockedBy RETURN lock''"

definition buildUnlockCypher :: "Neo4jOptions \<Rightarrow> string" where
  "buildUnlockCypher r =
     neo_match r @ '' WHERE lock.'' @ bq (neo_lockedByCol r) @ '' = $lockedBy AND lock.'' @ bq (neo_lockUntilCol r) @
     '' = $expectedLockUntil SET lock.'' @ bq (neo_lockUntilCol r) @ '' = $unlockTime''"

definition buildExtendCypher :: "Neo4jOptions \<Rightarrow> string" where
  "buildExtendCypher r =
     neo_match r @ '' WHERE lock.'' @ bq (neo_lockedByCol r) @ '' = $lockedBy AND lock.'' @ bq (neo_lockUntilCol r) @
     '' = $expectedLockUntil AND lock.'' @ bq (neo_lockUntilCol r) @ '' > $now SET lock.'' @ bq (neo_lockUntilCol r) @
     '' = $lockUntil RETURN lock''"

definition buildCreateConstraintCypher :: "Neo4jOptions \<Rightarrow> string" where
  "buildCreateConstraintCypher r =
     ''CREATE CONSTRAINT shedlock_name_unique IF NOT EXISTS FOR (lock:'' @ bq (neo_label r) @ '') REQUIRE lock.'' @
     bq (neo_nameCol r) @ '' IS UNIQUE''"

section \<open>Options (neo4j-lock-provider.ts)\<close>

definition Neo4j_resolveOptions :: "string option \<Rightarrow> (string \<Rightarrow> string option) \<Rightarrow> jsv + Neo4jOptions" where
  "Neo4j_resolveOptions labelOpt columnNames =
     (let label = opt_or labelOpt ''ShedLock''; nameCol = opt_or (columnNames ''name'') ''name'';
          lockUntilCol = opt_or (columnNames ''lockUntil'') ''lockUntil'';
          lockedAtCol = opt_or (columnNames ''lockedAt'') ''lockedAt'';
          lockedByCol = opt_or (columnNames ''lockedBy'') ''lockedBy'' in
      also_check (validateIdentifier label ''label'')
     (also_check (validateIdentifier nameCol ''columnNames.name'')
     (also_check (validateIdentifier lockUntilCol ''columnNames.lockUntil'')
     (also_check (validateIdentifier lockedAtCol ''columnNames.lockedAt'')
     (also_check (validateIdentifier lockedByCol ''columnNames.lockedBy'')
       (Inr \<lparr>neo_label = label, neo_nameCol = nameCol, neo_lockUntilCol = lockUntilCol, neo_lockedAtCol = lockedAtCol,
             neo_lockedByCol = lockedByCol\<rparr>))))))"

section \<open>The accessor (neo4j-storage-accessor.ts)\<close>

datatype neo_txn = RunCypher string "(string \<times> jsv) list"

datatype neo_req =
    OpenSession "string option"
  | ExecuteWrite jsv "(neo_txn, jsv) prog"
  | CloseSession jsv

definition Neo4j_isConstraintViolation :: "jsv \<Rightarrow> string \<Rightarrow> bool" where
  "Neo4j_isConstraintViolation e lockName \<longleftrightarrow> truthy (jget e ''message'') \<and>
     strict_eq (jget e ''code'') (JStr ''Neo.ClientError.Schema.ConstraintValidationFailed'') \<and>
     str_includes (str_of (jget e ''message'')) ''already exists with label'' \<and>
     str_includes (str_of (jget e ''message'')) lockName"

definition Neo4j_withSession :: "string option \<Rightarrow> (neo_txn, jsv) prog \<Rightarrow> (neo_req, jsv) prog" where
  "Neo4j_withSession database fn =
     request (OpenSession database) (\<lambda>session.
       finally_do (request (ExecuteWrite session fn) Ret) (request (CloseSession session) Ret))"

record Neo4jAccessor =
  na_opts :: Neo4jOptions
  na_lockedByValue :: string
  na_database :: "string option"

definition new_Neo4jStorageAccessor :: "string \<Rightarrow> Neo4jOptions \<Rightarrow> string option \<Rightarrow> string option \<Rightarrow> Neo4jAccessor" where
  "new_Neo4jStorageAccessor hostname opts lockedBy database =
     \<lparr>na_opts = opts, na_lockedByValue = opt_or lockedBy hostname, na_database = database\<rparr>"

definition Neo4j_insertRecord :: "Neo4jAccessor \<Rightarrow> LockConfiguration \<Rightarrow> (neo_req, bool) prog" where
  "Neo4j_insertRecord a config =
     pbind (Neo4j_withSession (na_database a) (Now (\<lambda>now. request (RunCypher (buildInsertCypher (na_opts a))
         [(''name'', JStr (cfg_name config)), (''lockUntil'', JNum (lockAtMostUntil config)), (''lockedAt'', JNum now),
          (''lockedBy'', JStr (na_lockedByValue a))]) Ret)))
       (\<lambda>r. case r of
          Inr _ \<Rightarrow> Ret True
        | Inl e \<Rightarrow> if Neo4j_isConstraintViolation e (cfg_name config) then Ret False else Raise e)"

text \<open>\<open>recordGet\<close> is the driver's \<open>Record.get\<close>.\<close>

definition Neo4j_update_body :: "(jsv \<Rightarrow> string \<Rightarrow> jsv) \<Rightarrow> Neo4jAccessor \<Rightarrow> LockConfiguration \<Rightarrow> (neo_txn, jsv) prog" where
  "Neo4j_update_body recordGet a config = Now (\<lambda>now.
     request (RunCypher (buildProbeLockExpiryCypher (na_opts a)) [(''name'', JStr (cfg_name config)), (''now'', JNum now)])
       (\<lambda>probe.
         if js_len (jget probe ''records'') = 0 then Raise (LockException (''Lock record not found: '' @ cfg_name config))
         else sync (js_at (jget probe ''records'') 0) (\<lambda>rec.
           if \<not> strict_eq (recordGet rec ''expired'') (JBool True) then Ret (JBool False)
           else Now (\<lambda>now2.
             request (RunCypher (buildUpdateCypher (na_opts a))
                [(''name'', JStr (cfg_name config)), (''now'', JNum now), (''lockUntil'', JNum (lockAtMostUntil config)),
                 (''lockedAt'', JNum now2), (''lockedBy'', JStr (na_lockedByValue a))])
               (\<lambda>result. if js_len (jget result ''records'') = 0
                  then Raise (LockException (''Lock record not found: '' @ cfg_name config))
                  else Ret (JBool True))))))"

definition Neo4j_updateRecord ::
  "(jsv \<Rightarrow> string \<Rightarrow> jsv) \<Rightarrow> Neo4jAccessor \<Rightarrow> LockConfiguration \<Rightarrow> (neo_req, bool) prog" where
  "Neo4j_updateRecord recordGet a config =
     await (Neo4j_withSession (na_database a) (Neo4j_update_body recordGet a config)) (\<lambda>r. Ret (truthy r))"

definition Neo4j_unlock :: "Neo4jAccessor \<Rightarrow> LockConfiguration \<Rightarrow> (neo_req, unit) prog" where
  "Neo4j_unlock a config =
     await (Neo4j_withSession (na_database a) (Now (\<lambda>now. request (RunCypher (buildUnlockCypher (na_opts a))
         [(''name'', JStr (cfg_name config)), (''unlockTime'', JNum (unlockTime now config)),
          (''lockedBy'', JStr (na_lockedByValue a)), (''expectedLockUntil'', JNum (lockAtMostUntil config))]) Ret)))
       (\<lambda>_. Ret ())"

definition Neo4j_extend :: "Neo4jAccessor \<Rightarrow> LockConfiguration \<Rightarrow> jsnum option \<Rightarrow> (neo_req, bool) prog" where
  "Neo4j_extend a config previousLockAtMostUntil = (case previousLockAtMostUntil of
     None \<Rightarrow> Ret False
   | Some previous \<Rightarrow>
     await (Neo4j_withSession (na_database a) (Now (\<lambda>now. request (RunCypher (buildExtendCypher (na_opts a))
         [(''name'', JStr (cfg_name config)), (''lockedBy'', JStr (na_lockedByValue a)), (''now'', JNum now),
          (''lockUntil'', JNum (lockAtMostUntil config)), (''expectedLockUntil'', JNum previous)]) Ret)))
       (\<lambda>result. Ret (0 < js_len (jget result ''records''))))"

definition Neo4jStorageAccessor :: "(jsv \<Rightarrow> string \<Rightarrow> jsv) \<Rightarrow> Neo4jAccessor \<Rightarrow> neo_req StorageAccessor" where
  "Neo4jStorageAccessor recordGet a =
     \<lparr>acc_insertRecord = Neo4j_insertRecord a, acc_updateRecord = Neo4j_updateRecord recordGet a,
      acc_unlock = Neo4j_unlock a, acc_extend = Neo4j_extend a\<rparr>"

definition Neo4jLockProvider_lock ::
  "(jsv \<Rightarrow> string \<Rightarrow> jsv) \<Rightarrow> Neo4jAccessor \<Rightarrow> LockConfiguration \<Rightarrow> (neo_req storage_req, unit asl option) prog" where
  "Neo4jLockProvider_lock recordGet a config = StorageBasedLockProvider_lock (Neo4jStorageAccessor recordGet a) config"

definition Neo4jLockProvider_clearCache :: "string \<Rightarrow> (neo_req storage_req, unit) prog" where
  "Neo4jLockProvider_clearCache name = StorageBasedLockProvider_clearCache name"

section \<open>The constraint (constraint.ts)\<close>

definition createUniqueConstraint ::
  "string option \<Rightarrow> (string \<Rightarrow> string option) \<Rightarrow> string option \<Rightarrow> (neo_req, unit) prog" where
  "createUniqueConstraint label columnNames database =
     sync (Neo4j_resolveOptions label columnNames) (\<lambda>resolved.
     request (OpenSession database) (\<lambda>session.
       finally_do
         (try_request (ExecuteWrite session (request (RunCypher (buildCreateConstraintCypher resolved) []) Ret)) (\<lambda>_. Ret ())
           (\<lambda>e. if strict_eq (jget e ''code'') (JStr ''Neo.ClientError.Schema.ConstraintValidationFailed'') then Ret () else Raise e))
         (request (CloseSession session) Ret)))"

section \<open>Properties\<close>

lemma run_withSession:
  "run h (Neo4j_withSession database fn) w =
     (case h (OpenSession database) w of
        (Inl e, w1) \<Rightarrow> (Inl e, w1)
      | (Inr s, w1) \<Rightarrow> (case h (ExecuteWrite s fn) w1 of (q, w2) \<Rightarrow>
          (case h (CloseSession s) w2 of (Inl e, w3) \<Rightarrow> (Inl e, w3) | (Inr _, w3) \<Rightarrow> (q, w3))))"
  by (auto simp: Neo4j_withSession_def run_finally_do split: prod.splits sum.splits)

text \<open>
  C21: \<open>updateRecord\<close> of the Neo4j accessor leaves no session open: over any driver, a session that was opened is closed as the last
  thing the operation does, whether the transaction succeeded or failed, and the outcome of the transaction is the
  result unless closing itself failed.
\<close>

theorem Neo4j_session_closed:
  assumes "run h (Neo4j_updateRecord recordGet a config) w = (r, w')" "h (OpenSession (na_database a)) w = (Inr s, w1)"
  shows "\<exists>q w2 c. h (ExecuteWrite s (Neo4j_update_body recordGet a config)) w1 = (q, w2) \<and> h (CloseSession s) w2 = (c, w') \<and>
     r = (case c of Inl e \<Rightarrow> Inl e | Inr _ \<Rightarrow> map_sum id truthy q)"
  using assms
  by (auto simp: Neo4j_updateRecord_def run_await run_withSession split: prod.splits sum.splits)

theorem Neo4j_session_closed_witness:
  "\<exists>q w2 c. scripted (ExecuteWrite JNull (Neo4j_update_body jget
       (new_Neo4jStorageAccessor ''host'' \<lparr>neo_label = ''L'', neo_nameCol = ''n'', neo_lockUntilCol = ''u'', neo_lockedAtCol = ''a'',
          neo_lockedByCol = ''b''\<rparr> None None) job_config)) (script_world 5 [Inl (JStr ''lost''), Inr JUndef]) = (q, w2) \<and>
     scripted (CloseSession JNull) w2 = (c, script_world 5 []) \<and> c = Inr JUndef"
proof -
  let ?a = "new_Neo4jStorageAccessor ''host'' \<lparr>neo_label = ''L'', neo_nameCol = ''n'', neo_lockUntilCol = ''u'',
     neo_lockedAtCol = ''a'', neo_lockedByCol = ''b''\<rparr> None None"
  have "run scripted (Neo4j_updateRecord jget ?a job_config)
     (script_world 5 [Inr JNull, Inl (JStr ''lost''), Inr JUndef]) = (Inl (JStr ''lost''), script_world 5 [])"
    by (simp add: Neo4j_updateRecord_def run_await run_withSession)
  from Neo4j_session_closed [OF this, of JNull "script_world 5 [Inl (JStr ''lost''), Inr JUndef]"]
  show ?thesis by (auto split: sum.splits)
qed

end
