(* ===== verification/Search.thy ===== *)
theory Search
  imports SimpleLock Columns
begin

text \<open>
  packages/search-core/src with packages/elasticsearch/src and packages/opensearch/src: one scripted update per operation.
  The accessor is its own delegate: \<open>SearchLockAccessor\<close> makes \<open>DelegatingSimpleLock\<close> objects whose unlock and extend come back to it.  The scripts run in
  the search engine; they are kept as the strings the code sends.
\<close>

section \<open>Requests, field names and errors\<close>

record SearchFieldNames =
  sf_lockUntil :: string
  sf_lockedAt :: string
  sf_lockedBy :: string


definition FieldNames_SNAKE_CASE :: SearchFieldNames where
  "FieldNames_SNAKE_CASE = \<lparr>sf_lockUntil = ''lock_until'', sf_lockedAt = ''locked_at'', sf_lockedBy = ''locked_by''\<rparr>"








section \<open>The accessor (search-lock-accessor.ts)\<close>






section \<open>The two clients\<close>












section \<open>Properties\<close>





end
