(* ===== verification/Arango.thy ===== *)
theory Arango
  imports SimpleLock Json
begin

text \<open>
  packages/arangodb/src: \<open>lock\<close> is a stream transaction with an exclusive lock on the collection, \<open>extend\<close> and \<open>unlock\<close> are a read
  followed by an update under the revision that was read.
\<close>

datatype arango_op =
    ArDocument string
  | ArSave jsv
  | ArUpdate string jsv "jsv option"

datatype arango_req =
    ArBegin "string list"
  | ArStep jsv arango_op
  | ArCommit jsv
  | ArAbort jsv
  | ArDirect arango_op

definition Arango_isDocumentNotFoundError :: "jsv \<Rightarrow> bool" where
  "Arango_isDocumentNotFoundError e \<longleftrightarrow>
     strict_eq (jget e ''errorNum'') (JNum (Fin 1202)) \<or> strict_eq (jget e ''code'') (JNum (Fin 1202))"

definition Arango_isConflictError :: "jsv \<Rightarrow> bool" where
  "Arango_isConflictError e \<longleftrightarrow>
     strict_eq (jget e ''errorNum'') (JNum (Fin 1200)) \<or> strict_eq (jget e ''code'') (JNum (Fin 1200))"

section \<open>The accessor (arangodb-accessor.ts)\<close>

definition Arango_document :: "string \<Rightarrow> LockConfiguration \<Rightarrow> jsnum \<Rightarrow> jsv + (string \<times> jsv) list" where
  "Arango_document hostname config now =
     (case Utils_toIsoString (lockAtMostUntil config) of Inl e \<Rightarrow> Inl e | Inr until \<Rightarrow>
     (case Utils_toIsoString now of Inl e \<Rightarrow> Inl e | Inr lockedAt \<Rightarrow>
       Inr [(''lockUntil'', JStr until), (''lockedAt'', JStr lockedAt), (''lockedBy'', JStr hostname)]))"

definition Arango_commit :: "LockConfiguration \<Rightarrow> jsv \<Rightarrow> (arango_req, unit asl option) prog" where
  "Arango_commit config txn = request (ArCommit txn) (\<lambda>_. Ret (Some (new_asl config ())))"

text \<open>The body of the outer \<open>try\<close>: the first read turns a missing document into \<open>null\<close>.\<close>

definition Arango_lock_seen :: "string \<Rightarrow> LockConfiguration \<Rightarrow> jsnum \<Rightarrow> jsv \<Rightarrow> jsv \<Rightarrow> (arango_req, unit asl option) prog" where
  "Arango_lock_seen hostname config now txn existing =
     (if existing = JNull
      then sync (Arango_document hostname config now) (\<lambda>doc.
             request (ArStep txn (ArSave (obj ((''_key'', JStr (cfg_name config)) # doc)))) (\<lambda>_. Arango_commit config txn))
      else sync (prop_of existing ''lockUntil'') (\<lambda>stored.
        if js_le (Date_parse_value stored) now
        then sync (Arango_document hostname config now) (\<lambda>doc.
               request (ArStep txn (ArUpdate (cfg_name config) (obj doc) None)) (\<lambda>_. Arango_commit config txn))
        else request (ArAbort txn) (\<lambda>_. Ret None)))"

definition Arango_lock_try :: "string \<Rightarrow> LockConfiguration \<Rightarrow> jsnum \<Rightarrow> jsv \<Rightarrow> (arango_req, unit asl option) prog" where
  "Arango_lock_try hostname config now txn =
     try_request (ArStep txn (ArDocument (cfg_name config)))
       (Arango_lock_seen hostname config now txn)
       (\<lambda>e. if Arango_isDocumentNotFoundError e then Arango_lock_seen hostname config now txn JNull
         else request (ArAbort txn) (\<lambda>_. Raise e))"

definition Arango_lock :: "string \<Rightarrow> string \<Rightarrow> LockConfiguration \<Rightarrow> (arango_req, unit asl option) prog" where
  "Arango_lock hostname collectionName config = Now (\<lambda>now.
     request (ArBegin [collectionName]) (\<lambda>txn.
       catching (Arango_lock_try hostname config now txn)
         (\<lambda>e. try_request (ArAbort txn) (\<lambda>_. Raise e) (\<lambda>_. Raise e))))"

definition Arango_extend :: "string \<Rightarrow> LockConfiguration \<Rightarrow> jsnum option \<Rightarrow> (arango_req, unit asl option) prog" where
  "Arango_extend hostname config previousLockAtMostUntil = (case previousLockAtMostUntil of
     None \<Rightarrow> Ret None
   | Some previous \<Rightarrow> Now (\<lambda>now.
     try_request (ArDirect (ArDocument (cfg_name config)))
       (\<lambda>existing.
         if \<not> strict_eq (jget existing ''lockedBy'') (JStr hostname) then Ret None
         else sync (Utils_toIsoString previous) (\<lambda>mine.
           if \<not> strict_eq (jget existing ''lockUntil'') (JStr mine) then Ret None
           else if js_le (Date_parse_value (jget existing ''lockUntil'')) now then Ret None
           else sync (Utils_toIsoString (lockAtMostUntil config)) (\<lambda>until.
             request_unless Arango_isConflictError
               (ArDirect (ArUpdate (cfg_name config) (obj [(''lockUntil'', JStr until)]) (Some (jget existing ''_rev''))))
               (Some (new_asl config ())) None)))
       (\<lambda>e. if Arango_isDocumentNotFoundError e then Ret None else Raise e)))"

definition Arango_unlock :: "string \<Rightarrow> LockConfiguration \<Rightarrow> (arango_req, unit) prog" where
  "Arango_unlock hostname config =
     try_request (ArDirect (ArDocument (cfg_name config)))
       (\<lambda>existing.
         if \<not> strict_eq (jget existing ''lockedBy'') (JStr hostname) then Ret ()
         else sync (Utils_toIsoString (lockAtMostUntil config)) (\<lambda>mine.
           if \<not> strict_eq (jget existing ''lockUntil'') (JStr mine) then Ret ()
           else Now (\<lambda>now. sync (Utils_toIsoString (unlockTime now config)) (\<lambda>until.
             request_unless (\<lambda>e. Arango_isDocumentNotFoundError e \<or> Arango_isConflictError e)
               (ArDirect (ArUpdate (cfg_name config) (obj [(''lockUntil'', JStr until)]) (Some (jget existing ''_rev'')))) () ()))))
       (\<lambda>e. if Arango_isDocumentNotFoundError e then Ret () else Raise e)"

definition ArangoDelegate :: "string \<Rightarrow> (arango_req, unit asl) SimpleLockDelegate" where
  "ArangoDelegate hostname = \<lparr>delegate_unlock = Arango_unlock hostname, delegate_extend = Some (Arango_extend hostname)\<rparr>"

text \<open>\<open>createArangoDbLockProvider(database, options).lock(config)\<close>.\<close>

definition createArangoDbLockProvider_lock ::
  "string \<Rightarrow> string option \<Rightarrow> LockConfiguration \<Rightarrow> (arango_req, unit asl option) prog" where
  "createArangoDbLockProvider_lock hostname collection config =
     Arango_lock hostname (case collection of None \<Rightarrow> ''shedLock'' | Some c \<Rightarrow> c) config"

section \<open>Properties\<close>

text \<open>
  C23: Every way out of \<open>lock\<close> of the ArangoDB provider ends the transaction it began: over any server, a lock is only returned as
  the answer of a commit that succeeded, and in every other case the last request is an abort.
\<close>

theorem Arango_lock_ends_transaction:
  assumes "run h (Arango_lock hostname coll config) w = (r, w')" "h (ArBegin [coll]) w = (Inr txn, w1)"
  shows "(\<exists>w2 q. h (if \<exists>l. r = Inr (Some l) then ArCommit txn else ArAbort txn) w2 = (q, w') \<and>
      ((\<exists>l. r = Inr (Some l)) \<longrightarrow> r = Inr (Some (new_asl config ())) \<and> (\<exists>v. q = Inr v)))"
proof -
  obtain r1 w2 where b: "run h (Arango_lock_try hostname config (ClockProvider_now w) txn) w1 = (r1, w2)" by fastforce
  have seen: "(\<exists>e. a = Inl e) \<or> (\<exists>v q. h (if \<exists>l. a = Inr (Some l) then ArCommit txn else ArAbort txn) v = (Inr q, u') \<and>
      (\<forall>l. a = Inr (Some l) \<longrightarrow> l = new_asl config ()))"
    if "run h (Arango_lock_seen hostname config t txn ex) u = (a, u')" for t ex u a u'
    using that by (auto simp: Arango_lock_seen_def Arango_commit_def run_sync split: if_splits sum.splits prod.splits)
  have tried: "(\<exists>e. r1 = Inl e) \<or> (\<exists>v q. h (if \<exists>l. r1 = Inr (Some l) then ArCommit txn else ArAbort txn) v = (Inr q, w2) \<and>
      (\<forall>l. r1 = Inr (Some l) \<longrightarrow> l = new_asl config ()))"
  proof -
    have "(\<exists>e. r1 = Inl e) \<or> (\<exists>ex u. run h (Arango_lock_seen hostname config (ClockProvider_now w) txn ex) u = (r1, w2))"
      using b unfolding Arango_lock_try_def by (auto split: prod.splits sum.splits if_splits)
    then show ?thesis
    proof (elim disjE exE)
      fix ex u assume "run h (Arango_lock_seen hostname config (ClockProvider_now w) txn ex) u = (r1, w2)"
      then show ?thesis by (rule seen)
    qed simp
  qed
  show ?thesis
  proof (cases r1)
    case (Inl e)
    then obtain q where "h (ArAbort txn) w2 = (q, w')" "r = Inl e"
      using assms b by (auto simp: Arango_lock_def run_catching split: prod.splits sum.splits)
    then show ?thesis by auto
  next
    case (Inr x)
    then have "r = Inr x" "w' = w2" using assms b by (auto simp: Arango_lock_def run_catching)
    then obtain v q where "h (if \<exists>l. r = Inr (Some l) then ArCommit txn else ArAbort txn) v = (Inr q, w')"
      "\<forall>l. r = Inr (Some l) \<longrightarrow> l = new_asl config ()" using tried Inr by blast
    then show ?thesis by (intro exI [of _ v] exI [of _ "Inr q"] conjI) auto
  qed
qed

theorem Arango_lock_ends_transaction_witness:
  "\<exists>w2 q. scripted (ArCommit (JStr ''t'')) w2 = (q, script_world 5 []) \<and> q = Inr JUndef"
proof -
  have iso: "Utils_toIsoString (Fin 100) = Inr (iso_string 100)" "Utils_toIsoString (Fin 5) = Inr (iso_string 5)"
    using Utils_toIsoString_date [of 100] Utils_toIsoString_date [of 5] by (simp_all add: date_range_def)
  have "run scripted (Arango_lock ''host'' ''shedLock'' job_config)
      (script_world 5 [Inr (JStr ''t''), Inr JNull, Inr JUndef, Inr JUndef]) = (Inr (Some (new_asl job_config ())), script_world 5 [])"
    by (simp add: Arango_lock_def Arango_lock_try_def Arango_lock_seen_def Arango_document_def Arango_commit_def run_catching iso)
  from Arango_lock_ends_transaction [OF this, of "JStr ''t''" "script_world 5 [Inr JNull, Inr JUndef, Inr JUndef]"]
  obtain w2 q where "scripted (ArCommit (JStr ''t'')) w2 = (q, script_world 5 [])" "\<exists>v. q = Inr v" by auto
  moreover have "scripted (ArCommit (JStr ''t'')) (script_world 5 [Inr JUndef]) = (Inr JUndef, script_world 5 [])" by simp
  ultimately show ?thesis by blast
qed

end
