(* ===== verification/Hazelcast.thy ===== *)
theory Hazelcast
  imports SimpleLock Columns
begin

text \<open>
  packages/hazelcast/src: a distributed map whose keys are locked around every operation.  A lock object keeps the record it
  wrote and only changes the map while that very record is stored; there is no extend.
\<close>

record HazelcastOptions =
  hz_lockStoreKey :: string
  hz_lockLeaseTimeMs :: jsnum

definition Hazelcast_resolveOptions :: "string option \<Rightarrow> jsnum option \<Rightarrow> HazelcastOptions" where
  "Hazelcast_resolveOptions lockStoreKey lockLeaseTimeMs =
     \<lparr>hz_lockStoreKey = opt_or lockStoreKey ''shedlock_storage'',
      hz_lockLeaseTimeMs = (case lockLeaseTimeMs of None \<Rightarrow> Fin 30000 | Some x \<Rightarrow> x)\<rparr>"

datatype hazelcast_req =
    HzGetMap string
  | HzLock jsv string jsnum
  | HzGet jsv string
  | HzPut jsv string jsv jsnum
  | HzRemove jsv string
  | HzUnlock jsv string

section \<open>The accessor (hazelcast-accessor.ts)\<close>

text \<open>\<open>finally { if (locked) try { await store.unlock(name) } catch {} }\<close> around what runs while the key is locked.\<close>

definition Hazelcast_with_key :: "jsv \<Rightarrow> string \<Rightarrow> jsnum \<Rightarrow> (hazelcast_req, 'a) prog \<Rightarrow> (hazelcast_req, 'a) prog" where
  "Hazelcast_with_key store name lease body =
     request (HzLock store name lease) (\<lambda>_.
       finally_do body (try_request (HzUnlock store name) (\<lambda>_. Ret ()) (\<lambda>_. Ret ())))"

definition Hazelcast_record :: "jsv + string \<Rightarrow> jsv + string \<Rightarrow> string \<Rightarrow> jsv + jsv" where
  "Hazelcast_record lockUntil lockedAt lockedBy =
     (case lockUntil of Inl e \<Rightarrow> Inl e | Inr u \<Rightarrow> (case lockedAt of Inl e \<Rightarrow> Inl e | Inr a \<Rightarrow>
        Inr (obj [(''lockUntil'', JStr u), (''lockedAt'', JStr a), (''lockedBy'', JStr lockedBy)])))"

definition Hazelcast_put_new ::
  "string \<Rightarrow> jsv \<Rightarrow> LockConfiguration \<Rightarrow> jsnum \<Rightarrow> (hazelcast_req, jsv asl option) prog" where
  "Hazelcast_put_new hostname store config now =
     sync (Hazelcast_record (Utils_toIsoString (lockAtMostUntil config)) (Utils_toIsoString now) hostname) (\<lambda>record.
       request (HzPut store (cfg_name config) record (lockAtMostFor config)) (\<lambda>_. Ret (Some (new_asl config record))))"

definition Hazelcast_lock :: "string \<Rightarrow> HazelcastOptions \<Rightarrow> LockConfiguration \<Rightarrow> (hazelcast_req, jsv asl option) prog" where
  "Hazelcast_lock hostname opts config = Now (\<lambda>now.
     request (HzGetMap (hz_lockStoreKey opts)) (\<lambda>store.
       Hazelcast_with_key store (cfg_name config) (js_sub (lockAtMostUntil config) now)
         (request (HzGet store (cfg_name config)) (\<lambda>existing.
            if existing = JNull then Hazelcast_put_new hostname store config now
            else sync (prop_of existing ''lockUntil'') (\<lambda>stored.
              if js_le (Date_parse_value stored) now then Hazelcast_put_new hostname store config now else Ret None)))))"

definition sameAcquisition :: "jsv \<Rightarrow> jsv \<Rightarrow> bool" where
  "sameAcquisition existing expected \<longleftrightarrow> existing \<noteq> JNull \<and> existing \<noteq> JUndef \<and>
     strict_eq (jget existing ''lockedBy'') (jget expected ''lockedBy'') \<and>
     strict_eq (jget existing ''lockedAt'') (jget expected ''lockedAt'') \<and>
     strict_eq (jget existing ''lockUntil'') (jget expected ''lockUntil'')"

definition Hazelcast_unlock :: "HazelcastOptions \<Rightarrow> LockConfiguration \<Rightarrow> jsv \<Rightarrow> (hazelcast_req, unit) prog" where
  "Hazelcast_unlock opts config expected = Now (\<lambda>now.
     request (HzGetMap (hz_lockStoreKey opts)) (\<lambda>store.
       Hazelcast_with_key store (cfg_name config) (hz_lockLeaseTimeMs opts)
         (request (HzGet store (cfg_name config)) (\<lambda>existing.
            if \<not> sameAcquisition existing expected then Ret ()
            else if js_le (lockAtLeastUntil config) now then request (HzRemove store (cfg_name config)) (\<lambda>_. Ret ())
            else sync (map_sum id JStr (Utils_toIsoString (lockAtLeastUntil config))) (\<lambda>until.
              request (HzPut store (cfg_name config)
                (obj [(''lockUntil'', until), (''lockedAt'', jget expected ''lockedAt''), (''lockedBy'', jget expected ''lockedBy'')])
                (lockAtLeastFor config)) (\<lambda>_. Ret ()))))))"

text \<open>The delegate of the lock object: \<open>unlock\<close> captures the record, \<open>extend\<close> is missing.\<close>

definition HazelcastLock_doUnlock :: "HazelcastOptions \<Rightarrow> jsv asl \<Rightarrow> (hazelcast_req, unit) prog" where
  "HazelcastLock_doUnlock opts l = Hazelcast_unlock opts (asl_config l) (asl_data l)"

definition HazelcastLock_doExtend :: "jsv asl \<Rightarrow> LockConfiguration \<Rightarrow> (hazelcast_req, jsv asl option) prog" where
  "HazelcastLock_doExtend l config = asl_doExtend l config"

definition HazelcastLockProvider_lock ::
  "string \<Rightarrow> string option \<Rightarrow> jsnum option \<Rightarrow> LockConfiguration \<Rightarrow> (hazelcast_req, jsv asl option) prog" where
  "HazelcastLockProvider_lock hostname lockStoreKey lockLeaseTimeMs config =
     Hazelcast_lock hostname (Hazelcast_resolveOptions lockStoreKey lockLeaseTimeMs) config"

section \<open>Facts\<close>

lemma run_with_key:
  "run h (Hazelcast_with_key store name lease body) w =
     (case h (HzLock store name lease) w of
        (Inl e, w1) \<Rightarrow> (Inl e, w1)
      | (Inr _, w1) \<Rightarrow> (case run h body w1 of (r, w2) \<Rightarrow> (r, snd (h (HzUnlock store name) w2))))"
  by (auto simp: Hazelcast_with_key_def run_finally_do split: prod.splits sum.splits)

text \<open>A record that is not the one the lock object wrote is left alone: the map is only read.\<close>

lemma Hazelcast_foreign_record:
  assumes "h (HzGetMap (hz_lockStoreKey opts)) w = (Inr store, w1)"
    and "h (HzLock store (cfg_name config) (hz_lockLeaseTimeMs opts)) w1 = (Inr x, w2)"
    and "h (HzGet store (cfg_name config)) w2 = (Inr existing, w3)" "\<not> sameAcquisition existing expected"
  shows "run h (Hazelcast_unlock opts config expected) w = (Inr (), snd (h (HzUnlock store (cfg_name config)) w3))"
  using assms by (simp add: Hazelcast_unlock_def run_with_key)

end
