(* ===== verification/Zookeeper.thy ===== *)
theory Zookeeper
  imports SimpleLock Columns
begin

text \<open>
  packages/zookeeper/src: one node per lock that holds the deadline as text, written under the version that was read.  The base path is created once per
  accessor; that flag is read and written by the requests \<open>GetEnsured\<close> and \<open>SetEnsured\<close>.
\<close>

datatype zk_req =
    ZkGet string
  | ZkSet string string jsv
  | ZkCreate string string
  | ZkMkdirp string
  | GetEnsured
  | SetEnsured

section \<open>Errors and options (zookeeper-errors.ts, zookeeper-lock-provider-options.ts)\<close>

text \<open>\<open>e.message.split(/\s/, 1)\<close>: the message up to its first white space.\<close>

definition matchesResultCode :: "jsv \<Rightarrow> int \<Rightarrow> bool" where
  "matchesResultCode e code \<longleftrightarrow>
     is_object e \<and> strict_eq (jget e ''code'') (JNum (Fin (of_int code))) \<or>
     (case e of JErr c ps \<Rightarrow> takeWhile (\<lambda>x. \<not> is_js_space x) (str_of (jget e ''message'')) = show_int code | _ \<Rightarrow> False)"

definition isNoNodeException :: "jsv \<Rightarrow> bool" where
  "isNoNodeException e \<longleftrightarrow> matchesResultCode e (- 101)"

definition isBadVersionException :: "jsv \<Rightarrow> bool" where
  "isBadVersionException e \<longleftrightarrow> matchesResultCode e (- 103)"

definition isNodeExistsException :: "jsv \<Rightarrow> bool" where
  "isNodeExistsException e \<longleftrightarrow> matchesResultCode e (- 110)"

definition normalizePath :: "string \<Rightarrow> string" where
  "normalizePath path =
     (let r = (if length path > 1 \<and> ends_with path ''/'' then butlast path else path)
      in if \<not> starts_with r ''/'' then ''/'' @ r else r)"

definition Zk_resolveOptions :: "string option \<Rightarrow> string" where
  "Zk_resolveOptions basePath = normalizePath (opt_or basePath ''/shedlock'')"

section \<open>The accessor (zookeeper-accessor.ts)\<close>

text \<open>\<open>Buffer.isBuffer(data) ? data.toString('utf8') : String(data)\<close>; a buffer is an object of class \<open>Buffer\<close> with its text.\<close>

definition data_string :: "jsv \<Rightarrow> string" where
  "data_string data = (if instanceof data ''Buffer'' then str_of (jget data ''utf8'') else js_String data)"

definition Zk_nodePath :: "string \<Rightarrow> LockConfiguration \<Rightarrow> string" where
  "Zk_nodePath basePath config = basePath @ ''/'' @ cfg_name config"

definition Zk_ensureBasePath :: "string \<Rightarrow> (zk_req, unit) prog" where
  "Zk_ensureBasePath basePath = request GetEnsured (\<lambda>ensured.
     if truthy ensured then Ret ()
     else request (ZkMkdirp basePath) (\<lambda>_. request SetEnsured (\<lambda>_. Ret ())))"

text \<open>The body of the outer \<open>try\<close> of \<open>lock\<close>: read, compare, and write under the version read.\<close>

definition Zk_lock_try :: "string \<Rightarrow> LockConfiguration \<Rightarrow> jsnum \<Rightarrow> string \<Rightarrow> (zk_req, unit asl option) prog" where
  "Zk_lock_try basePath config now isoUntil =
     request (ZkGet (Zk_nodePath basePath config)) (\<lambda>r.
     sync (js_at r 0) (\<lambda>stat. sync (js_at r 1) (\<lambda>data.
       if js_lt now (Date_parse (data_string data)) then Ret None
       else sync (prop_of stat ''version'') (\<lambda>version.
         request (ZkSet (Zk_nodePath basePath config) isoUntil version) (\<lambda>_. Ret (Some (new_asl config ())))))))"

definition Zk_lock :: "string \<Rightarrow> LockConfiguration \<Rightarrow> (zk_req, unit asl option) prog" where
  "Zk_lock basePath config = Now (\<lambda>now.
     sync (Utils_toIsoString (lockAtMostUntil config)) (\<lambda>isoUntil.
     catching (Zk_lock_try basePath config now isoUntil)
       (\<lambda>e. if isNoNodeException e
          then await (Zk_ensureBasePath basePath) (\<lambda>_.
                 request_unless isNodeExistsException (ZkCreate (Zk_nodePath basePath config) isoUntil)
                   (Some (new_asl config ())) None)
          else if isBadVersionException e then Ret None
          else Raise e)))"

definition Zk_unlock :: "string \<Rightarrow> LockConfiguration \<Rightarrow> (zk_req, unit) prog" where
  "Zk_unlock basePath config =
     sync (Utils_toIsoString (lockAtMostUntil config)) (\<lambda>expected. Now (\<lambda>now.
     sync (Utils_toIsoString (unlockTime now config)) (\<lambda>isoUnlock.
     catching
       (request (ZkGet (Zk_nodePath basePath config)) (\<lambda>r.
        sync (js_at r 0) (\<lambda>stat. sync (js_at r 1) (\<lambda>data.
          if data_string data \<noteq> expected then Ret ()
          else sync (prop_of stat ''version'') (\<lambda>version.
            request (ZkSet (Zk_nodePath basePath config) isoUnlock version) (\<lambda>_. Ret ()))))))
       (\<lambda>e. if isNoNodeException e \<or> isBadVersionException e then Ret () else Raise e))))"

definition ZooKeeperLock_doUnlock :: "string \<Rightarrow> unit asl \<Rightarrow> (zk_req, unit) prog" where
  "ZooKeeperLock_doUnlock basePath l = await (Zk_unlock basePath (asl_config l)) Ret"

definition ZooKeeperLockProvider_lock :: "string option \<Rightarrow> LockConfiguration \<Rightarrow> (zk_req, unit asl option) prog" where
  "ZooKeeperLockProvider_lock basePath config = Zk_lock (Zk_resolveOptions basePath) config"

section \<open>Facts\<close>

text \<open>A lock is only granted by a write under the version of a passed deadline, or by creating the node.\<close>

lemma Zk_lock_try_granted:
  assumes "run h (Zk_lock_try basePath config now isoUntil) w = (Inr (Some l), w')"
  obtains r w1 stat data version x where "l = new_asl config ()" "h (ZkGet (Zk_nodePath basePath config)) w = (Inr r, w1)"
    "js_at r 0 = Inr stat" "js_at r 1 = Inr data" "\<not> js_lt now (Date_parse (data_string data))"
    "prop_of stat ''version'' = Inr version" "h (ZkSet (Zk_nodePath basePath config) isoUntil version) w1 = (Inr x, w')"
  using assms by (auto simp: Zk_lock_try_def run_sync split: prod.splits sum.splits if_splits)

lemma Zk_lock_granted:
  assumes "run h (Zk_lock basePath config) w = (Inr (Some l), w')"
  obtains isoUntil where "Utils_toIsoString (lockAtMostUntil config) = Inr isoUntil"
    "run h (Zk_lock_try basePath config (ClockProvider_now w) isoUntil) w = (Inr (Some l), w') \<or>
     l = new_asl config () \<and> (\<exists>w1 x. h (ZkCreate (Zk_nodePath basePath config) isoUntil) w1 = (Inr x, w'))"
proof -
  obtain isoUntil where i: "Utils_toIsoString (lockAtMostUntil config) = Inr isoUntil"
    using assms by (auto simp: Zk_lock_def run_sync split: sum.splits)
  obtain r w1 where t: "run h (Zk_lock_try basePath config (ClockProvider_now w) isoUntil) w = (r, w1)" by fastforce
  show ?thesis
  proof (cases r)
    case (Inr x)
    then show ?thesis using that [OF i] assms i t by (simp add: Zk_lock_def run_catching)
  next
    case (Inl e)
    then have "l = new_asl config () \<and> (\<exists>w1 x. h (ZkCreate (Zk_nodePath basePath config) isoUntil) w1 = (Inr x, w'))"
      using assms i t by (auto simp: Zk_lock_def run_catching run_await split: if_splits prod.splits sum.splits)
    then show ?thesis using that [OF i] by blast
  qed
qed

lemma normalizePath_absolute: "starts_with (normalizePath path) ''/''"
  by (auto simp: normalizePath_def Let_def)

end
