(* ===== verification/Etcd.thy ===== *)
theory Etcd
  imports SimpleLock Columns
begin

text \<open>
  packages/etcd/src and packages/memcached/src: locks that expire in the server.  The key lives as long as its lease (etcd) or its
  time to live (memcached), both in whole seconds made by \<open>Utils.toTtlSeconds\<close>.
\<close>

section \<open>etcd (etcd-accessor.ts, etcd-lock.ts)\<close>

text \<open>
  \<open>EtLease\<close> makes a lease object, \<open>EtPutIf key target op value lease' get\<close> is the transaction that puts the key under a fresh lease
  when the comparison holds (and otherwise reads it, in \<open>lock\<close>).
\<close>

datatype etcd_req =
    EtLease jsnum
  | EtGrant jsv
  | EtRevoke jsv
  | EtPutIf string string jsv string jsv bool

definition Etcd_resolveOptions :: "string option \<Rightarrow> string" where
  "Etcd_resolveOptions env = opt_or env ''default''"

definition shed_key :: "string \<Rightarrow> string \<Rightarrow> string" where
  "shed_key env name = ''shedlock:'' @ env @ '':'' @ name"

definition added_value :: "string \<Rightarrow> string \<Rightarrow> string" where
  "added_value isoNow hostname = ''ADDED:'' @ isoNow @ ''@'' @ hostname"

definition Etcd_lock :: "string \<Rightarrow> string \<Rightarrow> LockConfiguration \<Rightarrow> (etcd_req, jsv asl option) prog" where
  "Etcd_lock hostname env config = Now (\<lambda>now.
     sync (Utils_toIsoString now) (\<lambda>isoNow.
     request (EtLease (Utils_toTtlSeconds (lockAtMostFor config))) (\<lambda>lease.
       catching
         (request (EtPutIf (shed_key env (cfg_name config)) ''Version'' (JNum (Fin 0)) (added_value isoNow hostname) lease True) (\<lambda>result.
            if truthy (jget result ''succeeded'') then Ret (Some (new_asl config lease))
            else request (EtRevoke lease) (\<lambda>_. Ret None)))
         (\<lambda>e. try_request (EtRevoke lease) (\<lambda>_. Raise e) (\<lambda>_. Raise e)))))"

definition Etcd_revoke :: "jsv \<Rightarrow> (etcd_req, unit) prog" where
  "Etcd_revoke lease = request (EtRevoke lease) (\<lambda>_. Ret ())"

definition Etcd_unlock :: "string \<Rightarrow> string \<Rightarrow> LockConfiguration \<Rightarrow> jsv \<Rightarrow> (etcd_req, unit) prog" where
  "Etcd_unlock hostname env config lease =
     (if js_le (lockAtLeastFor config) (Fin 0) then Etcd_revoke lease
      else Now (\<lambda>now.
        let remainingMs = js_sub (js_add (createdAt config) (lockAtLeastFor config)) now in
        if js_le remainingMs (Fin 0) then Etcd_revoke lease
        else sync (Utils_toIsoString now) (\<lambda>isoNow.
          request (EtGrant lease) (\<lambda>leaseId.
          request (EtLease (Utils_toTtlSeconds remainingMs)) (\<lambda>newLease.
          try_request (EtPutIf (shed_key env (cfg_name config)) ''Lease'' leaseId (added_value isoNow hostname) newLease False)
            (\<lambda>result.
               if \<not> truthy (jget result ''succeeded'') then request (EtRevoke newLease) (\<lambda>_. Etcd_revoke lease)
               else Etcd_revoke lease)
            (\<lambda>e. try_request (EtRevoke newLease) (\<lambda>_. Raise e) (\<lambda>_. Raise e)))))))"

definition EtcdLock_doUnlock :: "string \<Rightarrow> string \<Rightarrow> jsv asl \<Rightarrow> (etcd_req, unit) prog" where
  "EtcdLock_doUnlock hostname env l = await (Etcd_unlock hostname env (asl_config l) (asl_data l)) Ret"

definition EtcdLockProvider_lock :: "string \<Rightarrow> string option \<Rightarrow> LockConfiguration \<Rightarrow> (etcd_req, jsv asl option) prog" where
  "EtcdLockProvider_lock hostname env config = Etcd_lock hostname (Etcd_resolveOptions env) config"

section \<open>memcached (memcached-lock-provider.ts, memcached-lock.ts)\<close>

datatype memcached_req =
    McAdd string string jsnum
  | McGet string
  | McDelete string
  | McReplace string string jsnum

text \<open>A lock object keeps its key and the value it stored.\<close>

definition Memcached_lock :: "string \<Rightarrow> string \<Rightarrow> LockConfiguration \<Rightarrow> (memcached_req, (string \<times> string) asl option) prog" where
  "Memcached_lock hostname env config = Now (\<lambda>now.
     sync (Utils_toIsoString now) (\<lambda>isoNow.
       let key = shed_key env (cfg_name config); value = added_value isoNow hostname in
       request (McAdd key value (Utils_toTtlSeconds (lockAtMostFor config))) (\<lambda>result.
         if truthy result then Ret (Some (new_asl config (key, value))) else Ret None)))"

text \<open>The bytes of a stored value are those of a string here.\<close>

definition sameBytes :: "jsv \<Rightarrow> string \<Rightarrow> bool" where
  "sameBytes stored expected \<longleftrightarrow> (case stored of JStr s \<Rightarrow> s = expected | _ \<Rightarrow> False)"

definition can_not_unlock :: "LockConfiguration \<Rightarrow> jsv" where
  "can_not_unlock config = LockException (''Can not unlock '' @ cfg_name config @ '' from memcached'')"

definition MemcachedLock_doUnlock :: "(string \<times> string) asl \<Rightarrow> (memcached_req, unit) prog" where
  "MemcachedLock_doUnlock l = (case asl_data l of (key, value) \<Rightarrow>
     request (McGet key) (\<lambda>current.
       if \<not> sameBytes (jget current ''value'') value then Ret ()
       else Now (\<lambda>now.
         let keepLockFor = js_sub (lockAtLeastUntil (asl_config l)) now in
         if js_le keepLockFor (Fin 0)
         then request (McDelete key) (\<lambda>result. if \<not> truthy result then Raise (can_not_unlock (asl_config l)) else Ret ())
         else request (McReplace key value (Utils_toTtlSeconds keepLockFor)) (\<lambda>result.
                if \<not> truthy result then Raise (can_not_unlock (asl_config l)) else Ret ()))))"

definition MemcachedLockProvider_lock ::
  "string \<Rightarrow> string option \<Rightarrow> LockConfiguration \<Rightarrow> (memcached_req, (string \<times> string) asl option) prog" where
  "MemcachedLockProvider_lock hostname env config = Memcached_lock hostname (opt_or env ''default'') config"

definition createMemcachedLockProvider :: "string option \<Rightarrow> string option \<Rightarrow> jsv + string" where
  "createMemcachedLockProvider servers env =
     (if servers = None \<or> servers = Some [] then Inl (LockException ''MemcachedConfiguration: servers is required'')
      else Inr (opt_or env ''default''))"

section \<open>Properties\<close>

lemma ttl_bounds:
  assumes "Utils_toTtlSeconds (Fin ms) = Fin s"
  shows "ms < 1000 * s \<and> 1000 * s \<le> ms + 1000 \<and> s = of_int \<lfloor>s\<rfloor>"
proof -
  have s: "s = of_int \<lfloor>1 / 1000 * ms\<rfloor> + 1" using assms by (simp add: Utils_toTtlSeconds_def)
  have "of_int \<lfloor>1 / 1000 * ms\<rfloor> \<le> 1 / 1000 * ms" "1 / 1000 * ms < of_int \<lfloor>1 / 1000 * ms\<rfloor> + 1" by linarith+
  then show ?thesis using s by simp
qed

text \<open>
  The time to live a memcached lock asks for is a whole number of seconds that outlasts \<open>lockAtMostFor\<close>, by at most one second: over any
  server, a lock object that \<open>lock\<close> returns was added with such an expiry, under its own key and value.
\<close>

theorem Memcached_ttl_bounds:
  assumes "run h (Memcached_lock hostname env config) w = (Inr (Some l), w')" "lockAtMostFor config = Fin ms"
  shows "\<exists>s v. h (McAdd (fst (asl_data l)) (snd (asl_data l)) (Fin (of_int s))) w = (Inr v, w') \<and> truthy v \<and>
    ms < 1000 * of_int s \<and> 1000 * of_int s \<le> ms + 1000 \<and> asl_config l = config"
proof -
  let ?s = "\<lfloor>1 / 1000 * ms\<rfloor> + 1"
  have t: "Utils_toTtlSeconds (lockAtMostFor config) = Fin (of_int ?s)" using assms(2) by (simp add: Utils_toTtlSeconds_def)
  have "ms < 1000 * of_int ?s \<and> 1000 * of_int ?s \<le> ms + 1000" using ttl_bounds [of ms "of_int ?s"] t assms(2) by simp
  moreover have "\<exists>v. h (McAdd (fst (asl_data l)) (snd (asl_data l)) (Fin (of_int ?s))) w = (Inr v, w') \<and> truthy v \<and> asl_config l = config"
    using assms(1) unfolding Memcached_lock_def t
    by (auto simp: run_sync Let_def split: sum.splits prod.splits if_splits)
  ultimately show ?thesis by (intro exI [of _ ?s]) blast
qed

theorem Memcached_ttl_bounds_witness: "\<exists>s. (100::rat) < 1000 * of_int s \<and> 1000 * of_int s \<le> (100::rat) + 1000"
proof -
  have "Utils_toIsoString (Fin 5) = Inr (iso_string 5)" using Utils_toIsoString_date [of 5] by (simp add: date_range_def)
  then have "run scripted (Memcached_lock ''host'' ''default'' job_config) (script_world 5 [Inr (JBool True)]) =
     (Inr (Some (new_asl job_config (shed_key ''default'' ''job'', added_value (iso_string 5) ''host''))), script_world 5 [])"
    by (simp add: Memcached_lock_def Let_def)
  from Memcached_ttl_bounds [OF this, of 100] show ?thesis by auto
qed

end
