(* ===== verification/Nats.thy ===== *)
theory Nats
  imports SimpleLock Columns "HOL-Library.Word"
begin

text \<open>
  packages/nats/src: a key-value bucket whose values are deadlines as eight bytes, written under the revision that was read.  The
  bytes are machine words here: \<open>longToBytes\<close> is big-endian two's complement and rejects what does not fit.
\<close>

section \<open>Bytes (long-utils.ts)\<close>

definition int64_bytes :: "64 word \<Rightarrow> 8 word list" where
  "int64_bytes x = map (\<lambda>i. ucast (drop_bit (8 * i) x)) [7, 6, 5, 4, 3, 2, 1, 0]"

definition bytes_int64 :: "8 word list \<Rightarrow> 64 word" where
  "bytes_int64 bs = foldl (\<lambda>a b. push_bit 8 a + ucast b) 0 bs"

text \<open>\<open>BigInt(x)\<close> throws for a number that is not an integer, \<open>writeBigInt64BE\<close> for one outside the signed 64-bit range.\<close>

definition longToBytes :: "jsnum \<Rightarrow> jsv + 8 word list" where
  "longToBytes epochMillis = (case epochMillis of
     Fin r \<Rightarrow>
       if r \<noteq> of_int \<lfloor>r\<rfloor>
       then Inl (RangeError (''The number '' @ js_show (Fin r) @ '' cannot be converted to a BigInt because it is not an integer''))
       else if \<lfloor>r\<rfloor> < - (2 ^ 63) \<or> 2 ^ 63 \<le> \<lfloor>r\<rfloor> then Inl (RangeError ''The value of \"value\" is out of range.'')
       else Inr (int64_bytes (word_of_int \<lfloor>r\<rfloor>))
   | x \<Rightarrow> Inl (RangeError (''The number '' @ js_show x @ '' cannot be converted to a BigInt because it is not an integer'')))"

definition bytesToLong :: "8 word list \<Rightarrow> jsv + jsnum" where
  "bytesToLong buf =
     (if length buf < 8 then Inl (RangeError ''Attempt to access memory outside buffer bounds'')
      else Inr (Fin (of_int (sint (bytes_int64 (take 8 buf))))))"

section \<open>Entries and errors (nats-errors.ts, nats-lock-provider.ts)\<close>

datatype nats_req =
    KvGet string
  | KvCreate string "8 word list"
  | KvUpdate string "8 word list" jsv
  | KvDelete string jsv
  | NatsConnect "(string \<times> jsv) list"
  | NatsKv jsv string jsv

text \<open>The bytes of an entry's value, an array of numbers below 256.\<close>

definition bytes_of :: "jsv \<Rightarrow> 8 word list" where
  "bytes_of v = (case v of JArr xs \<Rightarrow> map (\<lambda>x. case x of JNum (Fin r) \<Rightarrow> word_of_int \<lfloor>r\<rfloor> | _ \<Rightarrow> 0) xs | _ \<Rightarrow> [])"

definition of_bytes :: "8 word list \<Rightarrow> jsv" where
  "of_bytes bs = JArr (map (\<lambda>b. JNum (Fin (of_int (uint b)))) bs)"

definition isNatsConflictError :: "jsv \<Rightarrow> bool" where
  "isNatsConflictError e \<longleftrightarrow> is_object e \<and>
     (strict_eq (jget e ''code'') (JNum (Fin 10071)) \<or> strict_eq (jget (jget e ''api_error'') ''err_code'') (JNum (Fin 10071)) \<or>
      (case jget e ''message'' of
         JStr m \<Rightarrow> str_includes m ''stream name already in use'' \<or> str_includes m ''wrong last sequence''
       | _ \<Rightarrow> False))"

definition isDeletedEntry :: "jsv \<Rightarrow> bool" where
  "isDeletedEntry entry \<longleftrightarrow> entry \<noteq> JNull \<and> jget entry ''operation'' \<noteq> JUndef \<and>
     \<not> strict_eq (jget entry ''operation'') (JStr ''PUT'')"

definition Nats_lock :: "LockConfiguration \<Rightarrow> (nats_req, unit asl option) prog" where
  "Nats_lock config = Now (\<lambda>now.
     sync (longToBytes (lockAtMostUntil config)) (\<lambda>value.
     request (KvGet (cfg_name config)) (\<lambda>entry.
       if entry = JNull \<or> isDeletedEntry entry
       then request_unless isNatsConflictError (KvCreate (cfg_name config) value) (Some (new_asl config ())) None
       else sync (bytesToLong (bytes_of (jget entry ''value''))) (\<lambda>existingLockUntil.
         if js_lt now existingLockUntil then Ret None
         else request_unless isNatsConflictError (KvUpdate (cfg_name config) value (jget entry ''revision''))
                (Some (new_asl config ())) None))))"

section \<open>Lock objects (nats-lock.ts)\<close>

definition NatsLock_doUnlock :: "unit asl \<Rightarrow> (nats_req, unit) prog" where
  "NatsLock_doUnlock l = (let config = asl_config l in
     request (KvGet (cfg_name config)) (\<lambda>entry.
       if entry = JNull \<or> jget entry ''operation'' \<noteq> JUndef \<and> \<not> strict_eq (jget entry ''operation'') (JStr ''PUT'') then Ret ()
       else sync (bytesToLong (bytes_of (jget entry ''value''))) (\<lambda>lockUntil.
         if \<not> js_eq lockUntil (lockAtMostUntil config) then Ret ()
         else Now (\<lambda>now.
           if js_lt now (lockAtLeastUntil config)
           then sync (longToBytes (lockAtLeastUntil config)) (\<lambda>value.
                  request_unless isNatsConflictError (KvUpdate (cfg_name config) value (jget entry ''revision'')) () ())
           else request_unless isNatsConflictError (KvDelete (cfg_name config) (jget entry ''revision'')) () ()))))"

text \<open>\<open>createNatsLockProvider\<close>: connect, then open the bucket; \<open>memory\<close> is the driver's default storage.\<close>

definition createNatsLockProvider ::
  "jsv \<Rightarrow> string \<Rightarrow> (string \<times> jsv) list \<Rightarrow> string option \<Rightarrow> jsv option \<Rightarrow> (nats_req, jsv) prog" where
  "createNatsLockProvider memory servers connectionOptions bucketName storage =
     request (NatsConnect (spread [(''servers'', JStr servers)] connectionOptions)) (\<lambda>nc.
       request (NatsKv nc (opt_or bucketName ''shedlock-locks'') (case storage of None \<Rightarrow> memory | Some s \<Rightarrow> s)) Ret)"

section \<open>Properties\<close>

lemma length_int64_bytes [simp]: "length (int64_bytes x) = 8"
  by (simp add: int64_bytes_def)

lemma join_byte:
  "push_bit 8 (drop_bit (n + 8) x) + ucast (ucast (drop_bit n x) :: 8 word) = drop_bit n (x :: 64 word)"
proof -
  have "push_bit 8 (drop_bit (n + 8) x) + ucast (ucast (drop_bit n x) :: 8 word) =
      or (push_bit 8 (drop_bit (n + 8) x)) (ucast (ucast (drop_bit n x) :: 8 word))"
    by (rule disjunctive_add) (auto simp: bit_simps)
  also have "\<dots> = drop_bit n x"
    by (rule bit_word_eqI) (auto simp: bit_simps not_le add.commute dest: bit_imp_le_length)
  finally show ?thesis .
qed

lemma bytes_int64_bytes [simp]: "bytes_int64 (int64_bytes x) = x"
proof -
  have top: "push_bit 8 0 + ucast (ucast (drop_bit 56 x) :: 8 word) = drop_bit 56 x"
    using join_byte [of 56 x] by (simp add: drop_bit_word_beyond)
  show ?thesis
    using join_byte [of 48 x] join_byte [of 40 x] join_byte [of 32 x] join_byte [of 24 x] join_byte [of 16 x]
      join_byte [of 8 x] join_byte [of 0 x] top
    by (simp add: bytes_int64_def int64_bytes_def)
qed



end
