(* ===== verification/Redis.thy ===== *)
theory Redis
  imports SimpleLock Columns
begin

text \<open>
  packages/redis-core/src with the two client adapters packages/redis/src and packages/redis-ioredis/src.  A lock object keeps its key and the unique
  value it stored; in the default mode \<open>unlock\<close> and \<open>extend\<close> are scripts that compare that value first.
\<close>

section \<open>The template and the scripts\<close>

datatype redis_req =
    SetIfAbsent string string jsnum
  | SetIfPresent string string jsnum
  | RdDelete string
  | RdEval string "string list" "jsv list"
  | DeleteKey string





section \<open>The provider (internal-redis-lock-provider.ts)\<close>

record RedisProvider =
  rd_keyPrefix :: string
  rd_safeUpdate :: bool

definition new_InternalRedisLockProvider :: "string option \<Rightarrow> string option \<Rightarrow> bool option \<Rightarrow> RedisProvider" where
  "new_InternalRedisLockProvider keyPrefix env safeUpdate =
     \<lparr>rd_keyPrefix = opt_or keyPrefix ''job-lock'' @ '':'' @ opt_or env ''default'',
      rd_safeUpdate = (case safeUpdate of None \<Rightarrow> True | Some b \<Rightarrow> b)\<rparr>"

definition Redis_buildKey :: "RedisProvider \<Rightarrow> string \<Rightarrow> string" where
  "Redis_buildKey p lockName = rd_keyPrefix p @ '':'' @ lockName"

definition Redis_buildValue :: "string \<Rightarrow> string \<Rightarrow> string \<Rightarrow> string" where
  "Redis_buildValue hostname isoNow randomId = ''ADDED:'' @ isoNow @ ''@'' @ hostname @ '':'' @ randomId"

definition Redis_parseKey :: "string \<Rightarrow> string \<Rightarrow> string \<Rightarrow> string" where
  "Redis_parseKey key prefix env = drop (length (prefix @ '':'' @ env @ '':'')) key"

text \<open>\<open>uuid\<close> is what \<open>randomUUID()\<close> returned.\<close>

definition Redis_lock ::
  "string \<Rightarrow> string \<Rightarrow> RedisProvider \<Rightarrow> LockConfiguration \<Rightarrow> (redis_req, (string \<times> string) asl option) prog" where
  "Redis_lock hostname uuid p config =
     sync (Utils_toIsoString (lockAtMostUntil config)) (\<lambda>isoNow.
       let key = Redis_buildKey p (cfg_name config); value = Redis_buildValue hostname isoNow uuid in
       Now (\<lambda>now.
         request (SetIfAbsent key value (js_max (Fin 0) (js_sub (lockAtMostUntil config) now))) (\<lambda>acquired.
           if \<not> truthy acquired then Ret None else Ret (Some (new_asl config (key, value))))))"



section \<open>The two clients (node-redis-template.ts, io-redis-template.ts)\<close>

datatype node_redis_req =
    NodeSet string string "(string \<times> jsv) list"
  | NodeDel string
  | NodeEval string "string list" "string list"

fun NodeRedisTemplate :: "redis_req \<Rightarrow> (node_redis_req, jsv) prog" where
  "NodeRedisTemplate (SetIfAbsent key value ms) =
     request (NodeSet key value [(''NX'', JBool True), (''PX'', JNum ms)]) (\<lambda>r. Ret (JBool (strict_eq r (JStr ''OK''))))"
| "NodeRedisTemplate (SetIfPresent key value ms) =
     request (NodeSet key value [(''XX'', JBool True), (''PX'', JNum ms)]) (\<lambda>r. Ret (JBool (strict_eq r (JStr ''OK''))))"
| "NodeRedisTemplate (RdDelete key) = request (NodeDel key) (\<lambda>r. Ret (JBool (js_lt (Fin 0) (js_Number r))))"
| "NodeRedisTemplate (RdEval script keys args) = request (NodeEval script keys (map js_String args)) Ret"
| "NodeRedisTemplate (DeleteKey key) = request (NodeDel key) (\<lambda>_. Ret JUndef)"

datatype io_redis_req =
    IoCall "string list"
  | IoDel string
  | IoEval string nat "jsv list"

fun IoRedisTemplate :: "redis_req \<Rightarrow> (io_redis_req, jsv) prog" where
  "IoRedisTemplate (SetIfAbsent key value ms) =
     request (IoCall [''SET'', key, value, ''NX'', ''PX'', js_show ms]) (\<lambda>r. Ret (JBool (strict_eq r (JStr ''OK''))))"
| "IoRedisTemplate (SetIfPresent key value ms) =
     request (IoCall [''SET'', key, value, ''XX'', ''PX'', js_show ms]) (\<lambda>r. Ret (JBool (strict_eq r (JStr ''OK''))))"
| "IoRedisTemplate (RdDelete key) = request (IoDel key) (\<lambda>r. Ret (JBool (js_lt (Fin 0) (js_Number r))))"
| "IoRedisTemplate (RdEval script keys args) = request (IoEval script (length keys) (map JStr keys @ args)) Ret"
| "IoRedisTemplate (DeleteKey key) = request (IoDel key) (\<lambda>_. Ret JUndef)"

text \<open>A template over a client handles the provider's requests.\<close>

definition over_client :: "('r \<Rightarrow> ('q, jsv) prog) \<Rightarrow> ('q, 's) handler \<Rightarrow> ('r, 's) handler" where
  "over_client template client r w = run client (template r) w"

section \<open>Properties\<close>





lemma Redis_parseKey_buildKey:
  "Redis_parseKey (Redis_buildKey (new_InternalRedisLockProvider (Some prefix) (Some env) s) name) prefix env = name"
  by (simp add: Redis_parseKey_def Redis_buildKey_def new_InternalRedisLockProvider_def opt_or_def)

end
