(* ===== verification/CloudflareDo.thy ===== *)
theory CloudflareDo
  imports SimpleLock Json
begin

text \<open>
  packages/cloudflare-do/src: both sides of the Durable Object provider.  The server applies one operation at a time to its storage (a
  Durable Object runs its requests one after the other), a record belongs to the token that acquired it; the client sends operations as
  JSON over HTTP.  The server judges deadlines by its own clock, the argument \<open>now\<close>.
\<close>

section \<open>Protocol (protocol.ts, do-lock-storage.ts)\<close>

record DoLockRecord =
  do_lockUntil :: jsnum
  do_lockedAt :: jsnum
  do_lockedBy :: string
  do_token :: "string option"
  do_lockAtLeastUntil :: "jsnum option"

datatype do_op = OpLock | OpUnlock | OpExtend

record LockOp =
  op_op :: do_op
  op_name :: string
  op_lockAtMostFor :: jsnum
  op_lockAtLeastFor :: jsnum
  op_createdAt :: jsnum
  op_lockedBy :: string
  op_token :: string

datatype LockOpResult =
    DoOk (do_acquired: bool) (do_extended: bool) (res_token: "string option")
  | DoRefused (do_reason: string)

type_synonym do_storage = "string \<Rightarrow> DoLockRecord option"

definition storageKeyForLock :: "string \<Rightarrow> string" where
  "storageKeyForLock name = ''lock:'' @ name"

section \<open>The server (handle-lock-request.ts)\<close>

definition durationsAreValid :: "jsnum \<Rightarrow> jsnum \<Rightarrow> bool" where
  "durationsAreValid lockAtMost lockAtLeast \<longleftrightarrow> js_isFinite lockAtMost \<and> js_isFinite lockAtLeast \<and>
     js_le (Fin 0) lockAtMost \<and> js_le (Fin 0) lockAtLeast \<and> js_le lockAtLeast lockAtMost"

definition storedLeastUntil :: "DoLockRecord \<Rightarrow> jsnum \<Rightarrow> jsnum" where
  "storedLeastUntil existing now = (case do_lockAtLeastUntil existing of
     Some s \<Rightarrow> if js_isFinite s then s else now | None \<Rightarrow> now)"

definition strictFutureDeadline :: "jsnum \<Rightarrow> jsnum \<Rightarrow> jsnum option" where
  "strictFutureDeadline now duration = (let deadline = js_add now duration in
     if \<not> js_isFinite deadline \<or> js_le deadline now then None else Some deadline)"

definition do_owns :: "DoLockRecord \<Rightarrow> string \<Rightarrow> bool" where
  "do_owns existing token \<longleftrightarrow> token \<noteq> [] \<and> (case do_token existing of None \<Rightarrow> False | Some k \<Rightarrow> k \<noteq> [] \<and> k = token)"

definition apply_lock :: "do_storage \<Rightarrow> LockOp \<Rightarrow> jsnum \<Rightarrow> LockOpResult \<times> do_storage" where
  "apply_lock storage body now = (let key = storageKeyForLock (op_name body) in
     if op_token body = [] then (DoRefused ''not_owner'', storage)
     else if (case storage key of None \<Rightarrow> False | Some existing \<Rightarrow> js_lt now (do_lockUntil existing))
     then (DoRefused ''held'', storage)
     else let least = js_add now (op_lockAtLeastFor body) in
       (case strictFutureDeadline now (op_lockAtMostFor body) of
          None \<Rightarrow> (DoOk False False None, storage)
        | Some lockUntil \<Rightarrow>
            if \<not> js_isFinite least then (DoOk False False None, storage)
            else (DoOk True False (Some (op_token body)),
                  storage(key \<mapsto> \<lparr>do_lockUntil = lockUntil, do_lockedAt = now, do_lockedBy = op_lockedBy body,
                                   do_token = Some (op_token body), do_lockAtLeastUntil = Some least\<rparr>))))"

definition apply_unlock :: "do_storage \<Rightarrow> LockOp \<Rightarrow> jsnum \<Rightarrow> LockOpResult \<times> do_storage" where
  "apply_unlock storage body now = (let key = storageKeyForLock (op_name body) in
     case storage key of
       None \<Rightarrow> (DoOk False False None, storage)
     | Some existing \<Rightarrow>
         if \<not> do_owns existing (op_token body) then (DoOk False False None, storage)
         else (DoOk False False None,
               storage(key \<mapsto> \<lparr>do_lockUntil = js_max now (storedLeastUntil existing now), do_lockedAt = do_lockedAt existing,
                                do_lockedBy = do_lockedBy existing, do_token = do_token existing,
                                do_lockAtLeastUntil = (case do_lockAtLeastUntil existing of
                                   Some x \<Rightarrow> if js_isFinite x then Some x else None | None \<Rightarrow> None)\<rparr>)))"

definition apply_extend :: "do_storage \<Rightarrow> LockOp \<Rightarrow> jsnum \<Rightarrow> LockOpResult \<times> do_storage" where
  "apply_extend storage body now = (let key = storageKeyForLock (op_name body) in
     case storage key of
       None \<Rightarrow> (DoRefused ''missing'', storage)
     | Some existing \<Rightarrow>
         if \<not> do_owns existing (op_token body) then (DoRefused ''not_owner'', storage)
         else if js_le (do_lockUntil existing) now then (DoRefused ''expired'', storage)
         else let least = js_max (js_max (storedLeastUntil existing now) now) (js_add now (op_lockAtLeastFor body)) in
           (case strictFutureDeadline now (op_lockAtMostFor body) of
              None \<Rightarrow> (DoOk False False None, storage)
            | Some lockUntil \<Rightarrow>
                if \<not> js_isFinite least then (DoOk False False None, storage)
                else (DoOk False True None,
                      storage(key \<mapsto> existing\<lparr>do_lockUntil := lockUntil, do_lockAtLeastUntil := Some least\<rparr>))))"

definition applyLockOp :: "do_storage \<Rightarrow> LockOp \<Rightarrow> jsnum \<Rightarrow> LockOpResult \<times> do_storage" where
  "applyLockOp storage body now = (case op_op body of
     OpLock \<Rightarrow> apply_lock storage body now
   | OpUnlock \<Rightarrow> apply_unlock storage body now
   | OpExtend \<Rightarrow> apply_extend storage body now)"

text \<open>The validation of a request body, and the operation it stands for.\<close>

definition has_prop :: "jsv \<Rightarrow> string \<Rightarrow> bool" where
  "has_prop v k \<longleftrightarrow> k \<in> fst ` set (own_props v)"

definition op_of_string :: "string \<Rightarrow> do_op option" where
  "op_of_string s = (if s = ''lock'' then Some OpLock else if s = ''unlock'' then Some OpUnlock
     else if s = ''extend'' then Some OpExtend else None)"

definition parse_body :: "jsv \<Rightarrow> LockOp option" where
  "parse_body body =
     (if \<not> is_object body \<or> \<not> has_prop body ''op'' \<or> \<not> has_prop body ''name'' then None
      else (case (jget body ''name'', jget body ''lockAtMostFor'', jget body ''lockAtLeastFor'', jget body ''createdAt'',
                  jget body ''lockedBy'', jget body ''token'') of
        (JStr name, JNum most, JNum least, JNum created, JStr lockedBy, JStr token) \<Rightarrow>
          (case jget body ''op'' of
             JStr s \<Rightarrow> (case op_of_string s of
                 None \<Rightarrow> None
               | Some k \<Rightarrow> if token = [] \<or> \<not> durationsAreValid most least then None
                   else Some \<lparr>op_op = k, op_name = name, op_lockAtMostFor = most, op_lockAtLeastFor = least,
                              op_createdAt = created, op_lockedBy = lockedBy, op_token = token\<rparr>)
           | _ \<Rightarrow> None)
      | _ \<Rightarrow> None))"

definition result_value :: "LockOpResult \<Rightarrow> jsv" where
  "result_value r = (case r of
     DoOk a e t \<Rightarrow> obj ([(''ok'', JBool True)] @ (if a then [(''acquired'', JBool True)] else []) @
        (if e then [(''extended'', JBool True)] else []) @ (case t of None \<Rightarrow> [] | Some k \<Rightarrow> [(''token'', JStr k)]))
   | DoRefused reason \<Rightarrow> obj [(''ok'', JBool False), (''reason'', JStr reason)])"

text \<open>A response is its status and JSON body; \<open>json\<close> is the outcome of parsing the request's body.\<close>

definition handleTslockLockRequest ::
  "do_storage \<Rightarrow> string \<Rightarrow> jsv + jsv \<Rightarrow> jsnum \<Rightarrow> (nat \<times> jsv) \<times> do_storage" where
  "handleTslockLockRequest storage method json' now =
     (if method \<noteq> ''POST'' then ((405, obj [(''error'', JStr ''method not allowed'')]), storage)
      else (case json' of
          Inl _ \<Rightarrow> ((400, obj [(''error'', JStr ''invalid json'')]), storage)
        | Inr body \<Rightarrow> (case parse_body body of
            None \<Rightarrow> ((400, obj [(''error'', JStr ''invalid body'')]), storage)
          | Some lop \<Rightarrow> (case applyLockOp storage lop now of (r, s) \<Rightarrow> ((200, result_value r), s)))))"

section \<open>The client (cloudflare-do-lock-provider.ts, cloudflare-do-lock.ts)\<close>

text \<open>\<open>DoFetch\<close> is the fetch adapter with the operation's name and JSON body, \<open>DoJson\<close> is \<open>response.json()\<close>.\<close>

datatype do_req =
    DoFetch string string
  | DoJson jsv

text \<open>\<open>uuid\<close>: what \<open>crypto.randomUUID()\<close> returned, if the runtime has it.\<close>

definition do_newToken :: "string option \<Rightarrow> jsv + string" where
  "do_newToken uuid = (case uuid of
     None \<Rightarrow> Inl (LockException ''crypto.randomUUID is required to create a Durable Object lock token'')
   | Some u \<Rightarrow> Inr u)"

definition op_value :: "string \<Rightarrow> string \<Rightarrow> LockConfiguration \<Rightarrow> string \<Rightarrow> jsv" where
  "op_value kind hostname config token =
     obj [(''op'', JStr kind), (''name'', JStr (cfg_name config)), (''lockAtMostFor'', JNum (lockAtMostFor config)),
          (''lockAtLeastFor'', JNum (lockAtLeastFor config)), (''createdAt'', JNum (createdAt config)),
          (''lockedBy'', JStr hostname), (''token'', JStr token)]"

definition do_call :: "string \<Rightarrow> jsv \<Rightarrow> (jsv \<Rightarrow> (do_req, 'a) prog) \<Rightarrow> (do_req, 'a) prog" where
  "do_call name body f = request (DoFetch name (json body)) (\<lambda>response.
     if \<not> truthy (jget response ''ok'')
     then Raise (LockException (''Cloudflare DO lock request failed with HTTP '' @ js_String (jget response ''status'')))
     else request (DoJson response) f)"

definition CloudflareDo_lock :: "string \<Rightarrow> string option \<Rightarrow> LockConfiguration \<Rightarrow> (do_req, string asl option) prog" where
  "CloudflareDo_lock hostname uuid config =
     sync (do_newToken uuid) (\<lambda>token.
       do_call (cfg_name config) (op_value ''lock'' hostname config token) (\<lambda>result.
         if \<not> truthy (jget result ''ok'') \<or> \<not> truthy (jget result ''acquired'') then Ret None
         else (case jget result ''token'' of
             JStr k \<Rightarrow> if k = [] then Raise (LockException ''Cloudflare DO lock response did not include an ownership token'')
                       else Ret (Some (new_asl config k))
           | _ \<Rightarrow> Raise (LockException ''Cloudflare DO lock response did not include an ownership token''))))"

definition CloudflareDo_unlock :: "string \<Rightarrow> LockConfiguration \<Rightarrow> string \<Rightarrow> (do_req, unit) prog" where
  "CloudflareDo_unlock hostname config token =
     (if token = [] then Ret ()
      else do_call (cfg_name config) (op_value ''unlock'' hostname config token) (\<lambda>_. Ret ()))"

definition CloudflareDo_extend :: "string \<Rightarrow> LockConfiguration \<Rightarrow> string \<Rightarrow> (do_req, string asl option) prog" where
  "CloudflareDo_extend hostname config token =
     (if token = [] then Ret None
      else do_call (cfg_name config) (op_value ''extend'' hostname config token) (\<lambda>result.
        if truthy (jget result ''ok'') \<and> truthy (jget result ''extended'') then Ret (Some (new_asl config token)) else Ret None))"

definition CloudflareDoLock_doUnlock :: "string \<Rightarrow> string asl \<Rightarrow> (do_req, unit) prog" where
  "CloudflareDoLock_doUnlock hostname l = CloudflareDo_unlock hostname (asl_config l) (asl_data l)"

definition CloudflareDoLock_doExtend :: "string \<Rightarrow> string asl \<Rightarrow> LockConfiguration \<Rightarrow> (do_req, string asl option) prog" where
  "CloudflareDoLock_doExtend hostname l newConfig = CloudflareDo_extend hostname newConfig (asl_data l)"

section \<open>Properties\<close>

text \<open>A run of the server: operations with the clock readings at which they arrive.\<close>

fun do_serve :: "do_storage \<Rightarrow> (LockOp \<times> jsnum) list \<Rightarrow> LockOpResult list \<times> do_storage" where
  "do_serve s [] = ([], s)"
| "do_serve s ((b, t) # r) = (case applyLockOp s b t of (x, s1) \<Rightarrow> (case do_serve s1 r of (xs, s2) \<Rightarrow> (x # xs, s2)))"

lemma storageKey_inj [simp]: "storageKeyForLock a = storageKeyForLock b \<longleftrightarrow> a = b"
  by (simp add: storageKeyForLock_def)

lemma apply_other_name:
  "op_name b \<noteq> n \<Longrightarrow> snd (applyLockOp s b t) (storageKeyForLock n) = s (storageKeyForLock n)"
  by (auto simp: applyLockOp_def apply_lock_def apply_unlock_def apply_extend_def Let_def split: do_op.splits option.splits)

lemma apply_other_token:
  assumes "s (storageKeyForLock n) = Some r" "do_token r = Some k" "op_token b \<noteq> k" "js_lt t (do_lockUntil r)" "op_name b = n"
  shows "snd (applyLockOp s b t) = s \<and> (case fst (applyLockOp s b t) of DoOk a e _ \<Rightarrow> \<not> a \<and> \<not> e | DoRefused _ \<Rightarrow> True)"
  using assms
  by (auto simp: applyLockOp_def apply_lock_def apply_unlock_def apply_extend_def do_owns_def Let_def split: do_op.splits)

lemma do_serve_held:
  assumes "\<forall>(b, t) \<in> set ops. op_token b \<noteq> k \<and> js_lt t (do_lockUntil r)" "do_token r = Some k" "s (storageKeyForLock n) = Some r"
    "do_serve s ops = (res, s')"
  shows "s' (storageKeyForLock n) = Some r \<and>
    (\<forall>i < length ops. op_name (fst (ops ! i)) = n \<longrightarrow> (case res ! i of DoOk a e _ \<Rightarrow> \<not> a \<and> \<not> e | DoRefused _ \<Rightarrow> True))"
  using assms
proof (induction ops arbitrary: s res)
  case (Cons p ops)
  obtain b t where p: "p = (b, t)" by fastforce
  obtain x s1 where x: "applyLockOp s b t = (x, s1)" by fastforce
  obtain xs where xs: "do_serve s1 ops = (xs, s')" "res = x # xs" using Cons.prems(4) p x by (auto split: prod.splits)
  have s1: "s1 (storageKeyForLock n) = Some r"
  proof (cases "op_name b = n")
    case True
    then show ?thesis using apply_other_token [of s n r k b t] Cons.prems x p by auto
  next
    case False
    then show ?thesis using apply_other_name [of b n s t] Cons.prems x by auto
  qed
  have first: "case x of DoOk a e _ \<Rightarrow> \<not> a \<and> \<not> e | DoRefused _ \<Rightarrow> True" if "op_name b = n"
    using apply_other_token [of s n r k b t] Cons.prems x p that by auto
  have "s' (storageKeyForLock n) = Some r \<and>
    (\<forall>i < length ops. op_name (fst (ops ! i)) = n \<longrightarrow> (case xs ! i of DoOk a e _ \<Rightarrow> \<not> a \<and> \<not> e | DoRefused _ \<Rightarrow> True))"
    by (rule Cons.IH [OF _ Cons.prems(2) s1 xs(1)]) (use Cons.prems(1) in simp)
  then show ?case using first xs(2) p by (auto simp: nth_Cons split: nat.splits)
qed simp

text \<open>
  C26: Exclusion by token: after the server granted a lock at time t for lockAtMostFor, every sequence of operations of
  other tokens arriving before that deadline, on this and on other names, leaves the record as it is, and none of those on this name
  acquires or extends.
\<close>

theorem CloudflareDo_exclusive:
  assumes "applyLockOp s b (Fin t) = (DoOk True e k, s1)" "op_lockAtMostFor b = Fin d"
    and "\<forall>(c, u) \<in> set ops. op_token c \<noteq> op_token b \<and> js_lt u (Fin (t + d))"
    and "do_serve s1 ops = (res, s2)"
  shows "s2 (storageKeyForLock (op_name b)) = s1 (storageKeyForLock (op_name b)) \<and>
    (\<forall>i < length ops. op_name (fst (ops ! i)) = op_name b \<longrightarrow>
       (case res ! i of DoOk a x _ \<Rightarrow> \<not> a \<and> \<not> x | DoRefused _ \<Rightarrow> True))"
proof -
  have "op_op b = OpLock"
    using assms(1) by (auto simp: applyLockOp_def apply_unlock_def apply_extend_def Let_def split: do_op.splits option.splits if_splits)
  then have "apply_lock s b (Fin t) = (DoOk True e k, s1)" using assms(1) by (simp add: applyLockOp_def)
  then obtain r where r: "s1 (storageKeyForLock (op_name b)) = Some r" "do_token r = Some (op_token b)" "do_lockUntil r = Fin (t + d)"
    using assms(2) by (auto simp: apply_lock_def strictFutureDeadline_def Let_def split: option.splits if_splits)
  have "s2 (storageKeyForLock (op_name b)) = Some r \<and>
    (\<forall>i < length ops. op_name (fst (ops ! i)) = op_name b \<longrightarrow>
       (case res ! i of DoOk a x _ \<Rightarrow> \<not> a \<and> \<not> x | DoRefused _ \<Rightarrow> True))"
    by (rule do_serve_held [OF _ r(2,1) assms(4)]) (use assms(3) r(3) in auto)
  with r(1) show ?thesis by simp
qed

definition do_demo :: "do_op \<Rightarrow> string \<Rightarrow> LockOp" where
  "do_demo k token = \<lparr>op_op = k, op_name = ''job'', op_lockAtMostFor = Fin 100, op_lockAtLeastFor = Fin 0, op_createdAt = Fin 0,
     op_lockedBy = ''host'', op_token = token\<rparr>"

theorem CloudflareDo_exclusive_witness:
  "snd (do_serve (snd (applyLockOp (\<lambda>_. None) (do_demo OpLock ''a'') (Fin 0)))
     [(do_demo OpLock ''b'', Fin 50), (do_demo OpUnlock ''b'', Fin 60)]) (storageKeyForLock ''job'') =
   snd (applyLockOp (\<lambda>_. None) (do_demo OpLock ''a'') (Fin 0)) (storageKeyForLock ''job'')"
proof -
  let ?b = "do_demo OpLock ''a''" and ?ops = "[(do_demo OpLock ''b'', Fin 50), (do_demo OpUnlock ''b'', Fin 60)]"
  obtain s1 where s1: "applyLockOp (\<lambda>_. None) ?b (Fin 0) = (DoOk True False (Some ''a''), s1)"
    by (simp add: applyLockOp_def apply_lock_def strictFutureDeadline_def do_demo_def Let_def)
  obtain res s2 where s2: "do_serve s1 ?ops = (res, s2)" by fastforce
  have "s2 (storageKeyForLock (op_name ?b)) = s1 (storageKeyForLock (op_name ?b))"
    by (rule CloudflareDo_exclusive [where d = 100, OF s1 _ _ s2, THEN conjunct1]) (simp_all add: do_demo_def)
  then show ?thesis using s1 s2 by (simp add: do_demo_def)
qed

end
