(* ===== verification/JsonParse.thy ===== *)
theory JsonParse
  imports Json
begin

text \<open>
  \<open>JSON.parse\<close> of the language, for the providers that store a record as JSON text.  The parser takes fuel; twice the length
  of the text is enough, since every second call consumes a character (\<open>p_enough\<close>).  An escape of a character outside the Latin-1 range of
  the string model is refused like a malformed one.
\<close>

section \<open>The parser\<close>

definition is_json_space :: "char \<Rightarrow> bool" where
  "is_json_space c \<longleftrightarrow> (let n = (of_char c :: nat) in n = 9 \<or> n = 10 \<or> n = 13 \<or> n = 32)"

definition skip_ws :: "string \<Rightarrow> string" where
  "skip_ws s = dropWhile is_json_space s"

definition hex_val :: "char \<Rightarrow> nat option" where
  "hex_val c = (let n = (of_char c :: nat) in
     if 48 \<le> n \<and> n \<le> 57 then Some (n - 48) else if 97 \<le> n \<and> n \<le> 102 then Some (n - 87)
     else if 65 \<le> n \<and> n \<le> 70 then Some (n - 55) else None)"

definition hex_char :: "char \<Rightarrow> char \<Rightarrow> char \<Rightarrow> char \<Rightarrow> char option" where
  "hex_char a b c d = (case (hex_val a, hex_val b, hex_val c, hex_val d) of
     (Some w, Some x, Some y, Some z) \<Rightarrow> if w = 0 \<and> x = 0 then Some (char_of (16 * y + z)) else None
   | _ \<Rightarrow> None)"

definition json_escape :: "char \<Rightarrow> char option" where
  "json_escape c = (let n = (of_char c :: nat) in
     if n = 34 \<or> n = 92 \<or> n = 47 then Some c
     else if c = CHR ''b'' then Some (char_of (8::nat)) else if c = CHR ''t'' then Some (char_of (9::nat))
     else if c = CHR ''n'' then Some (char_of (10::nat)) else if c = CHR ''f'' then Some (char_of (12::nat))
     else if c = CHR ''r'' then Some (char_of (13::nat)) else None)"

abbreviation cons_fst :: "'a \<Rightarrow> ('a list \<times> 'b) option \<Rightarrow> ('a list \<times> 'b) option" where
  "cons_fst c r \<equiv> map_option (\<lambda>(t, u). (c # t, u)) r"

text \<open>A string literal after its opening quote, and what follows its closing quote.\<close>

fun p_string :: "string \<Rightarrow> (string \<times> string) option" where
  "p_string [] = None"
| "p_string (c # s) =
     (if c = CHR 0x22 then Some ([], s)
      else if c = CHR 0x5C then (case s of
          [] \<Rightarrow> None
        | e # s1 \<Rightarrow>
            if e = CHR ''u'' then (case s1 of
                h1 # h2 # h3 # h4 # s2 \<Rightarrow> (case hex_char h1 h2 h3 h4 of None \<Rightarrow> None | Some x \<Rightarrow> cons_fst x (p_string s2))
              | _ \<Rightarrow> None)
            else (case json_escape e of None \<Rightarrow> None | Some x \<Rightarrow> cons_fst x (p_string s1)))
      else if (of_char c :: nat) < 32 then None
      else cons_fst c (p_string s))"

definition Number_of_rat :: "rat \<Rightarrow> jsnum" where
  "Number_of_rat r = (if \<bar>r\<bar> < 2 ^ 1024 - 2 ^ 970 then Fin r else if 0 < r then PInf else NInf)"

text \<open>The exponent part, if any: its value and the rest.\<close>

definition p_exponent :: "string \<Rightarrow> (int \<times> string) option" where
  "p_exponent s = (case s of
     [] \<Rightarrow> Some (0, s)
   | e # s1 \<Rightarrow>
       if e \<noteq> CHR ''e'' \<and> e \<noteq> CHR ''E'' then Some (0, s)
       else (let neg = (s1 \<noteq> [] \<and> hd s1 = CHR ''-''); s2 = (if s1 \<noteq> [] \<and> hd s1 \<in> {CHR ''-'', CHR ''+''} then tl s1 else s1);
                 ds = takeWhile is_digit s2
             in if ds = [] then None
                else Some ((if neg then - 1 else 1) * int (digits_nat ds), dropWhile is_digit s2)))"

definition p_fraction :: "string \<Rightarrow> (string \<times> string) option" where
  "p_fraction s = (if s \<noteq> [] \<and> hd s = CHR ''.''
     then (let fs = takeWhile is_digit (tl s) in if fs = [] then None else Some (fs, dropWhile is_digit (tl s)))
     else Some ([], s))"

definition p_number :: "string \<Rightarrow> (jsnum \<times> string) option" where
  "p_number s =
     (let neg = (s \<noteq> [] \<and> hd s = CHR ''-''); s1 = (if neg then tl s else s);
          ds = takeWhile is_digit s1
      in if ds = [] \<or> (hd ds = CHR ''0'' \<and> 1 < length ds) then None
         else (case p_fraction (dropWhile is_digit s1) of None \<Rightarrow> None | Some (fs, s2) \<Rightarrow>
           (case p_exponent s2 of None \<Rightarrow> None | Some (x, s3) \<Rightarrow>
              Some (Number_of_rat ((if neg then - 1 else 1) * of_nat (digits_nat (ds @ fs)) * 10 powi (x - int (length fs))), s3))))"

definition p_literal :: "string \<Rightarrow> (jsv \<times> string) option" where
  "p_literal s =
     (if starts_with s ''true'' then Some (JBool True, drop 4 s)
      else if starts_with s ''false'' then Some (JBool False, drop 5 s)
      else if starts_with s ''null'' then Some (JNull, drop 4 s)
      else map_option (\<lambda>(x, t). (JNum x, t)) (p_number s))"

text \<open>The name of a member and its colon.\<close>

definition p_key :: "string \<Rightarrow> (string \<times> string) option" where
  "p_key s = (case skip_ws s of
     [] \<Rightarrow> None
   | q # r \<Rightarrow> if q \<noteq> CHR 0x22 then None else (case p_string r of
       None \<Rightarrow> None
     | Some (k, r1) \<Rightarrow> (case skip_ws r1 of
         [] \<Rightarrow> None
       | d # r2 \<Rightarrow> if d \<noteq> CHR 0x3A then None else Some (k, r2))))"

text \<open>\<open>p_elems\<close> and \<open>p_members\<close> read the rest of an array or object that has at least one more entry.\<close>

fun p_value :: "nat \<Rightarrow> string \<Rightarrow> (jsv \<times> string) option"
  and p_elems :: "nat \<Rightarrow> string \<Rightarrow> (jsv list \<times> string) option"
  and p_members :: "nat \<Rightarrow> string \<Rightarrow> ((string \<times> jsv) list \<times> string) option" where
  "p_value 0 s = None"
| "p_value (Suc n) s = (case skip_ws s of
     [] \<Rightarrow> None
   | c # r \<Rightarrow>
       if c = CHR 0x22 then map_option (\<lambda>(t, u). (JStr t, u)) (p_string r)
       else if c = CHR 0x7B then
         (if skip_ws r \<noteq> [] \<and> hd (skip_ws r) = CHR 0x7D then Some (obj [], tl (skip_ws r))
          else map_option (\<lambda>(ps, u). (mk_obj ps, u)) (p_members n r))
       else if c = CHR 0x5B then
         (if skip_ws r \<noteq> [] \<and> hd (skip_ws r) = CHR 0x5D then Some (JArr [], tl (skip_ws r))
          else map_option (\<lambda>(xs, u). (JArr xs, u)) (p_elems n r))
       else p_literal (c # r))"
| "p_elems 0 s = None"
| "p_elems (Suc n) s = (case p_value n s of
     None \<Rightarrow> None
   | Some (v, r) \<Rightarrow> (case skip_ws r of
       [] \<Rightarrow> None
     | c # u \<Rightarrow> if c = CHR 0x5D then Some ([v], u)
         else if c = CHR 0x2C then cons_fst v (p_elems n u)
         else None))"
| "p_members 0 s = None"
| "p_members (Suc n) s = (case p_key s of
     None \<Rightarrow> None
   | Some (k, r2) \<Rightarrow> (case p_value n r2 of
       None \<Rightarrow> None
     | Some (v, r3) \<Rightarrow> (case skip_ws r3 of
         [] \<Rightarrow> None
       | c # u \<Rightarrow> if c = CHR 0x7D then Some ([(k, v)], u)
           else if c = CHR 0x2C then cons_fst (k, v) (p_members n u)
           else None)))"

definition SyntaxError :: "string \<Rightarrow> jsv" where
  "SyntaxError msg = mk_error ''SyntaxError'' msg"

definition JSON_parse :: "string \<Rightarrow> jsv + jsv" where
  "JSON_parse s = (case p_value (Suc (2 * length s)) s of
     None \<Rightarrow> Inl (SyntaxError ''Unexpected token or end of JSON input'')
   | Some (v, r) \<Rightarrow> if skip_ws r = [] then Inr v else Inl (SyntaxError ''Unexpected non-whitespace character after JSON''))"

section \<open>Enough fuel\<close>

lemma skip_ws_length: "length (skip_ws s) \<le> length s"
  by (simp add: skip_ws_def length_dropWhile_le)

lemma p_string_length: "p_string s = Some (t, r) \<Longrightarrow> length r < length s"
proof (induction s arbitrary: t r rule: p_string.induct)
  case (2 c s)
  show ?case
  proof (cases "c = CHR 0x22 \<or> c \<noteq> CHR 0x5C")
    case True
    with 2 show ?thesis by (auto split: if_splits)
  next
    case False
    then have c: "c \<noteq> CHR 0x22" "c = CHR 0x5C" by auto
    with 2(4) obtain e s1 where s: "s = e # s1" by (cases s) auto
    show ?thesis
    proof (cases "e = CHR ''u''")
      case True
      with 2(4) c s obtain h1 h2 h3 h4 s2 x t' where "s1 = h1 # h2 # h3 # h4 # s2" "hex_char h1 h2 h3 h4 = Some x" "p_string s2 = Some (t', r)"
        by (auto split: list.splits option.splits)
      with 2(1) [OF c s True] s show ?thesis by fastforce
    next
      case False
      with 2(4) c s obtain x t' where "json_escape e = Some x" "p_string s1 = Some (t', r)" by (auto split: option.splits)
      with 2(2) [OF c s False] s show ?thesis by fastforce
    qed
  qed
qed simp

lemma dropWhile_length_less: "takeWhile P s \<noteq> [] \<Longrightarrow> length (dropWhile P s) < length s"
  by (cases s) (auto simp: less_Suc_eq_le length_dropWhile_le split: if_splits)

lemma p_fraction_length: "p_fraction s = Some (t, r) \<Longrightarrow> length r \<le> length s"
  using dropWhile_length_less [of is_digit "tl s"] by (auto simp: p_fraction_def Let_def split: if_splits)

lemma p_exponent_length: "p_exponent s = Some (x, r) \<Longrightarrow> length r \<le> length s"
proof -
  assume a: "p_exponent s = Some (x, r)"
  have l: "length (dropWhile is_digit u) \<le> length u" for u by (rule length_dropWhile_le)
  show ?thesis
  proof (cases s)
    case (Cons e s1)
    then show ?thesis using a l [of s1] l [of "tl s1"] by (auto simp: p_exponent_def Let_def split: if_splits)
  qed (use a in \<open>simp add: p_exponent_def\<close>)
qed

lemma p_number_length: "p_number s = Some (x, r) \<Longrightarrow> length r < length s"
proof -
  assume a: "p_number s = Some (x, r)"
  define s1 where "s1 = (if s \<noteq> [] \<and> hd s = CHR ''-'' then tl s else s)"
  from a obtain fs s2 y where p: "takeWhile is_digit s1 \<noteq> []" "p_fraction (dropWhile is_digit s1) = Some (fs, s2)"
    "p_exponent s2 = Some (y, r)"
    by (auto simp: p_number_def Let_def s1_def split: if_splits option.splits)
  have "length s1 \<le> length s" by (simp add: s1_def)
  with dropWhile_length_less [OF p(1)] p_fraction_length [OF p(2)] p_exponent_length [OF p(3)] show ?thesis by linarith
qed

lemma starts_with_length: "starts_with s t \<Longrightarrow> length t \<le> length s"
  by (induction s t rule: starts_with.induct) auto

lemma p_literal_length: "p_literal s = Some (v, r) \<Longrightarrow> length r < length s"
  using starts_with_length [of s "''true''"] starts_with_length [of s "''false''"] starts_with_length [of s "''null''"]
  by (auto simp: p_literal_def dest: p_number_length split: if_splits)

lemma skip_ws_Cons: "skip_ws s = c # r \<Longrightarrow> length r < length s"
  using skip_ws_length [of s] by simp

lemma skip_ws_tl: "skip_ws r \<noteq> [] \<Longrightarrow> length (tl (skip_ws r)) < length r"
  using skip_ws_length [of r] by (cases "skip_ws r") auto

lemma p_key_length: "p_key s = Some (k, r) \<Longrightarrow> length r < length s"
proof -
  assume a: "p_key s = Some (k, r)"
  then obtain t where t: "skip_ws s = CHR 0x22 # t" by (auto simp: p_key_def split: list.splits if_splits)
  with a obtain r1 where r1: "p_string t = Some (k, r1)" by (auto simp: p_key_def split: option.splits list.splits if_splits)
  with a t have "skip_ws r1 = CHR 0x3A # r" by (auto simp: p_key_def split: list.splits if_splits)
  from skip_ws_Cons [OF t] p_string_length [OF r1] skip_ws_Cons [OF this] show ?thesis by linarith
qed

lemma p_length:
  "p_value n s = Some (v, r) \<Longrightarrow> length r < length s"
  "p_elems n s = Some (xs, r) \<Longrightarrow> length r < length s"
  "p_members n s = Some (ps, r) \<Longrightarrow> length r < length s"
proof (induction n s and n s and n s arbitrary: v r and xs r and ps r rule: p_value_p_elems_p_members.induct)
  case (2 n s)
  then obtain c t where t: "skip_ws s = c # t" by (cases "skip_ws s") auto
  then have l: "length t < length s" by (rule skip_ws_Cons)
  show ?case
  proof (cases "c = CHR 0x22")
    case True
    then show ?thesis using 2(3) t l p_string_length [of t] by fastforce
  next
    case q: False
    show ?thesis
    proof (cases "c = CHR 0x7B")
      case True
      then show ?thesis using 2(3) 2(1) [OF t q True] t l skip_ws_tl [of t] q
        by (auto split: if_splits)
    next
      case b: False
      show ?thesis
      proof (cases "c = CHR 0x5B")
        case True
        then show ?thesis using 2(3) 2(2) [OF t q b True] t l skip_ws_tl [of t] q
          by (auto split: if_splits)
      next
        case False
        then show ?thesis using 2(3) t l p_literal_length [of "c # t"] skip_ws_length [of s] q b by fastforce
      qed
    qed
  qed
next
  case (4 n s)
  then obtain v t where v: "p_value n s = Some (v, t)" by (cases "p_value n s") auto
  with 4 obtain c u where u: "skip_ws t = c # u" by (cases "skip_ws t") auto
  have l: "length u < length s" using 4(1) [OF v] skip_ws_Cons [OF u] by linarith
  then show ?case using 4(2) [OF v refl u] 4(3) v u by (auto split: if_splits)
next
  case (6 n s)
  from 6(3) obtain k r2 where k: "p_key s = Some (k, r2)" by (cases "p_key s") auto
  with 6(3) obtain v r3 where v: "p_value n r2 = Some (v, r3)" by (cases "p_value n r2") auto
  with 6(3) k obtain c u where u: "skip_ws r3 = c # u" by (cases "skip_ws r3") auto
  have "length r3 < length r2" by (rule 6(1) [OF k refl v])
  with p_key_length [OF k] skip_ws_Cons [OF u] have l: "length u < length s" by linarith
  have "length r' < length u" if "c \<noteq> CHR 0x7D" "c = CHR 0x2C" "p_members n u = Some (ps', r')" for ps' r'
    by (rule 6(2) [OF k refl v refl u that])
  then show ?case using 6(3) k v u l by (auto split: if_splits)
qed simp_all

lemma p_value_cong:
  assumes "skip_ws s = c # r"
    and m: "c \<noteq> CHR 0x22 \<Longrightarrow> c = CHR 0x7B \<Longrightarrow> \<not> (skip_ws r \<noteq> [] \<and> hd (skip_ws r) = CHR 0x7D) \<Longrightarrow>
      p_members k r = p_members n r"
    and e: "c \<noteq> CHR 0x22 \<Longrightarrow> c \<noteq> CHR 0x7B \<Longrightarrow> c = CHR 0x5B \<Longrightarrow>
      \<not> (skip_ws r \<noteq> [] \<and> hd (skip_ws r) = CHR 0x5D) \<Longrightarrow> p_elems k r = p_elems n r"
  shows "p_value (Suc k) s = p_value (Suc n) s"
  unfolding p_value.simps assms(1) list.case
  by (rule if_cong [OF refl refl], rule if_cong [OF refl], rule if_cong [OF refl refl],
    rule arg_cong [where f = "map_option _"], erule (2) m, rule if_cong [OF refl], rule if_cong [OF refl refl],
    rule arg_cong [where f = "map_option _"], erule (3) e, rule refl)

lemma p_enough:
  "2 * length s < n \<Longrightarrow> n \<le> m \<Longrightarrow> p_value m s = p_value n s"
  "2 * length s + 1 < n \<Longrightarrow> n \<le> m \<Longrightarrow> p_elems m s = p_elems n s"
  "2 * length s < n \<Longrightarrow> n \<le> m \<Longrightarrow> p_members m s = p_members n s"
proof (induction n s and n s and n s arbitrary: m and m and m rule: p_value_p_elems_p_members.induct)
  case (2 n s)
  from 2(4) obtain k where k: "m = Suc k" "n \<le> k" by (cases m) auto
  show ?case
  proof (cases "skip_ws s")
    case (Cons c r)
    have r: "2 * length r < n" "2 * length r + 1 < n" using skip_ws_Cons [OF Cons] 2(3) by simp_all
    have m: "c \<noteq> CHR 0x22 \<Longrightarrow> c = CHR 0x7B \<Longrightarrow> \<not> (skip_ws r \<noteq> [] \<and> hd (skip_ws r) = CHR 0x7D) \<Longrightarrow>
        p_members k r = p_members n r"
      by (rule 2(1) [OF Cons _ _ _ r(1) k(2)])
    have e: "c \<noteq> CHR 0x22 \<Longrightarrow> c \<noteq> CHR 0x7B \<Longrightarrow> c = CHR 0x5B \<Longrightarrow>
        \<not> (skip_ws r \<noteq> [] \<and> hd (skip_ws r) = CHR 0x5D) \<Longrightarrow> p_elems k r = p_elems n r"
      by (rule 2(2) [OF Cons _ _ _ _ r(2) k(2)])
    show ?thesis unfolding k(1) by (rule p_value_cong [OF Cons m e])
  qed (simp add: k)
next
  case (4 n s)
  from 4(4) obtain k where k: "m = Suc k" "n \<le> k" by (cases m) auto
  have v: "p_value k s = p_value n s" by (rule 4(1)) (use 4(3) k in simp_all)
  show ?case
  proof (cases "p_value n s")
    case (Some p)
    obtain x r where p: "p = (x, r)" by (cases p)
    show ?thesis
    proof (cases "skip_ws r")
      case (Cons c u)
      have "length u < length s" using p_length(1) Some p skip_ws_Cons [OF Cons] by fastforce
      then have u: "2 * length u + 1 < n" using 4(3) by simp
      have "p_elems k u = p_elems n u" if "c \<noteq> CHR 0x5D" "c = CHR 0x2C"
        by (rule 4(2) [OF _ p [symmetric] Cons that u k(2)]) (simp add: Some)
      then show ?thesis unfolding k(1) p_elems.simps v Some p Cons option.case prod.case list.case by auto
    qed (use v Some p k in simp)
  qed (use v k in simp)
next
  case (6 n s)
  from 6(4) obtain k where k: "m = Suc k" "n \<le> k" by (cases m) auto
  show ?case
  proof (cases "p_key s")
    case (Some q)
    obtain kk r2 where q: "q = (kk, r2)" by (cases q)
    have l: "length r2 < length s" by (rule p_key_length) (simp add: Some q)
    have v: "p_value k r2 = p_value n r2" by (rule 6(1) [OF Some q [symmetric] _ k(2)]) (use 6(3) l in simp)
    show ?thesis
    proof (cases "p_value n r2")
      case p: (Some p)
      obtain x r3 where x: "p = (x, r3)" by (cases p)
      show ?thesis
      proof (cases "skip_ws r3")
        case (Cons c u)
        have "length u < length r2" using p_length(1) p x skip_ws_Cons [OF Cons] by fastforce
        then have u: "2 * length u < n" using l 6(3) by simp
        have "p_members k u = p_members n u" if "c \<noteq> CHR 0x7D" "c = CHR 0x2C"
          by (rule 6(2) [OF Some q [symmetric] p x [symmetric] Cons that u k(2)])
        then show ?thesis unfolding k(1) p_members.simps v Some q p x Cons option.case prod.case list.case by auto
      qed (use v p x k Some q in simp)
    qed (use v k Some q in simp)
  qed (simp add: k)
qed simp_all

section \<open>Reading back what \<open>JSON.stringify\<close> prints\<close>

lemma hex_val_digit: "n < 16 \<Longrightarrow> hex_val (hex_digit n) = Some n"
  by (auto simp: hex_val_def hex_digit_def Let_def)

lemma char_cases_control: "(of_char c :: nat) = k \<Longrightarrow> c = char_of k"
  by auto

lemma p_string_plain: "(of_char c :: nat) \<noteq> 34 \<Longrightarrow> (of_char c :: nat) \<noteq> 92 \<Longrightarrow> 32 \<le> (of_char c :: nat) \<Longrightarrow>
    p_string (c # s) = cons_fst c (p_string s)"
  by auto

lemma p_string_unicode:
  assumes "(of_char c :: nat) < 32"
  shows "p_string (CHR 0x5C # ''u00'' @ [hex_digit (of_char c div 16), hex_digit (of_char c mod 16)] @ s) = cons_fst c (p_string s)"
proof -
  have "hex_char (CHR ''0'') (CHR ''0'') (hex_digit (of_char c div 16)) (hex_digit (of_char c mod 16)) = Some c"
    using assms by (simp add: hex_char_def hex_val_digit) (simp add: hex_val_def)
  then show ?thesis by simp
qed

lemma char_of_34_92 [simp]: "char_of (34::nat) = CHR 0x22" "char_of (92::nat) = CHR 0x5C"
  by (simp_all add: char_of_def bit_0)

lemma p_string_json_char: "p_string (json_char c @ s) = cons_fst c (p_string s)"
proof -
  define n :: nat where "n = of_char c"
  have c: "c = char_of n" by (simp add: n_def)
  consider "n = 34" | "n = 92" | "n = 8" | "n = 9" | "n = 10" | "n = 12" | "n = 13"
    | "n < 32" "n \<notin> {8, 9, 10, 12, 13}" | "32 \<le> n" "n \<noteq> 34" "n \<noteq> 92" by force
  then show ?thesis
  proof cases
    case 8
    then have "json_char c = CHR 0x5C # ''u00'' @ [hex_digit (n div 16), hex_digit (n mod 16)]"
      by (simp add: json_char_def Let_def flip: n_def)
    then show ?thesis using p_string_unicode [of c s] 8 by (simp flip: n_def)
  next
    case 9
    then have "json_char c = [c]" by (simp add: json_char_def Let_def flip: n_def)
    then show ?thesis using p_string_plain [of c s] 9 by (simp flip: n_def)
  qed (simp_all add: json_char_def json_escape_def c Let_def)
qed

lemma p_string_json: "p_string (concat (map json_char s) @ CHR 0x22 # r) = Some (s, r)"
  by (induction s) (simp_all add: p_string_json_char)

lemma skip_ws_quote [simp]: "skip_ws (CHR 0x22 # r) = CHR 0x22 # r"
  by (simp add: skip_ws_def is_json_space_def)

lemma p_value_string: "p_value (Suc n) (json_string s @ r) = Some (JStr s, r)"
  by (simp add: json_string_def p_string_json)

lemma p_key_json: "p_key (json_string k @ CHR 0x3A # r) = Some (k, r)"
  by (simp add: p_key_def json_string_def p_string_json) (simp add: skip_ws_def is_json_space_def)

definition delimited :: "string \<Rightarrow> bool" where
  "delimited r \<longleftrightarrow> r \<noteq> [] \<and> hd r \<in> {CHR 0x2C, CHR 0x7D, CHR 0x5D}"

lemma delimitedE: "delimited r \<Longrightarrow> \<exists>c u. r = c # u \<and> c \<in> {CHR 0x2C, CHR 0x7D, CHR 0x5D}"
  by (cases r) (auto simp: delimited_def)

lemma hd_show_nat: "hd (show_nat n) = CHR ''0'' \<Longrightarrow> n = 0"
proof (induction n rule: show_nat.induct)
  case (1 n)
  show ?case
  proof (cases "n < 10")
    case True
    then have "digit_char n = CHR ''0''" using 1(2) by (simp add: show_nat.simps)
    then have "(of_char (digit_char n) :: nat) = of_char (CHR ''0'')" by (rule arg_cong)
    then show ?thesis using True by simp
  next
    case False
    then have "hd (show_nat (n div 10)) = CHR ''0''" using 1(2) by (subst (asm) show_nat.simps) simp
    then have "n div 10 = 0" using 1(1) False by simp
    then show ?thesis using False by simp
  qed
qed

lemma show_nat_0 [simp]: "show_nat 0 = ''0''"
  by (simp add: show_nat.simps digit_char_def char_of_def bit_0)

lemma no_leading_zero: "\<not> (hd (show_nat n) = CHR ''0'' \<and> 1 < length (show_nat n))"
  using hd_show_nat [of n] by auto

lemma delimited_not_digit:
  assumes "delimited r"
  shows "\<exists>c u. r = c # u \<and> \<not> is_digit c"
proof -
  obtain c u where r: "r = c # u" and c: "c \<in> {CHR 0x2C, CHR 0x7D, CHR 0x5D}" using delimitedE [OF assms] by blast
  from c have "\<not> is_digit c" by (elim insertE emptyE) (simp_all add: is_digit_def)
  with r show ?thesis by blast
qed

lemma not_digit_while: "r = c # u \<Longrightarrow> \<not> is_digit c \<Longrightarrow> takeWhile is_digit r = [] \<and> dropWhile is_digit r = r"
  by simp

lemma digits_while: "takeWhile is_digit (show_nat n @ r) = show_nat n @ takeWhile is_digit r"
  "dropWhile is_digit (show_nat n @ r) = dropWhile is_digit r"
  using show_nat_digits [of n] by (blast intro: takeWhile_append2 dropWhile_append2)+

lemma take_drop_digits:
  assumes "delimited r"
  shows "takeWhile is_digit (show_nat n @ r) = show_nat n" "dropWhile is_digit (show_nat n @ r) = r"
proof -
  obtain c u where r: "r = c # u" "\<not> is_digit c" using delimited_not_digit [OF assms] by blast
  show "takeWhile is_digit (show_nat n @ r) = show_nat n" "dropWhile is_digit (show_nat n @ r) = r"
    unfolding digits_while using not_digit_while [OF r] by simp_all
qed

lemma p_fraction_delimited: "delimited r \<Longrightarrow> p_fraction r = Some ([], r)"
  using delimitedE [of r] by (auto simp: p_fraction_def)

lemma p_exponent_delimited: "delimited r \<Longrightarrow> p_exponent r = Some (0, r)"
  using delimitedE [of r] by (auto simp: p_exponent_def)

lemma show_nat_head: "\<exists>c s. show_nat n = c # s \<and> is_digit c"
  using show_nat_digits [of n] by (cases "show_nat n") auto

lemma p_number_nat:
  assumes "delimited r"
  shows "p_number (show_nat n @ r) = Some (Number_of_rat (of_nat n), r)"
    "p_number (CHR ''-'' # show_nat n @ r) = Some (Number_of_rat (- of_nat n), r)"
proof -
  obtain c s where "show_nat n = c # s" "is_digit c" using show_nat_head by blast
  then have "hd (show_nat n @ r) \<noteq> CHR ''-''" by (auto simp: is_digit_def)
  then show "p_number (show_nat n @ r) = Some (Number_of_rat (of_nat n), r)"
    using assms no_leading_zero [of n]
    by (simp add: p_number_def take_drop_digits p_fraction_delimited p_exponent_delimited Let_def)
  show "p_number (CHR ''-'' # show_nat n @ r) = Some (Number_of_rat (- of_nat n), r)"
    using assms no_leading_zero [of n]
    by (simp add: p_number_def take_drop_digits p_fraction_delimited p_exponent_delimited Let_def)
qed

lemma p_number_int: "delimited r \<Longrightarrow> p_number (show_int i @ r) = Some (Number_of_rat (of_int i), r)"
  by (cases "i < 0") (simp_all add: show_int_def p_number_nat)

lemma show_int_head: "\<exists>c s. show_int i = c # s \<and> (is_digit c \<or> c = CHR ''-'')"
  using show_nat_head [of "nat i"] by (simp add: show_int_def) blast

text \<open>A value of a flat record: a string, or an integer in the range of the numbers.\<close>

definition flat_value :: "jsv \<Rightarrow> bool" where
  "flat_value v \<longleftrightarrow> (case v of JStr s \<Rightarrow> True | JNum (Fin r) \<Rightarrow> r = of_int \<lfloor>r\<rfloor> \<and> \<bar>r\<bar> < 2 ^ 1024 - 2 ^ 970 | _ \<Rightarrow> False)"

lemma p_value_int:
  assumes "delimited r" "\<bar>of_int i :: rat\<bar> < 2 ^ 1024 - 2 ^ 970"
  shows "p_value (Suc n) (show_int i @ r) = Some (JNum (Fin (of_int i)), r)"
proof -
  obtain c s where c: "show_int i = c # s" "is_digit c \<or> c = CHR ''-''" using show_int_head by blast
  then have ne: "c \<noteq> CHR 0x22" "c \<noteq> CHR 0x7B" "c \<noteq> CHR 0x5B" "c \<noteq> CHR ''t''" "c \<noteq> CHR ''f''" "c \<noteq> CHR ''n''" "\<not> is_json_space c"
    by (auto simp: is_digit_def is_json_space_def Let_def)
  have "p_number (c # s @ r) = Some (Fin (of_int i), r)"
    using p_number_int [OF assms(1), of i] assms(2) unfolding c(1) Number_of_rat_def append_Cons by (simp only: if_True)
  then have "p_literal (c # s @ r) = Some (JNum (Fin (of_int i)), r)"
    using ne by (simp add: p_literal_def)
  then show ?thesis using c ne by (simp add: skip_ws_def)
qed

lemma flat_value_text: "flat_value v \<Longrightarrow> delimited r \<Longrightarrow> p_value (Suc n) (json v @ r) = Some (v, r)"
  by (auto simp: flat_value_def JSON_number_def p_value_string p_value_int simp del: p_value.simps split: jsv.splits jsnum.splits)

definition flat :: "(string \<times> jsv) list \<Rightarrow> bool" where
  "flat ps \<longleftrightarrow> list_all (\<lambda>(k, v). flat_value v) ps"

lemma flat_simps [simp]: "flat []" "flat ((k, v) # ps) \<longleftrightarrow> flat_value v \<and> flat ps"
  by (simp_all add: flat_def)

lemma flat_value_simps [simp]: "flat_value (JStr s)" "flat_value (JNum (Fin r)) \<longleftrightarrow> r = of_int \<lfloor>r\<rfloor> \<and> \<bar>r\<bar> < 2 ^ 1024 - 2 ^ 970"
  "\<not> flat_value JUndef"
  by (simp_all add: flat_value_def)

lemma json_props_flat [simp]: "flat ps \<Longrightarrow> json_props ps = map (\<lambda>(k, v). json_string k @ '':'' @ json v) ps"
  by (induction ps) (auto simp: flat_def)

lemma delimited_simps [simp]: "delimited (CHR 0x2C # r)" "delimited (CHR 0x7D # r)" "delimited (CHR 0x5D # r)"
  by (simp_all add: delimited_def)

lemma skip_ws_delimited: "skip_ws (CHR 0x2C # r) = CHR 0x2C # r" "skip_ws (CHR 0x7D # r) = CHR 0x7D # r"
  by (simp_all add: skip_ws_def is_json_space_def)

lemma p_members_flat:
  "flat ps \<Longrightarrow> ps \<noteq> [] \<Longrightarrow> length ps < n \<Longrightarrow>
   p_members n (join '','' (map (\<lambda>(k, v). json_string k @ '':'' @ json v) ps) @ CHR 0x7D # r) = Some (ps, r)"
proof (induction ps arbitrary: n)
  case (Cons p ps)
  obtain k v where p: "p = (k, v)" by (cases p)
  with Cons.prems(3) obtain m where n: "n = Suc (Suc m)" "length ps < Suc m" by (cases n rule: nat.exhaust; cases "n - 1") auto
  from Cons.prems(1) p have v: "flat_value v" and ps: "flat ps" by simp_all
  show ?case
  proof (cases ps)
    case Nil
    have "p_key (json_string k @ CHR 0x3A # json v @ CHR 0x7D # r) = Some (k, json v @ CHR 0x7D # r)" by (rule p_key_json)
    then show ?thesis
      by (simp add: n p Nil flat_value_text [OF v] skip_ws_delimited del: p_value.simps)
  next
    case (Cons q qs)
    let ?rest = "join '','' (map (\<lambda>(k, v). json_string k @ '':'' @ json v) ps) @ CHR 0x7D # r"
    have "p_key (json_string k @ CHR 0x3A # json v @ CHR 0x2C # ?rest) = Some (k, json v @ CHR 0x2C # ?rest)" by (rule p_key_json)
    moreover have "p_members (Suc m) ?rest = Some (ps, r)" by (rule Cons.IH [OF ps _ n(2)]) (simp add: Cons)
    moreover have "join '','' (map (\<lambda>(k, v). json_string k @ '':'' @ json v) (p # ps)) @ CHR 0x7D # r =
        json_string k @ CHR 0x3A # json v @ CHR 0x2C # ?rest" by (simp add: p Cons)
    ultimately show ?thesis unfolding n p_members.simps(2)
      by (simp add: p flat_value_text [OF v] skip_ws_delimited del: p_value.simps p_members.simps)
  qed
qed simp

lemma length_join: "list_all (\<lambda>s. s \<noteq> []) ss \<Longrightarrow> length ss \<le> length (join sep ss)"
proof (induction sep ss rule: join.induct)
  case (3 sep s t r)
  have "0 < length s" using 3(2) by simp
  moreover have "length (t # r) \<le> length (join sep (t # r))" using 3 by simp
  ultimately show ?case by (cases s) simp_all
qed (simp_all add: Suc_le_eq)

lemma spread_distinct: "distinct (map fst (ps @ qs)) \<Longrightarrow> spread ps qs = ps @ qs"
proof (induction qs arbitrary: ps)
  case (Cons q qs)
  obtain k v where q: "q = (k, v)" by (cases q)
  have "set_prop ps k v = ps @ [(k, v)]" if "k \<notin> fst ` set ps" for k v
    using that by (induction ps k v rule: set_prop.induct) auto
  then have "spread ps (q # qs) = spread (ps @ [q]) qs" using Cons.prems by (auto simp: spread_def q)
  then show ?case using Cons by simp
qed (simp add: spread_def)

lemma mk_obj_distinct: "distinct (map fst ps) \<Longrightarrow> mk_obj ps = obj ps"
  using spread_distinct [of "[]" ps] by (simp add: mk_obj_def)

lemma p_value_object:
  "p_members n b = Some (ps, r) \<Longrightarrow> b = CHR 0x22 # u \<Longrightarrow> p_value (Suc n) (CHR 0x7B # b) = Some (mk_obj ps, r)"
  by (simp add: skip_ws_def is_json_space_def)

lemma JSON_parse_json:
  assumes "flat ps" "ps \<noteq> []" "distinct (map fst ps)"
  shows "JSON_parse (json (obj ps)) = Inr (obj ps)"
proof -
  let ?body = "join '','' (map (\<lambda>(k, v). json_string k @ '':'' @ json v) ps)"
  have t: "json (obj ps) = CHR 0x7B # ?body @ ''}''" using assms(1) by simp
  have l: "length (json (obj ps)) = length ?body + 2" unfolding t by simp
  have "length ps \<le> length ?body"
    by (rule order_trans [OF _ length_join]) (auto simp: list_all_iff json_string_def)
  then have "p_members (2 * length (json (obj ps))) (?body @ CHR 0x7D # []) = Some (ps, [])"
    by (intro p_members_flat [OF assms(1,2)]) (use l in linarith)
  moreover obtain c u where "?body @ ''}'' = c # u" "c = CHR 0x22"
    using assms(2) by (cases ps; cases "tl ps") (auto simp: json_string_def)
  ultimately have "p_value (Suc (2 * length (json (obj ps)))) (CHR 0x7B # ?body @ CHR 0x7D # []) = Some (mk_obj ps, [])"
    by (intro p_value_object) simp_all
  then have "p_value (Suc (2 * length (json (obj ps)))) (json (obj ps)) = Some (mk_obj ps, [])"
    by (simp only: t append_Cons)
  then show ?thesis by (simp add: JSON_parse_def mk_obj_distinct [OF assms(3)] skip_ws_def del: p_value.simps json.simps)
qed
end
