(* ===== verification/CloudflareKv.thy ===== *)
theory CloudflareKv
  imports SimpleLock JsonParse
begin

text \<open>
  packages/cloudflare-kv/src: best-effort locks in Workers KV.  A record is JSON text under one key with an ownership token
  and a time to live; the namespace (the binding, or the REST client of cloudflare-kv-namespace.ts) is the handler of
  \<open>kv_req\<close>, and \<open>fetch\<close> the handler of \<open>rest_req\<close>.
\<close>

section \<open>Options (cloudflare-kv-configuration.ts)\<close>

record CloudflareKvConfiguration =
  kv_keyPrefix :: string
  kv_confirmWrite :: bool

definition MAX_PREFIX_BYTES :: nat where
  "MAX_PREFIX_BYTES = 256"

definition utf8Size :: "string \<Rightarrow> nat" where
  "utf8Size s = utf8_length (code_points s)"

text \<open>\<open>kv\<close>: the namespace is there with its three methods.\<close>

definition resolveCloudflareKvConfiguration :: "bool \<Rightarrow> jsv \<Rightarrow> jsv \<Rightarrow> jsv \<Rightarrow> jsv + CloudflareKvConfiguration" where
  "resolveCloudflareKvConfiguration kv acknowledgeAdvisoryLock prefix confirm =
     (if \<not> kv then Inl (LockException ''kv namespace with get, put, and delete is required'')
      else if acknowledgeAdvisoryLock \<noteq> JBool True
      then Inl (LockException ''Set acknowledgeAdvisoryLock: true to use the best-effort Workers KV provider. For mutual exclusion, use @tslock/cloudflare-do.'')
      else (case nullish prefix (JStr ''tslock:'') of
          JStr keyPrefix \<Rightarrow>
            if char_of (0::nat) \<in> set keyPrefix then Inl (LockException ''keyPrefix must be a string without NUL characters'')
            else if utf8Size keyPrefix > MAX_PREFIX_BYTES then Inl (LockException ''keyPrefix must be at most 256 UTF-8 bytes'')
            else (case nullish confirm (JBool True) of
                JBool confirmWrite \<Rightarrow> Inr \<lparr>kv_keyPrefix = keyPrefix, kv_confirmWrite = confirmWrite\<rparr>
              | _ \<Rightarrow> Inl (LockException ''confirmWrite must be a boolean''))
        | _ \<Rightarrow> Inl (LockException ''keyPrefix must be a string without NUL characters'')))"

section \<open>Records (lock-record.ts) and expiration (kv-expiration.ts)\<close>

record KvLockRecord =
  kl_lockUntil :: jsnum
  kl_lockedAt :: jsnum
  kl_lockedBy :: string
  kl_token :: string

definition isRecord :: "jsv \<Rightarrow> bool" where
  "isRecord v \<longleftrightarrow> is_object v \<and> (case v of JArr _ \<Rightarrow> False | _ \<Rightarrow> True)"

definition isFiniteNumber :: "jsv \<Rightarrow> bool" where
  "isFiniteNumber v \<longleftrightarrow> (case v of JNum x \<Rightarrow> js_isFinite x | _ \<Rightarrow> False)"

definition Kv_encodeLockRecord :: "KvLockRecord \<Rightarrow> string" where
  "Kv_encodeLockRecord r = json (obj
     [(''lockUntil'', JNum (kl_lockUntil r)), (''lockedAt'', JNum (kl_lockedAt r)),
      (''lockedBy'', JStr (kl_lockedBy r)), (''token'', JStr (kl_token r))])"

definition LockException_cause :: "string \<Rightarrow> jsv \<Rightarrow> jsv" where
  "LockException_cause msg c = JErr ''LockException'' [(''name'', JStr ''LockException''), (''message'', JStr msg), (''cause'', c)]"

definition Kv_decodeLockRecord :: "string \<Rightarrow> jsv + KvLockRecord" where
  "Kv_decodeLockRecord raw = (case JSON_parse raw of
     Inl e \<Rightarrow> Inl (LockException_cause ''Cloudflare KV lock record is not valid JSON'' e)
   | Inr parsed \<Rightarrow>
      if \<not> isRecord parsed then Inl (LockException ''Cloudflare KV lock record is malformed'')
      else (let lockUntil = jget parsed ''lockUntil''; lockedAt = jget parsed ''lockedAt'';
                lockedBy = jget parsed ''lockedBy''; token = jget parsed ''token'' in
        if \<not> isFiniteNumber lockUntil \<or> \<not> isFiniteNumber lockedAt \<or> \<not> is_string lockedBy \<or> js_len lockedBy = 0 \<or>
           \<not> is_string token \<or> js_len token = 0
        then Inl (LockException ''Cloudflare KV lock record is malformed'')
        else Inr \<lparr>kl_lockUntil = js_Number lockUntil, kl_lockedAt = js_Number lockedAt,
                  kl_lockedBy = str_of lockedBy, kl_token = str_of token\<rparr>))"

definition CLOUDFLARE_KV_MIN_EXPIRATION_TTL_SECONDS :: jsnum where
  "CLOUDFLARE_KV_MIN_EXPIRATION_TTL_SECONDS = Fin 60"

definition kvExpirationTtlSeconds :: "jsnum \<Rightarrow> jsnum \<Rightarrow> jsnum" where
  "kvExpirationTtlSeconds lockUntilMs nowMs =
     (let remainingMs = js_max (Fin 0) (js_sub lockUntilMs nowMs) in
      js_max CLOUDFLARE_KV_MIN_EXPIRATION_TTL_SECONDS (js_add (js_floor (js_scale (1 / 1000) remainingMs)) (Fin 1)))"

section \<open>The provider (cloudflare-kv-lock-provider.ts, cloudflare-kv-lock.ts)\<close>

datatype kv_req =
    KvGet string
  | KvPut string string jsnum
  | KvDelete string

definition MAX_KEY_BYTES :: nat where
  "MAX_KEY_BYTES = 512"

definition Kv_newToken :: "string option \<Rightarrow> jsv + string" where
  "Kv_newToken uuid = (case uuid of
     None \<Rightarrow> Inl (LockException ''crypto.randomUUID is required to create a Workers KV lock token'')
   | Some u \<Rightarrow> Inr u)"

definition Kv_storageKey :: "CloudflareKvConfiguration \<Rightarrow> string \<Rightarrow> jsv + string" where
  "Kv_storageKey c name =
     (let key = kv_keyPrefix c @ name; size = utf8Size key in
      if size < 1 \<or> size > MAX_KEY_BYTES
      then Inl (LockException (''Lock storage key must be 1..'' @ show_nat MAX_KEY_BYTES @ '' UTF-8 bytes''))
      else Inr key)"

definition Kv_read :: "string \<Rightarrow> (KvLockRecord option \<Rightarrow> (kv_req, 'a) prog) \<Rightarrow> (kv_req, 'a) prog" where
  "Kv_read key f = request (KvGet key) (\<lambda>raw.
     if raw = JNull then f None else sync (Kv_decodeLockRecord (js_String raw)) (\<lambda>r. f (Some r)))"

definition Kv_write :: "string \<Rightarrow> KvLockRecord \<Rightarrow> jsnum \<Rightarrow> (kv_req, 'a) prog \<Rightarrow> (kv_req, 'a) prog" where
  "Kv_write key r now f =
     request (KvPut key (Kv_encodeLockRecord r) (kvExpirationTtlSeconds (kl_lockUntil r) now)) (\<lambda>_. f)"

text \<open>The end of \<open>lock\<close> and \<open>extend\<close>: the write is read back when \<open>confirmWrite\<close> is set.\<close>

definition Kv_confirm :: "CloudflareKvConfiguration \<Rightarrow> string \<Rightarrow> string \<Rightarrow> LockConfiguration \<Rightarrow> (kv_req, string asl option) prog" where
  "Kv_confirm c key token config =
     (if kv_confirmWrite c
      then Kv_read key (\<lambda>confirmed. case confirmed of
          None \<Rightarrow> Ret None
        | Some r \<Rightarrow> if kl_token r \<noteq> token then Ret None else Ret (Some (new_asl config token)))
      else Ret (Some (new_asl config token)))"

definition CloudflareKv_lock ::
  "string \<Rightarrow> string option \<Rightarrow> CloudflareKvConfiguration \<Rightarrow> LockConfiguration \<Rightarrow> (kv_req, string asl option) prog" where
  "CloudflareKv_lock hostname uuid c config =
     sync (Kv_storageKey c (cfg_name config)) (\<lambda>key. Now (\<lambda>now.
       Kv_read key (\<lambda>existing.
         if (case existing of None \<Rightarrow> False | Some r \<Rightarrow> js_lt now (kl_lockUntil r)) then Ret None
         else sync (Kv_newToken uuid) (\<lambda>token.
           Kv_write key \<lparr>kl_lockUntil = lockAtMostUntil config, kl_lockedAt = createdAt config,
                         kl_lockedBy = hostname, kl_token = token\<rparr> now
             (Kv_confirm c key token config)))))"

definition CloudflareKv_unlock :: "CloudflareKvConfiguration \<Rightarrow> LockConfiguration \<Rightarrow> string \<Rightarrow> (kv_req, unit) prog" where
  "CloudflareKv_unlock c config token =
     sync (Kv_storageKey c (cfg_name config)) (\<lambda>key.
       Kv_read key (\<lambda>existing. case existing of
           None \<Rightarrow> Ret ()
         | Some r \<Rightarrow> if kl_token r \<noteq> token then Ret ()
             else Now (\<lambda>t. let until = unlockTime t config in Now (\<lambda>now.
               if js_le until now then request (KvDelete key) (\<lambda>_. Ret ())
               else Kv_write key (r\<lparr>kl_lockUntil := until, kl_token := token\<rparr>) now (Ret ())))))"

definition CloudflareKv_extend ::
  "CloudflareKvConfiguration \<Rightarrow> LockConfiguration \<Rightarrow> string \<Rightarrow> (kv_req, string asl option) prog" where
  "CloudflareKv_extend c config token =
     sync (Kv_storageKey c (cfg_name config)) (\<lambda>key. Now (\<lambda>now.
       Kv_read key (\<lambda>existing. case existing of
           None \<Rightarrow> Ret None
         | Some r \<Rightarrow> if kl_token r \<noteq> token \<or> js_le (kl_lockUntil r) now then Ret None
             else Kv_write key (r\<lparr>kl_lockUntil := lockAtMostUntil config, kl_token := token\<rparr>) now
               (Kv_confirm c key token config))))"

definition CloudflareKvLock_doUnlock :: "CloudflareKvConfiguration \<Rightarrow> string asl \<Rightarrow> (kv_req, unit) prog" where
  "CloudflareKvLock_doUnlock c l = CloudflareKv_unlock c (asl_config l) (asl_data l)"

definition CloudflareKvLock_doExtend ::
  "CloudflareKvConfiguration \<Rightarrow> string asl \<Rightarrow> LockConfiguration \<Rightarrow> (kv_req, string asl option) prog" where
  "CloudflareKvLock_doExtend c l newConfig = CloudflareKv_extend c newConfig (asl_data l)"

section \<open>The REST namespace (cloudflare-kv-namespace.ts)\<close>

text \<open>
  \<open>RestFetch url params method headers body\<close>: the URL is the string it is made from and the search parameters set on it (parsing
  by \<open>new URL\<close> is not modelled); \<open>RestText\<close> is \<open>response.text()\<close>, \<open>RestCancel\<close> is \<open>response.body?.cancel()\<close>.
\<close>

datatype rest_req =
    RestFetch string "(string \<times> string) list" string "(string \<times> string) list" "string option"
  | RestText jsv
  | RestCancel jsv

record CloudflareKvRest =
  rest_apiToken :: string
  rest_valuesPrefix :: string

definition requireId :: "jsv \<Rightarrow> string \<Rightarrow> jsv + string" where
  "requireId v label = (case v of
     JStr s \<Rightarrow> if js_trim s = [] then Inl (LockException (label @ '' must be a non-empty string'')) else Inr (js_trim s)
   | _ \<Rightarrow> Inl (LockException (label @ '' must be a non-empty string'')))"

definition hex_upper :: "nat \<Rightarrow> char" where
  "hex_upper n = (if n < 10 then char_of (48 + n) else char_of (55 + n))"

definition percent :: "nat \<Rightarrow> string" where
  "percent n = [CHR ''%'', hex_upper (n div 16), hex_upper (n mod 16)]"

text \<open>\<open>encodeURIComponent\<close> on the Latin-1 range: unreserved characters stay, others are percent-encoded as UTF-8.\<close>

definition encodeURIComponent :: "string \<Rightarrow> string" where
  "encodeURIComponent s = concat (map (\<lambda>c. let n = (of_char c :: nat) in
     if 48 \<le> n \<and> n \<le> 57 \<or> 65 \<le> n \<and> n \<le> 90 \<or> 97 \<le> n \<and> n \<le> 122 \<or> c \<in> set ''-_.!~*()'' \<or> n = 39 then [c]
     else if n < 128 then percent n else percent (192 + n div 64) @ percent (128 + n mod 64)) s)"

definition strip_slash :: "string \<Rightarrow> string" where
  "strip_slash s = (if s \<noteq> [] \<and> last s = CHR ''/'' then butlast s else s)"

definition createCloudflareKvRestNamespace :: "jsv \<Rightarrow> jsv \<Rightarrow> jsv \<Rightarrow> string option \<Rightarrow> jsv + CloudflareKvRest" where
  "createCloudflareKvRestNamespace accountId namespaceId apiToken apiBase =
     (case requireId accountId ''accountId'' of Inl e \<Rightarrow> Inl e | Inr account \<Rightarrow>
     (case requireId namespaceId ''namespaceId'' of Inl e \<Rightarrow> Inl e | Inr namespace \<Rightarrow>
     (case requireId apiToken ''apiToken'' of Inl e \<Rightarrow> Inl e | Inr token \<Rightarrow>
       Inr \<lparr>rest_apiToken = token,
            rest_valuesPrefix =
              strip_slash (case apiBase of None \<Rightarrow> ''https://api.cloudflare.com/client/v4'' | Some b \<Rightarrow> b) @
              ''/accounts/'' @ encodeURIComponent account @ ''/storage/kv/namespaces/'' @
              encodeURIComponent namespace @ ''/values/''\<rparr>)))"

definition keyUrl :: "CloudflareKvRest \<Rightarrow> string \<Rightarrow> string" where
  "keyUrl c key = rest_valuesPrefix c @ encodeURIComponent key"

definition rest_auth :: "CloudflareKvRest \<Rightarrow> string \<times> string" where
  "rest_auth c = (''Authorization'', ''Bearer '' @ rest_apiToken c)"

definition httpError :: "string \<Rightarrow> jsv \<Rightarrow> (rest_req, 'a) prog" where
  "httpError method response =
     (let fail = (\<lambda>detail. Raise (LockException (''Cloudflare KV '' @ method @ '' failed with HTTP '' @
            js_String (jget response ''status'') @ (if detail = [] then [] else '': '' @ detail))))
      in try_request (RestText response) (\<lambda>t. fail (take 300 (js_String t))) (\<lambda>_. fail []))"

definition release :: "jsv \<Rightarrow> 'a \<Rightarrow> (rest_req, 'a) prog" where
  "release response a = request (RestCancel response) (\<lambda>_. Ret a)"

definition rest_get :: "CloudflareKvRest \<Rightarrow> string \<Rightarrow> (rest_req, jsv) prog" where
  "rest_get c key = request (RestFetch (keyUrl c key) [] ''GET'' [rest_auth c] None) (\<lambda>response.
     if strict_eq (jget response ''status'') (JNum (Fin 404)) then release response JNull
     else if \<not> truthy (jget response ''ok'') then httpError ''GET'' response
     else request (RestText response) Ret)"

definition rest_put :: "CloudflareKvRest \<Rightarrow> string \<Rightarrow> string \<Rightarrow> jsnum option \<Rightarrow> jsnum option \<Rightarrow> (rest_req, unit) prog" where
  "rest_put c key v expirationTtl expiration =
     request (RestFetch (keyUrl c key)
        ((case expirationTtl of None \<Rightarrow> [] | Some t \<Rightarrow> [(''expiration_ttl'', js_show t)]) @
         (case expiration of None \<Rightarrow> [] | Some t \<Rightarrow> [(''expiration'', js_show t)]))
        ''PUT'' [rest_auth c, (''Content-Type'', ''text/plain'')] (Some v)) (\<lambda>response.
       if \<not> truthy (jget response ''ok'') then httpError ''PUT'' response else release response ())"

definition rest_delete :: "CloudflareKvRest \<Rightarrow> string \<Rightarrow> (rest_req, unit) prog" where
  "rest_delete c key = request (RestFetch (keyUrl c key) [] ''DELETE'' [rest_auth c] None) (\<lambda>response.
     if strict_eq (jget response ''status'') (JNum (Fin 404)) then release response ()
     else if \<not> truthy (jget response ''ok'') then httpError ''DELETE'' response
     else release response ())"

section \<open>Properties\<close>

lemma trunc_int_floor: "(of_int t :: rat) = of_int \<lfloor>of_int t :: rat\<rfloor>"
  by simp

lemma Kv_flat:
  assumes "\<bar>of_int a :: rat\<bar> < 2 ^ 1024 - 2 ^ 970" "\<bar>of_int b :: rat\<bar> < 2 ^ 1024 - 2 ^ 970"
  shows "flat [(''lockUntil'', JNum (Fin (of_int a))), (''lockedAt'', JNum (Fin (of_int b))),
    (''lockedBy'', JStr s), (''token'', JStr t)]"
  unfolding flat_simps flat_value_simps using assms by (intro conjI) simp_all

text \<open>
  C27: A KV record survives storage: for integer timestamps in the range of the numbers, a host name and a token that are
  not empty, whatever characters they contain, decoding the encoded text gives the record back.
\<close>

theorem Kv_record_roundtrip:
  assumes "kl_lockUntil r = Fin (of_int a)" "kl_lockedAt r = Fin (of_int b)"
    and "\<bar>of_int a :: rat\<bar> < 2 ^ 1024 - 2 ^ 970" "\<bar>of_int b :: rat\<bar> < 2 ^ 1024 - 2 ^ 970"
    and "kl_lockedBy r \<noteq> []" "kl_token r \<noteq> []"
  shows "Kv_decodeLockRecord (Kv_encodeLockRecord r) = Inr r"
proof -
  let ?ps = "[(''lockUntil'', JNum (Fin (of_int a))), (''lockedAt'', JNum (Fin (of_int b))),
    (''lockedBy'', JStr (kl_lockedBy r)), (''token'', JStr (kl_token r))]"
  have "JSON_parse (json (obj ?ps)) = Inr (obj ?ps)"
    by (rule JSON_parse_json [OF Kv_flat [OF assms(3,4)]]) simp_all
  then have "JSON_parse (Kv_encodeLockRecord r) = Inr (obj ?ps)"
    unfolding Kv_encodeLockRecord_def assms(1,2) .
  then show ?thesis
    using assms(1,2,5,6) by (simp add: Kv_decodeLockRecord_def isRecord_def isFiniteNumber_def Let_def)
qed

theorem Kv_record_roundtrip_witness:
  "Kv_decodeLockRecord (Kv_encodeLockRecord
     \<lparr>kl_lockUntil = Fin 1700000000000, kl_lockedAt = Fin (- 1), kl_lockedBy = [CHR 0x22, CHR 0x5C], kl_token = ''t''\<rparr>) =
   Inr \<lparr>kl_lockUntil = Fin 1700000000000, kl_lockedAt = Fin (- 1), kl_lockedBy = [CHR 0x22, CHR 0x5C], kl_token = ''t''\<rparr>"
  by (rule Kv_record_roundtrip [where a = 1700000000000 and b = "- 1"]) simp_all

lemma floor_seconds:
  fixes x :: rat
  assumes "0 \<le> x"
  shows "0 \<le> \<lfloor>x / 1000\<rfloor>" "1000 * of_int \<lfloor>x / 1000\<rfloor> \<le> x" "x < 1000 * (of_int \<lfloor>x / 1000\<rfloor> + 1)"
proof -
  show "0 \<le> \<lfloor>x / 1000\<rfloor>" using assms by simp
  show "1000 * of_int \<lfloor>x / 1000\<rfloor> \<le> x" using of_int_floor_le [of "x / 1000"] by linarith
  show "x < 1000 * (of_int \<lfloor>x / 1000\<rfloor> + 1)" using floor_correct [of "x / 1000"] by (simp add: field_simps)
qed

text \<open>
  C28: The time to live of a KV record is a whole number of seconds, at least the 60 the service asks for; the entry outlives the
  deadline, and by at most a second when the deadline is a minute away or more.
\<close>

theorem Kv_ttl_bounds:
  assumes "lockUntil = Fin u" "now = Fin n"
  shows "\<exists>s :: int. kvExpirationTtlSeconds lockUntil now = Fin (of_int s) \<and> 60 \<le> s \<and> u < n + 1000 * of_int s \<and>
    (n + 60000 \<le> u \<longrightarrow> n + 1000 * of_int s \<le> u + 1000)"
proof -
  define x where "x = max 0 (u - n)"
  define k where "k = \<lfloor>x / 1000\<rfloor>"
  have k: "0 \<le> k" "1000 * of_int k \<le> x" "x < 1000 * (of_int k + 1)"
    using floor_seconds [of x] by (simp_all add: x_def k_def)
  have e: "kvExpirationTtlSeconds lockUntil now = Fin (of_int (max 60 (k + 1)))"
    by (simp add: kvExpirationTtlSeconds_def CLOUDFLARE_KV_MIN_EXPIRATION_TTL_SECONDS_def assms Let_def k_def x_def)
  have m: "of_int k + 1 \<le> (of_int (max 60 (k + 1)) :: rat)" by (simp only: of_int_max of_int_add of_int_1)
  have "u - n \<le> x" by (simp add: x_def)
  moreover have "1000 * (of_int k + 1) \<le> 1000 * (of_int (max 60 (k + 1)) :: rat)" by (rule mult_left_mono [OF m]) simp
  ultimately have out: "u < n + 1000 * of_int (max 60 (k + 1))" using k(3) by linarith
  have "n + 1000 * of_int (max 60 (k + 1)) \<le> u + 1000" if "n + 60000 \<le> u"
  proof -
    have x: "x = u - n" using that by (simp add: x_def)
    with k(3) that have "60000 < 1000 * of_int k + (1000::rat)" by (simp add: algebra_simps)
    then have "(of_int 60000 :: rat) < of_int (1000 * k + 1000)" by simp
    then have "60000 < 1000 * k + 1000" by (rule of_int_less_iff [THEN iffD1])
    then have "60 \<le> k" by simp
    then show ?thesis using k(2) x by simp
  qed
  then show ?thesis using e out by (intro exI [of _ "max 60 (k + 1)"]) simp
qed

theorem Kv_ttl_bounds_witness:
  "\<exists>s :: int. kvExpirationTtlSeconds (Fin 100500) (Fin 0) = Fin (of_int s) \<and> 60 \<le> s \<and> (100500::rat) < 0 + 1000 * of_int s \<and>
    (0 + (60000::rat) \<le> 100500 \<longrightarrow> 0 + 1000 * of_int s \<le> (100500::rat) + 1000)"
  by (rule Kv_ttl_bounds [OF refl refl])

end
