(* ===== verification/CloudfrontKvs.thy ===== *)
theory CloudfrontKvs
  imports SimpleLock JsonParse
begin

text \<open>
  packages/cloudfront-kvs/src: locks in a CloudFront key value store.  The store has one ETag; every attempt reads it, reads the
  record, and writes under the condition that the ETag is still the one read.  A conflict starts the next attempt,
  up to \<open>maxEtagRetries\<close>.  The client of the service is the handler of \<open>kvs_req\<close>.
\<close>

section \<open>Options and errors (cloudfront-kvs-configuration.ts, cloudfront-kvs-errors.ts)\<close>

record CloudFrontKvsConfiguration =
  kvs_arn :: string
  kvs_keyPrefix :: string
  kvs_maxEtagRetries :: nat

definition is_positive_integer :: "jsv \<Rightarrow> nat option" where
  "is_positive_integer v = (case v of
     JNum (Fin r) \<Rightarrow> if r = of_int \<lfloor>r\<rfloor> \<and> 1 \<le> r then Some (nat \<lfloor>r\<rfloor>) else None
   | _ \<Rightarrow> None)"

definition resolveCloudFrontKvsConfiguration :: "jsv \<Rightarrow> jsv \<Rightarrow> jsv \<Rightarrow> jsv \<Rightarrow> jsv + CloudFrontKvsConfiguration" where
  "resolveCloudFrontKvsConfiguration client kvsArn prefix maxRetries =
     (if \<not> truthy client then Inl (LockException ''CloudFront KeyValueStore client is required'')
      else if \<not> is_string kvsArn \<or> js_trim (str_of kvsArn) = [] then Inl (LockException ''kvsArn must be a non-empty string'')
      else (case nullish prefix (JStr ''tslock/'') of
          JStr keyPrefix \<Rightarrow>
            if char_of (0::nat) \<in> set keyPrefix then Inl (LockException ''keyPrefix must be a string without control NUL characters'')
            else if utf8_length (code_points keyPrefix) > 256 then Inl (LockException ''keyPrefix must be at most 256 UTF-8 bytes'')
            else (case is_positive_integer (nullish maxRetries (JNum (Fin 3))) of
                None \<Rightarrow> Inl (LockException ''maxEtagRetries must be an integer >= 1'')
              | Some n \<Rightarrow> Inr \<lparr>kvs_arn = js_trim (str_of kvsArn), kvs_keyPrefix = keyPrefix, kvs_maxEtagRetries = n\<rparr>)
        | _ \<Rightarrow> Inl (LockException ''keyPrefix must be a string without control NUL characters'')))"

definition Kvs_getErrorName :: "jsv \<Rightarrow> jsv" where
  "Kvs_getErrorName e = (if is_object e then jget e ''name'' else JUndef)"

definition Kvs_getStatusCode :: "jsv \<Rightarrow> jsv" where
  "Kvs_getStatusCode e = (if is_object e then jget (jget e ''$metadata'') ''httpStatusCode'' else JUndef)"

definition Kvs_isConflict :: "jsv \<Rightarrow> bool" where
  "Kvs_isConflict e \<longleftrightarrow> Kvs_getErrorName e \<in> {JStr ''ConflictException'', JStr ''Conflict''} \<or>
     strict_eq (Kvs_getStatusCode e) (JNum (Fin 409))"

definition Kvs_isNotFound :: "jsv \<Rightarrow> bool" where
  "Kvs_isNotFound e \<longleftrightarrow> Kvs_getErrorName e \<in> {JStr ''ResourceNotFoundException'', JStr ''NotFound''} \<or>
     strict_eq (Kvs_getStatusCode e) (JNum (Fin 404))"

section \<open>Records (lock-record.ts)\<close>

record CloudFrontKvsLockRecord =
  cf_lockUntil :: string
  cf_lockedAt :: string
  cf_lockedBy :: string

definition Kvs_encodeLockRecord :: "CloudFrontKvsLockRecord \<Rightarrow> string" where
  "Kvs_encodeLockRecord r = json (obj
     [(''lockUntil'', JStr (cf_lockUntil r)), (''lockedAt'', JStr (cf_lockedAt r)), (''lockedBy'', JStr (cf_lockedBy r))])"

definition Kvs_decodeLockRecord :: "string \<Rightarrow> jsv + CloudFrontKvsLockRecord" where
  "Kvs_decodeLockRecord raw = (case JSON_parse raw of
     Inl _ \<Rightarrow> Inl (LockException ''Corrupted lock record: invalid JSON'')
   | Inr parsed \<Rightarrow>
      if \<not> is_object parsed then Inl (LockException ''Corrupted lock record: expected object'')
      else (case (jget parsed ''lockUntil'', jget parsed ''lockedAt'', jget parsed ''lockedBy'') of
          (JStr lockUntil, JStr lockedAt, JStr lockedBy) \<Rightarrow>
            if Date_parse lockUntil = NaN \<or> Date_parse lockedAt = NaN
            then Inl (LockException ''Corrupted lock record: unparseable timestamps'')
            else Inr \<lparr>cf_lockUntil = lockUntil, cf_lockedAt = lockedAt, cf_lockedBy = lockedBy\<rparr>
        | _ \<Rightarrow> Inl (LockException ''Corrupted lock record: missing lockUntil, lockedAt, or lockedBy'')))"

definition Kvs_buildLockRecord :: "jsnum \<Rightarrow> jsnum \<Rightarrow> string \<Rightarrow> jsv + CloudFrontKvsLockRecord" where
  "Kvs_buildLockRecord lockUntilMs lockedAtMs lockedBy =
     (case Utils_toIsoString lockUntilMs of Inl e \<Rightarrow> Inl e | Inr u \<Rightarrow>
     (case Utils_toIsoString lockedAtMs of Inl e \<Rightarrow> Inl e | Inr a \<Rightarrow>
        Inr \<lparr>cf_lockUntil = u, cf_lockedAt = a, cf_lockedBy = lockedBy\<rparr>))"

definition parseLockUntilMs :: "CloudFrontKvsLockRecord \<Rightarrow> jsnum" where
  "parseLockUntilMs r = Date_parse (cf_lockUntil r)"

section \<open>The provider (cloudfront-kvs-lock-provider.ts, cloudfront-kvs-lock.ts)\<close>

text \<open>The commands, each with the ARN of the store.\<close>

datatype kvs_req =
    DescribeKeyValueStore string
  | GetKey string string
  | PutKey string string string jsv

definition Kvs_storageKey :: "CloudFrontKvsConfiguration \<Rightarrow> string \<Rightarrow> jsv + string" where
  "Kvs_storageKey c name =
     (let key = kvs_keyPrefix c @ name in
      if utf8_length (code_points key) > 512
      then Inl (LockException (''Lock storage key exceeds CloudFront KVS 512-byte limit: '' @ show_nat (length key) @ '' chars''))
      else if length key < 1 then Inl (LockException ''Lock storage key must be non-empty'')
      else Inr key)"

definition Kvs_describeEtag :: "CloudFrontKvsConfiguration \<Rightarrow> (jsv \<Rightarrow> (kvs_req, 'a) prog) \<Rightarrow> (kvs_req, 'a) prog" where
  "Kvs_describeEtag c f = request (DescribeKeyValueStore (kvs_arn c)) (\<lambda>out.
     sync (prop_of out ''ETag'') (\<lambda>etag.
       if \<not> truthy etag then Raise (LockException ''DescribeKeyValueStore returned no ETag'') else f etag))"

definition Kvs_getRecord :: "CloudFrontKvsConfiguration \<Rightarrow> string \<Rightarrow> (kvs_req, CloudFrontKvsLockRecord option) prog" where
  "Kvs_getRecord c name =
     catching
       (sync (Kvs_storageKey c name) (\<lambda>key. request (GetKey (kvs_arn c) key) (\<lambda>out.
          sync (prop_of out ''Value'') (\<lambda>v.
            if v = JUndef \<or> v = JNull then Ret None
            else sync (Kvs_decodeLockRecord (js_String v)) (\<lambda>r. Ret (Some r))))))
       (\<lambda>e. if Kvs_isNotFound e then Ret None else Raise e)"

definition Kvs_putRecord :: "CloudFrontKvsConfiguration \<Rightarrow> string \<Rightarrow> CloudFrontKvsLockRecord \<Rightarrow> jsv \<Rightarrow> (kvs_req, unit) prog" where
  "Kvs_putRecord c name r etag =
     sync (Kvs_storageKey c name) (\<lambda>key. request (PutKey (kvs_arn c) key (Kvs_encodeLockRecord r) etag) (\<lambda>_. Ret ()))"

text \<open>
  One attempt settles with the result of the method, or with \<open>None\<close> to go on; \<open>kvs_attempts\<close> is the \<open>for\<close> loop over the
  attempts, from \<open>attempt\<close> on.  The end of an attempt: write, and go on after a conflict.
\<close>

definition Kvs_put_or_continue ::
  "CloudFrontKvsConfiguration \<Rightarrow> string \<Rightarrow> CloudFrontKvsLockRecord \<Rightarrow> jsv \<Rightarrow> 'a \<Rightarrow> (kvs_req, 'a option) prog" where
  "Kvs_put_or_continue c name r etag a =
     catching (await (Kvs_putRecord c name r etag) (\<lambda>_. Ret (Some a)))
       (\<lambda>e. if Kvs_isConflict e then Ret None else Raise e)"

function kvs_attempts :: "nat \<Rightarrow> nat \<Rightarrow> (kvs_req, 'a option) prog \<Rightarrow> 'a \<Rightarrow> (kvs_req, 'a) prog" where
  "kvs_attempts attempt maxEtagRetries body exhausted =
     (if attempt < maxEtagRetries
      then await body (\<lambda>r. case r of
          Some a \<Rightarrow> Ret a
        | None \<Rightarrow> kvs_attempts (attempt + 1) maxEtagRetries body exhausted)
      else Ret exhausted)"
  by pat_completeness auto
termination by (relation "measure (\<lambda>(attempt, maxEtagRetries, _, _). maxEtagRetries - attempt)") auto

declare kvs_attempts.simps [simp del]

definition Kvs_lock_attempt ::
  "string \<Rightarrow> CloudFrontKvsConfiguration \<Rightarrow> LockConfiguration \<Rightarrow> (kvs_req, unit asl option option) prog" where
  "Kvs_lock_attempt hostname c config =
     Kvs_describeEtag c (\<lambda>etag. await (Kvs_getRecord c (cfg_name config)) (\<lambda>existing. Now (\<lambda>now.
       if (case existing of None \<Rightarrow> False | Some r \<Rightarrow> js_lt now (parseLockUntilMs r)) then Ret (Some None)
       else sync (Kvs_buildLockRecord (lockAtMostUntil config) (createdAt config) hostname) (\<lambda>record'.
         Kvs_put_or_continue c (cfg_name config) record' etag (Some (new_asl config ()))))))"

definition Kvs_lock :: "string \<Rightarrow> CloudFrontKvsConfiguration \<Rightarrow> LockConfiguration \<Rightarrow> (kvs_req, unit asl option) prog" where
  "Kvs_lock hostname c config = kvs_attempts 0 (kvs_maxEtagRetries c) (Kvs_lock_attempt hostname c config) None"

text \<open>\<open>Date.parse(existing.lockedAt) || config.createdAt\<close>.\<close>

definition Kvs_lockedAt :: "CloudFrontKvsLockRecord \<Rightarrow> LockConfiguration \<Rightarrow> jsnum" where
  "Kvs_lockedAt r config =
     (if truthy (JNum (Date_parse (cf_lockedAt r))) then Date_parse (cf_lockedAt r) else createdAt config)"

definition Kvs_unlock_attempt ::
  "string \<Rightarrow> CloudFrontKvsConfiguration \<Rightarrow> LockConfiguration \<Rightarrow> (kvs_req, unit option) prog" where
  "Kvs_unlock_attempt hostname c config =
     Kvs_describeEtag c (\<lambda>etag. await (Kvs_getRecord c (cfg_name config)) (\<lambda>existing. case existing of
         None \<Rightarrow> Ret (Some ())
       | Some r \<Rightarrow> if cf_lockedBy r \<noteq> hostname then Ret (Some ())
           else sync (Utils_toIsoString (lockAtMostUntil config)) (\<lambda>mine.
             if cf_lockUntil r \<noteq> mine then Ret (Some ())
             else Now (\<lambda>now. sync (Kvs_buildLockRecord (unlockTime now config) (Kvs_lockedAt r config) (cf_lockedBy r)) (\<lambda>record'.
               Kvs_put_or_continue c (cfg_name config) record' etag ())))))"

definition Kvs_unlock :: "string \<Rightarrow> CloudFrontKvsConfiguration \<Rightarrow> LockConfiguration \<Rightarrow> (kvs_req, unit) prog" where
  "Kvs_unlock hostname c config = kvs_attempts 0 (kvs_maxEtagRetries c) (Kvs_unlock_attempt hostname c config) ()"

text \<open>\<open>Kvs_previous_matches\<close>: the comparison with the previous deadline, which may throw; true when none is given.\<close>

definition Kvs_previous_matches :: "CloudFrontKvsLockRecord \<Rightarrow> jsnum option \<Rightarrow> jsv + bool" where
  "Kvs_previous_matches r previousLockAtMostUntil = (case previousLockAtMostUntil of
     None \<Rightarrow> Inr True
   | Some p \<Rightarrow> (case Utils_toIsoString p of Inl e \<Rightarrow> Inl e | Inr s \<Rightarrow> Inr (cf_lockUntil r = s)))"

definition Kvs_extend_attempt ::
  "string \<Rightarrow> CloudFrontKvsConfiguration \<Rightarrow> LockConfiguration \<Rightarrow> jsnum option \<Rightarrow> (kvs_req, unit asl option option) prog" where
  "Kvs_extend_attempt hostname c config previousLockAtMostUntil =
     Kvs_describeEtag c (\<lambda>etag. await (Kvs_getRecord c (cfg_name config)) (\<lambda>existing. case existing of
         None \<Rightarrow> Ret (Some None)
       | Some r \<Rightarrow> if cf_lockedBy r \<noteq> hostname then Ret (Some None)
           else Now (\<lambda>now. if js_le (parseLockUntilMs r) now then Ret (Some None)
             else sync (Kvs_previous_matches r previousLockAtMostUntil) (\<lambda>same.
               if \<not> same then Ret (Some None)
               else sync (Kvs_buildLockRecord (lockAtMostUntil config) (Kvs_lockedAt r config) hostname) (\<lambda>record'.
                 Kvs_put_or_continue c (cfg_name config) record' etag (Some (new_asl config ())))))))"

definition Kvs_extend ::
  "string \<Rightarrow> CloudFrontKvsConfiguration \<Rightarrow> LockConfiguration \<Rightarrow> jsnum option \<Rightarrow> (kvs_req, unit asl option) prog" where
  "Kvs_extend hostname c config previousLockAtMostUntil =
     kvs_attempts 0 (kvs_maxEtagRetries c) (Kvs_extend_attempt hostname c config previousLockAtMostUntil) None"

definition CloudFrontKvsLock_doUnlock :: "string \<Rightarrow> CloudFrontKvsConfiguration \<Rightarrow> unit asl \<Rightarrow> (kvs_req, unit) prog" where
  "CloudFrontKvsLock_doUnlock hostname c l = Kvs_unlock hostname c (asl_config l)"

definition CloudFrontKvsLock_doExtend ::
  "string \<Rightarrow> CloudFrontKvsConfiguration \<Rightarrow> unit asl \<Rightarrow> LockConfiguration \<Rightarrow> (kvs_req, unit asl option) prog" where
  "CloudFrontKvsLock_doExtend hostname c l newConfig = Kvs_extend hostname c newConfig (Some (lockAtMostUntil (asl_config l)))"

section \<open>Bounded work\<close>

text \<open>The number of requests a run sends.\<close>

primrec requests_sent :: "('q, 's) handler \<Rightarrow> ('q, 'a) prog \<Rightarrow> 's world \<Rightarrow> nat" where
  "requests_sent h (Ret a) = (\<lambda>w. 0)"
| "requests_sent h (Raise e) = (\<lambda>w. 0)"
| "requests_sent h (Now k) = (\<lambda>w. requests_sent h (k (ClockProvider_now w)) w)"
| "requests_sent h (Call q k) = (\<lambda>w. case h q w of (r, w') \<Rightarrow> Suc (requests_sent h (k r) w'))"

lemma sent_pbind:
  "requests_sent h (pbind p f) w = (case run h p w of (r, w') \<Rightarrow> requests_sent h p w + requests_sent h (f r) w')"
  by (induction p arbitrary: w) (auto split: prod.splits)

lemma sent_await:
  "requests_sent h (await p f) w = requests_sent h p w +
     (case run h p w of (Inl e, w') \<Rightarrow> 0 | (Inr a, w') \<Rightarrow> requests_sent h (f a) w')"
  by (auto simp: await_def sent_pbind split: prod.splits sum.splits)

lemma sent_sync: "requests_sent h (sync r f) w = (case r of Inl e \<Rightarrow> 0 | Inr a \<Rightarrow> requests_sent h (f a) w)"
  by (auto simp: sync_def split: sum.splits)

lemma sent_request:
  "requests_sent h (request q f) w = Suc (case h q w of (Inl e, w') \<Rightarrow> 0 | (Inr v, w') \<Rightarrow> requests_sent h (f v) w')"
  by (auto simp: request_def split: prod.splits sum.splits)

lemma sent_catching:
  "requests_sent h (catching p g) w = requests_sent h p w +
     (case run h p w of (Inl e, w') \<Rightarrow> requests_sent h (g e) w' | (Inr a, w') \<Rightarrow> 0)"
  by (auto simp: catching_def sent_pbind split: prod.splits sum.splits)

lemmas sent_simps = sent_await sent_sync sent_request sent_catching

lemma sent_getRecord: "requests_sent h (Kvs_getRecord c n) w \<le> 1"
  by (auto simp: Kvs_getRecord_def sent_simps split: prod.splits sum.splits)

lemma sent_put: "requests_sent h (Kvs_put_or_continue c n r e a) w \<le> 1"
  by (auto simp: Kvs_put_or_continue_def Kvs_putRecord_def sent_simps split: prod.splits sum.splits)

lemma sent_describe:
  assumes "\<And>e w. requests_sent h (f e) w \<le> n"
  shows "requests_sent h (Kvs_describeEtag c f) w \<le> Suc n"
  using assms by (auto simp: Kvs_describeEtag_def sent_simps split: prod.splits sum.splits)

lemma sent_after_get:
  assumes "\<And>x w. requests_sent h (f x) w \<le> 1"
  shows "requests_sent h (await (Kvs_getRecord c n) f) w \<le> 2"
proof -
  have "requests_sent h (Kvs_getRecord c n) w + requests_sent h (f x) w' \<le> 2" for x w'
    using sent_getRecord [of h c n w] assms [of x w'] by linarith
  then show ?thesis unfolding sent_await using sent_getRecord [of h c n w] by (auto split: prod.splits sum.splits)
qed

lemma sent_attempts:
  assumes "\<And>w. requests_sent h body w \<le> k"
  shows "requests_sent h (kvs_attempts i m body d) w \<le> k * (m - i)"
proof (induction "m - i" arbitrary: i w)
  case 0
  then show ?case by (simp add: kvs_attempts.simps)
next
  case (Suc n)
  have "requests_sent h (kvs_attempts (i + 1) m body d) w' \<le> k * (m - (i + 1))" for w' by (rule Suc.hyps(1)) (use Suc.hyps(2) in simp)
  moreover have "k * (m - i) = k + k * (m - (i + 1))"
  proof -
    have "m - i = Suc (m - (i + 1))" using Suc.hyps(2) by linarith
    then show ?thesis by (metis mult_Suc_right)
  qed
  ultimately show ?case
    using assms [of w] Suc.hyps(2)
    by (subst kvs_attempts.simps) (auto simp: sent_await split: prod.splits sum.splits option.splits intro: add_mono trans_le_add1)
qed

lemma sent_build_put:
  "requests_sent h (sync r (\<lambda>record'. Kvs_put_or_continue c n record' e a)) w \<le> 1"
  by (auto simp: sent_sync sent_put [simplified] split: sum.splits)

lemma sent_lock_attempt: "requests_sent h (Kvs_lock_attempt hostname c config) w \<le> 3"
  unfolding Kvs_lock_attempt_def numeral_3_eq_3
  by (intro sent_describe sent_after_get [unfolded numeral_2_eq_2]) (simp add: sent_build_put [simplified])

lemma sent_unlock_attempt: "requests_sent h (Kvs_unlock_attempt hostname c config) w \<le> 3"
  unfolding Kvs_unlock_attempt_def numeral_3_eq_3
  by (intro sent_describe sent_after_get [unfolded numeral_2_eq_2])
    (auto simp: sent_sync sent_put [simplified] split: option.splits sum.splits)

lemma sent_extend_attempt: "requests_sent h (Kvs_extend_attempt hostname c config p) w \<le> 3"
  unfolding Kvs_extend_attempt_def numeral_3_eq_3
  by (intro sent_describe sent_after_get [unfolded numeral_2_eq_2])
    (auto simp: sent_sync sent_put [simplified] split: option.splits sum.splits)

text \<open>
  C29: The retry loops end: whatever the store answers and however often a write conflicts, lock, unlock and extend settle after at
  most \<open>maxEtagRetries\<close> attempts of three requests each.
\<close>

theorem Kvs_retries_bounded:
  "requests_sent h (Kvs_lock hostname c config) w \<le> 3 * kvs_maxEtagRetries c \<and>
   requests_sent h (Kvs_unlock hostname c config) w \<le> 3 * kvs_maxEtagRetries c \<and>
   requests_sent h (Kvs_extend hostname c config previous) w \<le> 3 * kvs_maxEtagRetries c"
  unfolding Kvs_lock_def Kvs_unlock_def Kvs_extend_def
  using sent_attempts [OF sent_lock_attempt, where i = 0] sent_attempts [OF sent_unlock_attempt, where i = 0]
    sent_attempts [OF sent_extend_attempt, where i = 0]
  by (metis diff_zero)

end
