(* ===== verification/Scheduler.thy ===== *)
theory Scheduler
  imports Executor Json
begin

text \<open>
  packages/scheduler-core, node-cron, bree, aws-lambda and nestjs: jobs that a scheduler starts, each run under a lock of its name.
  The task executor is an \<open>executor\<close> of theory Executor (its provider and listener are the \<open>lockProvider\<close> and \<open>listener\<close> of
  the configuration); the schedulers themselves are not in the repository.
\<close>

section \<open>scheduler-core\<close>

record ResolvedSchedulerLockConfig =
  defaultLockAtMostFor :: jsnum
  defaultLockAtLeastFor :: jsnum

text \<open>\<open>undefined\<close> durations are \<open>None\<close>.\<close>

record JobLockOptions =
  job_name :: jsv
  job_lockAtMostFor :: "DurationInput option"
  job_lockAtLeastFor :: "DurationInput option"

text \<open>The checks of the three configurations of this kind differ in the words of their first two errors.\<close>

definition resolve_defaults ::
  "string \<Rightarrow> string \<Rightarrow> bool \<Rightarrow> DurationInput option \<Rightarrow> DurationInput option \<Rightarrow> jsv + ResolvedSchedulerLockConfig" where
  "resolve_defaults no_provider no_most hasLock most least =
     (if \<not> hasLock then Inl (LockException no_provider)
      else (case most of
          None \<Rightarrow> Inl (LockException no_most)
        | Some d \<Rightarrow>
            (case parseDuration d of Inl e \<Rightarrow> Inl e | Inr m \<Rightarrow>
            (case parseDuration (case least of None \<Rightarrow> DNumber (Fin 0) | Some x \<Rightarrow> x) of Inl e \<Rightarrow> Inl e | Inr l \<Rightarrow>
              if js_lt m l then Inl (LockException ''defaultLockAtLeastFor must be <= defaultLockAtMostFor'')
              else Inr \<lparr>defaultLockAtMostFor = m, defaultLockAtLeastFor = l\<rparr>))))"


definition optional_duration :: "DurationInput option \<Rightarrow> jsv + jsnum option" where
  "optional_duration d = (case d of None \<Rightarrow> Inr None | Some x \<Rightarrow> (case parseDuration x of Inl e \<Rightarrow> Inl e | Inr n \<Rightarrow> Inr (Some n)))"

text \<open>The checks of a job, with the two messages that name its kind; \<open>None\<close> is a job that is no object.\<close>

definition validate_job :: "string \<Rightarrow> string \<Rightarrow> JobLockOptions option \<Rightarrow> jsv + unit" where
  "validate_job no_options no_name job = (case job of
     None \<Rightarrow> Inl (LockException no_options)
   | Some j \<Rightarrow> (case job_name j of
       JStr s \<Rightarrow> if s = [] then Inl (LockException no_name)
         else (case Utils_validateLockName (code_points s) of Inl e \<Rightarrow> Inl e | Inr _ \<Rightarrow>
              (case optional_duration (job_lockAtMostFor j) of Inl e \<Rightarrow> Inl e | Inr most \<Rightarrow>
              (case optional_duration (job_lockAtLeastFor j) of Inl e \<Rightarrow> Inl e | Inr least \<Rightarrow>
                (case (most, least) of
                   (Some m, Some l) \<Rightarrow> if js_lt m l then Inl (LockException ''lockAtLeastFor must be <= lockAtMostFor'') else Inr ()
                 | _ \<Rightarrow> Inr ()))))
     | _ \<Rightarrow> Inl (LockException no_name)))"

definition validateJobLockOptions :: "JobLockOptions option \<Rightarrow> jsv + unit" where
  "validateJobLockOptions = validate_job ''Job lock options are required'' ''Job lock name must be a non-empty string''"

text \<open>\<open>a ?? b\<close> on durations, and the configuration of one run at clock reading \<open>now\<close>.\<close>

definition duration_or :: "DurationInput option \<Rightarrow> jsnum \<Rightarrow> DurationInput" where
  "duration_or d n = (case d of None \<Rightarrow> DNumber n | Some x \<Rightarrow> x)"

definition clock_at :: "jsnum \<Rightarrow> unit world" where
  "clock_at now = \<lparr>w_date = now, w_clock = Some now, w_store = ()\<rparr>"

definition run_config :: "ResolvedSchedulerLockConfig \<Rightarrow> JobLockOptions \<Rightarrow> jsnum \<Rightarrow> jsv + LockConfiguration" where
  "run_config c job now = createLockConfig (job_name job)
     (duration_or (job_lockAtMostFor job) (defaultLockAtMostFor c))
     (Some (duration_or (job_lockAtLeastFor job) (defaultLockAtLeastFor c))) (clock_at now)"

text \<open>The value of a task that was executed, \<open>undefined\<close> (\<open>None\<close>) otherwise.\<close>

definition sched_runUnderLock ::
  "('q, 'l) executor \<Rightarrow> ResolvedSchedulerLockConfig \<Rightarrow> ('q, 'l, 'v) task \<Rightarrow> JobLockOptions \<Rightarrow> ('q, 'l, 'v option) task" where
  "sched_runUnderLock ex c task job ctx = Now (\<lambda>now. sync (run_config c job now) (\<lambda>lockConfig.
     await (executeWithLock ex task lockConfig ctx) (\<lambda>(result, ctx').
       Ret (map_sum id (\<lambda>r. if wasExecuted r then getResult r else None) result, ctx'))))"

text \<open>\<open>wrap\<close> and \<open>run\<close> check the job before anything else, synchronously.\<close>

definition sched_wrap ::
  "('q, 'l) executor \<Rightarrow> ResolvedSchedulerLockConfig \<Rightarrow> ('a \<Rightarrow> ('q, 'l, 'v) task) \<Rightarrow> JobLockOptions \<Rightarrow>
   jsv + ('a \<Rightarrow> ('q, 'l, 'v option) task)" where
  "sched_wrap ex c task job = (case validateJobLockOptions (Some job) of
     Inl e \<Rightarrow> Inl e | Inr _ \<Rightarrow> Inr (\<lambda>args. sched_runUnderLock ex c (task args) job))"

definition sched_run ::
  "('q, 'l) executor \<Rightarrow> ResolvedSchedulerLockConfig \<Rightarrow> ('q, 'l, 'v) task \<Rightarrow> JobLockOptions \<Rightarrow> jsv + ('q, 'l, 'v option) task" where
  "sched_run ex c task job = (case validateJobLockOptions (Some job) of
     Inl e \<Rightarrow> Inl e | Inr _ \<Rightarrow> Inr (sched_runUnderLock ex c task job))"

section \<open>node-cron: the run coordinator (node-cron-lock.ts)\<close>

text \<open>
  The coordinator keeps the locks of the runs under way by name.  \<open>shouldRun\<close> awaits the provider between \<open>shouldRun_begin\<close> and
  \<open>shouldRun_resume\<close>, \<open>onComplete\<close> awaits \<open>unlock\<close> between \<open>onComplete_begin\<close> and \<open>onComplete_resume\<close>.
\<close>

record coordinator_options =
  co_lockAtLeastFor :: jsnum
  co_keyPrefix :: string

definition createTslockRunCoordinator :: "DurationInput option \<Rightarrow> string option \<Rightarrow> jsv + coordinator_options" where
  "createTslockRunCoordinator least prefix =
     (case parseDuration (case least of None \<Rightarrow> DNumber (Fin 0) | Some d \<Rightarrow> d) of Inl e \<Rightarrow> Inl e
      | Inr l \<Rightarrow> Inr \<lparr>co_lockAtLeastFor = l, co_keyPrefix = (case prefix of None \<Rightarrow> [] | Some p \<Rightarrow> p)\<rparr>)"

definition shouldRun_begin ::
  "(LockConfiguration \<Rightarrow> ('q, 'l option) prog) \<Rightarrow> coordinator_options \<Rightarrow> string \<Rightarrow> jsnum \<Rightarrow> ('q, 'l option) prog" where
  "shouldRun_begin provider_lock o' key ttlMs = Now (\<lambda>now.
     sync (createLockConfig (JStr (co_keyPrefix o' @ key)) (DNumber ttlMs) (Some (DNumber (co_lockAtLeastFor o'))) (clock_at now))
       provider_lock)"

definition shouldRun_resume ::
  "coordinator_options \<Rightarrow> string \<Rightarrow> 'l option \<Rightarrow> (string \<Rightarrow> 'l option) \<Rightarrow> bool \<times> (string \<Rightarrow> 'l option)" where
  "shouldRun_resume o' key lock locks = (case lock of
     None \<Rightarrow> (False, locks)
   | Some l \<Rightarrow> (True, locks(co_keyPrefix o' @ key \<mapsto> l)))"

definition onComplete_begin :: "coordinator_options \<Rightarrow> string \<Rightarrow> (string \<Rightarrow> 'l option) \<Rightarrow> 'l option" where
  "onComplete_begin o' key locks = locks (co_keyPrefix o' @ key)"

text \<open>\<open>finally\<close>: the entry goes whatever \<open>unlock\<close> did, and its error is the outcome.\<close>

definition onComplete_resume ::
  "coordinator_options \<Rightarrow> string \<Rightarrow> jsv + unit \<Rightarrow> (string \<Rightarrow> 'l option) \<Rightarrow> (jsv + unit) \<times> (string \<Rightarrow> 'l option)" where
  "onComplete_resume o' key unlocked locks = (unlocked, locks(co_keyPrefix o' @ key := None))"

text \<open>\<open>schedule\<close>: what is handed to \<open>cron.schedule\<close>.\<close>

definition nodeCron_schedule ::
  "('q, 'l) executor \<Rightarrow> ResolvedSchedulerLockConfig \<Rightarrow> (string \<Rightarrow> ('a \<Rightarrow> ('q, 'l, 'v option) task) \<Rightarrow> 'o \<Rightarrow> 'r) \<Rightarrow>
   string \<Rightarrow> ('a \<Rightarrow> ('q, 'l, 'v) task) \<Rightarrow> JobLockOptions \<Rightarrow> 'o \<Rightarrow> jsv + 'r" where
  "nodeCron_schedule ex c cron_schedule expression task lockJob taskOptions =
     (case sched_wrap ex c task lockJob of Inl e \<Rightarrow> Inl e | Inr f \<Rightarrow> Inr (cron_schedule expression f taskOptions))"

section \<open>bree and aws-lambda\<close>

definition bree_wrap ::
  "('q, 'l) executor \<Rightarrow> ResolvedSchedulerLockConfig \<Rightarrow> ('a \<Rightarrow> ('q, 'l, 'v) task) \<Rightarrow> JobLockOptions \<Rightarrow>
   jsv + ('a \<Rightarrow> ('q, 'l, 'v option) task)" where
  "bree_wrap = sched_wrap"

definition awsLambda_wrapHandler ::
  "('q, 'l) executor \<Rightarrow> ResolvedSchedulerLockConfig \<Rightarrow> ('a \<Rightarrow> ('q, 'l, 'v) task) \<Rightarrow> JobLockOptions \<Rightarrow>
   jsv + ('a \<Rightarrow> ('q, 'l, 'v option) task)" where
  "awsLambda_wrapHandler ex c handler job = sched_wrap ex c handler job"

section \<open>nestjs: the runtime (scheduler-lock-runtime.ts) and the module (tslock-module.ts)\<close>

text \<open>Runtimes are compared by identity: \<open>rt_id\<close>.  The module variable \<open>activeRuntime\<close> is the state.\<close>

record ('q, 'l) SchedulerLockRuntime =
  rt_id :: nat
  rt_executor :: "('q, 'l) executor"
  rt_defaults :: ResolvedSchedulerLockConfig

definition bindSchedulerLockRuntime ::
  "('q, 'l) SchedulerLockRuntime \<Rightarrow> ('q, 'l) SchedulerLockRuntime option \<Rightarrow> ('q, 'l) SchedulerLockRuntime option" where
  "bindSchedulerLockRuntime r active = Some r"

definition unbindSchedulerLockRuntime ::
  "('q, 'l) SchedulerLockRuntime \<Rightarrow> ('q, 'l) SchedulerLockRuntime option \<Rightarrow> ('q, 'l) SchedulerLockRuntime option" where
  "unbindSchedulerLockRuntime r active = (case active of
     None \<Rightarrow> None | Some a \<Rightarrow> if rt_id a = rt_id r then None else Some a)"

definition getSchedulerLockRuntime ::
  "('q, 'l) SchedulerLockRuntime option \<Rightarrow> jsv + ('q, 'l) SchedulerLockRuntime" where
  "getSchedulerLockRuntime active = (case active of
     None \<Rightarrow> Inl (LockException ''@SchedulerLock requires TslockModule.forRoot() or TslockModule.forRootAsync() before the method runs'')
   | Some r \<Rightarrow> Inr r)"

definition resolveTslockModuleOptions ::
  "bool \<Rightarrow> DurationInput option \<Rightarrow> DurationInput option \<Rightarrow> jsv + ResolvedSchedulerLockConfig" where
  "resolveTslockModuleOptions =
     resolve_defaults ''TslockModule lockProvider is required'' ''TslockModule defaultLockAtMostFor is required''"

text \<open>A provider of the container: its token and the tokens it is built from (\<open>None\<close>: a class the container builds).\<close>

datatype nest_token =
    MODULE_OPTIONS | LOCK_PROVIDER | LOCKING_TASK_EXECUTOR | SCHEDULER_LOCK_RUNTIME | SCHEDULER_LOCK_RUNTIME_HOST
  | SchedulerLockInterceptor | APP_INTERCEPTOR | Other_token string

record DynamicModule =
  dm_global :: bool
  dm_providers :: "(nest_token \<times> nest_token list) list"
  dm_exports :: "nest_token list"

definition createTslockDynamicModule :: "bool \<Rightarrow> bool \<Rightarrow> nest_token list \<Rightarrow> DynamicModule" where
  "createTslockDynamicModule isGlobal registerInterceptor options_inject =
     \<lparr>dm_global = isGlobal,
      dm_providers =
        [(MODULE_OPTIONS, options_inject),
         (LOCK_PROVIDER, [MODULE_OPTIONS]),
         (LOCKING_TASK_EXECUTOR, [MODULE_OPTIONS]),
         (SCHEDULER_LOCK_RUNTIME, [LOCKING_TASK_EXECUTOR, MODULE_OPTIONS]),
         (SCHEDULER_LOCK_RUNTIME_HOST, [SCHEDULER_LOCK_RUNTIME]),
         (SchedulerLockInterceptor, [])] @
        (if registerInterceptor then [(APP_INTERCEPTOR, [SchedulerLockInterceptor])] else []),
      dm_exports = [LOCK_PROVIDER, LOCKING_TASK_EXECUTOR, SchedulerLockInterceptor]\<rparr>"

definition forRoot ::
  "bool \<Rightarrow> DurationInput option \<Rightarrow> DurationInput option \<Rightarrow> bool option \<Rightarrow> bool option \<Rightarrow>
   jsv + (DynamicModule \<times> ResolvedSchedulerLockConfig)" where
  "forRoot hasLock most least isGlobal registerInterceptor =
     (case resolveTslockModuleOptions hasLock most least of
        Inl e \<Rightarrow> Inl e
      | Inr c \<Rightarrow> Inr (createTslockDynamicModule (case isGlobal of None \<Rightarrow> True | Some b \<Rightarrow> b)
                       (case registerInterceptor of None \<Rightarrow> False | Some b \<Rightarrow> b) [], c))"

definition forRootAsync :: "nest_token list option \<Rightarrow> bool option \<Rightarrow> bool option \<Rightarrow> DynamicModule" where
  "forRootAsync inject isGlobal registerInterceptor =
     createTslockDynamicModule (case isGlobal of None \<Rightarrow> True | Some b \<Rightarrow> b)
       (case registerInterceptor of None \<Rightarrow> False | Some b \<Rightarrow> b) (case inject of None \<Rightarrow> [] | Some ts \<Rightarrow> ts)"

text \<open>The factory of the runtime binds what it builds; \<open>i\<close> is the identity of the new object.\<close>

definition runtime_factory ::
  "nat \<Rightarrow> ('q, 'l) executor \<Rightarrow> ResolvedSchedulerLockConfig \<Rightarrow> ('q, 'l) SchedulerLockRuntime option \<Rightarrow>
   ('q, 'l) SchedulerLockRuntime \<times> ('q, 'l) SchedulerLockRuntime option" where
  "runtime_factory i ex options active =
     (let runtime = \<lparr>rt_id = i, rt_executor = ex, rt_defaults = options\<rparr> in (runtime, bindSchedulerLockRuntime runtime active))"

section \<open>nestjs: the decorator and the interceptor (scheduler-lock.ts, scheduler-lock-interceptor.ts)\<close>

definition validateSchedulerLockOptions :: "JobLockOptions option \<Rightarrow> jsv + unit" where
  "validateSchedulerLockOptions = validate_job ''@SchedulerLock options are required'' ''@SchedulerLock name must be a non-empty string''"

text \<open>
  A handler function: what the module and the metadata registry hold about it.  \<open>reflect\<close> tells whether
  \<open>reflect-metadata\<close> is loaded.
\<close>

datatype metadata = MdOptions JobLockOptions | MdOther jsv

record nest_handler =
  nh_options :: "JobLockOptions option"
  nh_metadata :: "(string \<times> metadata) list"
  nh_wrapped :: bool

definition SCHEDULER_LOCK_METADATA :: string where
  "SCHEDULER_LOCK_METADATA = ''tslock.nestjs.SCHEDULER_LOCK''"

definition isSchedulerLockOptions :: "metadata option \<Rightarrow> JobLockOptions option" where
  "isSchedulerLockOptions m = (case m of
     Some (MdOptions j) \<Rightarrow> (case job_name j of JStr s \<Rightarrow> if s \<noteq> [] then Some j else None | _ \<Rightarrow> None)
   | _ \<Rightarrow> None)"

definition getSchedulerLockOptions :: "bool \<Rightarrow> nest_handler \<Rightarrow> JobLockOptions option" where
  "getSchedulerLockOptions reflect handler = (case nh_options handler of
     Some j \<Rightarrow> Some j
   | None \<Rightarrow> isSchedulerLockOptions (if reflect then map_of (nh_metadata handler) SCHEDULER_LOCK_METADATA else None))"

definition copyFunctionMetadata :: "bool \<Rightarrow> nest_handler \<Rightarrow> nest_handler \<Rightarrow> nest_handler" where
  "copyFunctionMetadata reflect from' to =
     (if \<not> reflect then to else to\<lparr>nh_metadata := spread (nh_metadata to) (nh_metadata from')\<rparr>)"

definition rememberSchedulerLockOptions :: "bool \<Rightarrow> nest_handler \<Rightarrow> JobLockOptions \<Rightarrow> nest_handler" where
  "rememberSchedulerLockOptions reflect handler options =
     (let h = handler\<lparr>nh_options := Some options\<rparr> in
      if reflect then h\<lparr>nh_metadata := set_prop (nh_metadata h) SCHEDULER_LOCK_METADATA (MdOptions options)\<rparr> else h)"

definition runWithSchedulerLock ::
  "('q, 'l) SchedulerLockRuntime \<Rightarrow> JobLockOptions \<Rightarrow> ('q, 'l, 'v) task \<Rightarrow> ('q, 'l, 'v option) task" where
  "runWithSchedulerLock runtime options task = sched_runUnderLock (rt_executor runtime) (rt_defaults runtime) task options"

text \<open>The decorator: the new handler, and what calling it does while \<open>active\<close> is the bound runtime.\<close>

definition SchedulerLock ::
  "bool \<Rightarrow> JobLockOptions option \<Rightarrow> (nest_handler \<times> ('a \<Rightarrow> ('q, 'l, 'v) task)) option \<Rightarrow>
   jsv + (nest_handler \<times> (('q, 'l) SchedulerLockRuntime option \<Rightarrow> 'a \<Rightarrow> ('q, 'l, 'v option) task))" where
  "SchedulerLock reflect options method =
     (case validateSchedulerLockOptions options of Inl e \<Rightarrow> Inl e | Inr _ \<Rightarrow>
     (case (options, method) of
        (Some j, Some (original, body)) \<Rightarrow>
          (let wrapped = \<lparr>nh_options = None, nh_metadata = [], nh_wrapped = False\<rparr>;
               remembered = rememberSchedulerLockOptions reflect (copyFunctionMetadata reflect original wrapped) j
           in Inr (remembered\<lparr>nh_wrapped := True\<rparr>,
                   \<lambda>active args ctx. sync (getSchedulerLockRuntime active) (\<lambda>rt. runWithSchedulerLock rt j (body args) ctx)))
      | _ \<Rightarrow> Inl (LockException ''@SchedulerLock can only be applied to methods'')))"

text \<open>
  The interceptor: \<open>next\<close> runs the handler; \<open>None\<close> in place of a handler is one that is no function.  Without options, or on a method the decorator
  has wrapped, it only passes on.  The runtime is looked up when the interceptor is called.
\<close>

definition intercept ::
  "bool \<Rightarrow> ('q, 'l) SchedulerLockRuntime option \<Rightarrow> nest_handler option \<Rightarrow> ('q, 'l, 'v option) task \<Rightarrow>
   jsv + ('q, 'l, 'v option option) task" where
  "intercept reflect active handler next_handle =
     (let pass = Inr (\<lambda>ctx. await (next_handle ctx) (\<lambda>(r, ctx'). Ret (map_sum id Some r, ctx'))) in
      (case handler of
         None \<Rightarrow> pass
       | Some h \<Rightarrow> (case getSchedulerLockOptions reflect h of
           None \<Rightarrow> pass
         | Some j \<Rightarrow> if nh_wrapped h then pass
             else (case getSchedulerLockRuntime active of
                 Inl e \<Rightarrow> Inl e
               | Inr rt \<Rightarrow> Inr (runWithSchedulerLock rt j next_handle)))))"

section \<open>Properties\<close>



lemma optional_duration_simps [simp]:
  "optional_duration None = Inr None"
  "optional_duration (Some d) = (case parseDuration d of Inl e \<Rightarrow> Inl e | Inr n \<Rightarrow> Inr (Some n))"
  by (simp_all add: optional_duration_def)







text \<open>A method that the decorator wrapped is passed on by the interceptor: the lock is taken once.\<close>

lemma decorated_passes_interceptor:
  assumes "SchedulerLock reflect options method = Inr (h, body)"
  shows "intercept reflect active (Some h) nxt =
    Inr (\<lambda>ctx. await (nxt ctx) (\<lambda>(r, ctx'). Ret (map_sum id Some r, ctx')))"
proof -
  from assms have "nh_wrapped h"
    by (auto simp: SchedulerLock_def Let_def split: sum.splits option.splits)
  then show ?thesis by (auto simp: intercept_def Let_def split: option.splits)
qed

text \<open>Unbinding a runtime leaves a later one bound.\<close>

lemma unbind_other:
  "rt_id a \<noteq> rt_id r \<Longrightarrow> unbindSchedulerLockRuntime r (bindSchedulerLockRuntime a active) = Some a"
  by (simp add: unbindSchedulerLockRuntime_def bindSchedulerLockRuntime_def)

text \<open>After \<open>onComplete\<close> the coordinator holds no lock of that key, also when \<open>unlock\<close> failed.\<close>

lemma onComplete_forgets: "onComplete_resume o' key r locks = (r', locks') \<Longrightarrow> onComplete_begin o' key locks' = None \<and> r' = r"
  by (auto simp: onComplete_resume_def onComplete_begin_def)

text \<open>Every token a provider of the module needs is provided by it, apart from those the application injects.\<close>

lemma module_closed:
  "\<forall>(t, ts) \<in> set (tl (dm_providers (createTslockDynamicModule g i tokens))).
     set ts \<subseteq> fst ` set (dm_providers (createTslockDynamicModule g i tokens))"
  by (auto simp: createTslockDynamicModule_def)

end
