(* ===== verification/Middleware.thy ===== *)
theory Middleware
  imports Scheduler
begin

text \<open>
  packages/middleware-core, express, koa, hono and fastify: HTTP handlers that run under a lock named after the request, and
  the response to a request that finds it taken.  The frameworks are arguments: the operations of a response and the call of the
  next handler are programs.
\<close>

section \<open>Lock names (lock-name-strategy.ts)\<close>

definition methodPathStrategy :: "string \<Rightarrow> string \<Rightarrow> string" where
  "methodPathStrategy method path = toUpperCase method @ '':'' @ path"

definition deriveLockName :: "(string \<Rightarrow> string \<Rightarrow> string) \<Rightarrow> string \<Rightarrow> string \<Rightarrow> string \<Rightarrow> string option \<Rightarrow> string" where
  "deriveLockName strategy prefix method path overrideName =
     (if (case overrideName of None \<Rightarrow> False | Some n \<Rightarrow> n \<noteq> []) then the overrideName
      else if prefix \<noteq> [] then prefix @ '':'' @ strategy method path
      else strategy method path)"

section \<open>The response of a locked request (lock-metadata.ts)\<close>

record LockMetadata =
  md_lockName :: string
  md_lockedBy :: string
  md_lockUntil :: jsnum
  md_retryAfterSeconds :: jsnum

text \<open>A body is a value, or a function of the metadata that may throw.\<close>

datatype LockedBody = StaticBody jsv | BodyFunction "LockMetadata \<Rightarrow> jsv + jsv"

record LockFailureResponse =
  lf_status :: jsnum
  lf_body :: jsv
  lf_headers :: "(string \<times> string) list"

text \<open>\<open>now\<close> is the reading of \<open>Date.now()\<close>; an absent body is \<open>undefined\<close>.\<close>

definition buildLockFailureResponse ::
  "jsnum \<Rightarrow> jsnum \<Rightarrow> LockedBody option \<Rightarrow> string \<Rightarrow> string \<Rightarrow> jsnum \<Rightarrow> jsv + LockFailureResponse" where
  "buildLockFailureResponse now status body lockName lockedBy lockUntil =
     (let retryAfterSeconds = js_max (Fin 0) (js_ceil (js_scale (1 / 1000) (js_sub lockUntil now)));
          meta = \<lparr>md_lockName = lockName, md_lockedBy = lockedBy, md_lockUntil = lockUntil, md_retryAfterSeconds = retryAfterSeconds\<rparr>
      in (case (case body of None \<Rightarrow> Inr JUndef | Some (StaticBody v) \<Rightarrow> Inr v | Some (BodyFunction f) \<Rightarrow> f meta) of
            Inl e \<Rightarrow> Inl e
          | Inr v \<Rightarrow> Inr \<lparr>lf_status = status, lf_body = v,
              lf_headers = [(''Retry-After'', js_show retryAfterSeconds), (''Lock-Name'', lockName), (''Locked-By'', lockedBy)]\<rparr>))"

definition defaultLockedBody :: "LockMetadata \<Rightarrow> jsv + jsv" where
  "defaultLockedBody meta = Inr (obj
     [(''error'', JStr ''Resource locked by another instance''), (''lockName'', JStr (md_lockName meta)),
      (''lockedBy'', JStr (md_lockedBy meta)), (''retryAfterSeconds'', JNum (md_retryAfterSeconds meta))])"

section \<open>Configurations and their caches (middleware-config.ts)\<close>

record MiddlewareConfig =
  mc_lockAtMostFor :: DurationInput
  mc_lockAtLeastFor :: DurationInput
  mc_lockNamePrefix :: string
  mc_defaultLockedStatus :: jsnum
  mc_defaultLockedBody :: "LockedBody option"
  mc_lockNameStrategy :: "string \<Rightarrow> string \<Rightarrow> string"

record RouteLockConfig =
  rc_name :: "string option"
  rc_lockAtMostFor :: "DurationInput option"
  rc_lockAtLeastFor :: "DurationInput option"
  rc_lockedStatus :: "jsnum option"
  rc_lockedBody :: "LockedBody option"

record ResolvedRouteConfig =
  rr_lockAtMostFor :: jsnum
  rr_lockAtLeastFor :: jsnum
  rr_lockedStatus :: jsnum
  rr_lockedBody :: "LockedBody option"

text \<open>
  The three weak maps of the module, keyed by the identity of configuration and route objects.
\<close>

record mw_caches =
  durationCache :: "nat \<Rightarrow> (jsnum \<times> jsnum) option"
  routeCache :: "nat \<Rightarrow> (nat \<Rightarrow> ResolvedRouteConfig option) option"
  globalRouteCache :: "nat \<Rightarrow> ResolvedRouteConfig option"

text \<open>\<open>a ?? b\<close> on bodies.\<close>

definition body_or :: "LockedBody option \<Rightarrow> LockedBody option \<Rightarrow> LockedBody option" where
  "body_or a b = (case a of
     None \<Rightarrow> b
   | Some (StaticBody v) \<Rightarrow> if v = JUndef \<or> v = JNull then b else a
   | Some (BodyFunction f) \<Rightarrow> a)"

definition parse_both :: "DurationInput \<Rightarrow> DurationInput \<Rightarrow> jsv + (jsnum \<times> jsnum)" where
  "parse_both most least = (case parseDuration most of Inl e \<Rightarrow> Inl e | Inr m \<Rightarrow>
     (case parseDuration least of Inl e \<Rightarrow> Inl e | Inr l \<Rightarrow> Inr (m, l)))"

text \<open>\<open>i\<close> is the identity of the frozen object that is made.\<close>

definition resolveMiddlewareConfig ::
  "nat \<Rightarrow> DurationInput option \<Rightarrow> DurationInput option \<Rightarrow> string option \<Rightarrow> jsnum option \<Rightarrow> LockedBody option \<Rightarrow>
   (string \<Rightarrow> string \<Rightarrow> string) option \<Rightarrow> mw_caches \<Rightarrow> (jsv + MiddlewareConfig) \<times> mw_caches" where
  "resolveMiddlewareConfig i most least prefix status body strategy s =
     (let config = \<lparr>mc_lockAtMostFor = (case most of None \<Rightarrow> DNumber (Fin 30000) | Some d \<Rightarrow> d),
                    mc_lockAtLeastFor = (case least of None \<Rightarrow> DNumber (Fin 0) | Some d \<Rightarrow> d),
                    mc_lockNamePrefix = (case prefix of None \<Rightarrow> [] | Some p \<Rightarrow> p),
                    mc_defaultLockedStatus = (case status of None \<Rightarrow> Fin 503 | Some x \<Rightarrow> x),
                    mc_defaultLockedBody = body_or body None,
                    mc_lockNameStrategy = (case strategy of None \<Rightarrow> methodPathStrategy | Some f \<Rightarrow> f)\<rparr>
      in (case parse_both (mc_lockAtMostFor config) (mc_lockAtLeastFor config) of
            Inl e \<Rightarrow> (Inl e, s)
          | Inr d \<Rightarrow> (Inr config, s\<lparr>durationCache := (durationCache s)(i \<mapsto> d)\<rparr>)))"

definition resolvedDurations :: "nat \<Rightarrow> MiddlewareConfig \<Rightarrow> mw_caches \<Rightarrow> (jsv + (jsnum \<times> jsnum)) \<times> mw_caches" where
  "resolvedDurations g global s = (case durationCache s g of
     Some d \<Rightarrow> (Inr d, s)
   | None \<Rightarrow> (case parse_both (mc_lockAtMostFor global) (mc_lockAtLeastFor global) of
       Inl e \<Rightarrow> (Inl e, s)
     | Inr d \<Rightarrow> (Inr d, s\<lparr>durationCache := (durationCache s)(g \<mapsto> d)\<rparr>)))"

text \<open>The resolution itself, given the durations of the global configuration.\<close>

definition global_resolved :: "MiddlewareConfig \<Rightarrow> jsnum \<times> jsnum \<Rightarrow> ResolvedRouteConfig" where
  "global_resolved global d =
     \<lparr>rr_lockAtMostFor = fst d, rr_lockAtLeastFor = snd d,
      rr_lockedStatus = mc_defaultLockedStatus global, rr_lockedBody = mc_defaultLockedBody global\<rparr>"

definition route_resolved :: "MiddlewareConfig \<Rightarrow> RouteLockConfig \<Rightarrow> jsnum \<times> jsnum \<Rightarrow> jsv + ResolvedRouteConfig" where
  "route_resolved global route d =
     (case (case rc_lockAtMostFor route of None \<Rightarrow> Inr (fst d) | Some x \<Rightarrow> parseDuration x) of Inl e \<Rightarrow> Inl e | Inr m \<Rightarrow>
     (case (case rc_lockAtLeastFor route of None \<Rightarrow> Inr (snd d) | Some x \<Rightarrow> parseDuration x) of Inl e \<Rightarrow> Inl e | Inr l \<Rightarrow>
        Inr \<lparr>rr_lockAtMostFor = m, rr_lockAtLeastFor = l,
             rr_lockedStatus = (case rc_lockedStatus route of None \<Rightarrow> mc_defaultLockedStatus global | Some x \<Rightarrow> x),
             rr_lockedBody = body_or (rc_lockedBody route) (mc_defaultLockedBody global)\<rparr>))"

text \<open>A route object: its identity, whether it is frozen, and its properties at the time of the call.\<close>

definition mergeRouteConfig ::
  "nat \<Rightarrow> MiddlewareConfig \<Rightarrow> (nat \<times> bool \<times> RouteLockConfig) option \<Rightarrow> mw_caches \<Rightarrow>
   (jsv + ResolvedRouteConfig) \<times> mw_caches" where
  "mergeRouteConfig g global route s = (case route of
     None \<Rightarrow> (case globalRouteCache s g of
         Some r \<Rightarrow> (Inr r, s)
       | None \<Rightarrow> (case resolvedDurations g global s of
           (Inl e, s1) \<Rightarrow> (Inl e, s1)
         | (Inr d, s1) \<Rightarrow> (Inr (global_resolved global d),
                          s1\<lparr>globalRouteCache := (globalRouteCache s1)(g \<mapsto> global_resolved global d)\<rparr>)))
   | Some (i, canCache, r) \<Rightarrow>
       (let s0 = (if canCache \<and> routeCache s g = None then s\<lparr>routeCache := (routeCache s)(g \<mapsto> (\<lambda>_. None))\<rparr> else s);
            routesForGlobal = (case routeCache s0 g of None \<Rightarrow> (\<lambda>_. None) | Some m \<Rightarrow> m)
        in (case (if canCache then routesForGlobal i else None) of
              Some x \<Rightarrow> (Inr x, s0)
            | None \<Rightarrow> (case resolvedDurations g global s0 of
                (Inl e, s1) \<Rightarrow> (Inl e, s1)
              | (Inr d, s1) \<Rightarrow> (case route_resolved global r d of
                  Inl e \<Rightarrow> (Inl e, s1)
                | Inr x \<Rightarrow> (Inr x, if canCache then s1\<lparr>routeCache := (routeCache s1)(g \<mapsto> routesForGlobal(i \<mapsto> x))\<rparr> else s1))))))"

text \<open>\<open>snapshotRouteConfig\<close>: a frozen copy with a new identity.\<close>

definition snapshotRouteConfig :: "nat \<Rightarrow> RouteLockConfig option \<Rightarrow> (nat \<times> bool \<times> RouteLockConfig) option" where
  "snapshotRouteConfig i route = map_option (\<lambda>r. (i, True, r)) route"

section \<open>The lifecycle of a request (middleware-lifecycle.ts)\<close>

text \<open>
  \<open>date_now\<close> is the program of \<open>Date.now()\<close>, \<open>hostname\<close> the host name, \<open>ex\<close> the executor over the configured provider.
  \<open>send\<close> is \<open>sendLockedResponse\<close>.  The result tells whether the handler was executed.
\<close>

definition locked_body :: "LockedBody option \<Rightarrow> LockedBody option" where
  "locked_body b = body_or b (Some (BodyFunction defaultLockedBody))"

definition mw_run ::
  "('q, 'l) executor \<Rightarrow> ('q, jsnum) prog \<Rightarrow> string \<Rightarrow> ResolvedRouteConfig \<Rightarrow> string \<Rightarrow> ('q, 'l, unit) task \<Rightarrow>
   (LockFailureResponse \<Rightarrow> ('q, unit) prog) \<Rightarrow> ('q, 'l, bool) task" where
  "mw_run ex date_now hostname resolved lockName runHandler send ctx = Now (\<lambda>t.
     sync (createLockConfig (JStr lockName) (DNumber (rr_lockAtMostFor resolved)) (Some (DNumber (rr_lockAtLeastFor resolved))) (clock_at t))
       (\<lambda>lockConfig.
     await (executeWithLock ex runHandler lockConfig ctx) (\<lambda>(result, ctx'). case result of
         Inl e \<Rightarrow> Ret (Inl e, ctx')
       | Inr r \<Rightarrow> if wasExecuted r then Ret (Inr True, ctx')
           else await date_now (\<lambda>now. await date_now (\<lambda>now2.
             sync (buildLockFailureResponse now2 (rr_lockedStatus resolved) (locked_body (rr_lockedBody resolved)) lockName
                     hostname (js_add now (rr_lockAtMostFor resolved)))
               (\<lambda>response. await (send response) (\<lambda>_. Ret (Inr False, ctx'))))))))"

text \<open>The call resolves the route first, which may fill the caches.\<close>

definition middleware_executeWithLock ::
  "('q, 'l) executor \<Rightarrow> ('q, jsnum) prog \<Rightarrow> string \<Rightarrow> nat \<Rightarrow> MiddlewareConfig \<Rightarrow> string \<Rightarrow> string \<Rightarrow>
   (nat \<times> bool \<times> RouteLockConfig) option \<Rightarrow> ('q, 'l, unit) task \<Rightarrow> (LockFailureResponse \<Rightarrow> ('q, unit) prog) \<Rightarrow> mw_caches \<Rightarrow>
   ('q, 'l, bool) task \<times> mw_caches" where
  "middleware_executeWithLock ex date_now hostname g config method path routeConfig runHandler send s =
     (case mergeRouteConfig g config routeConfig s of (resolved, s') \<Rightarrow>
       (\<lambda>ctx. sync resolved (\<lambda>r.
          mw_run ex date_now hostname r
            (deriveLockName (mc_lockNameStrategy config) (mc_lockNamePrefix config) method path
              (case routeConfig of None \<Rightarrow> None | Some (_, _, rc) \<Rightarrow> rc_name rc))
            runHandler send ctx),
        s'))"

section \<open>Properties\<close>

text \<open>
  The reference: the resolution without any cache.  \<open>configs\<close> and \<open>routes\<close> give the contents of the configuration and of the frozen
  route objects by identity; caches are right when they hold nothing but values of the reference.
\<close>

definition merge_reference :: "MiddlewareConfig \<Rightarrow> RouteLockConfig option \<Rightarrow> jsv + ResolvedRouteConfig" where
  "merge_reference global route = (case parse_both (mc_lockAtMostFor global) (mc_lockAtLeastFor global) of
     Inl e \<Rightarrow> Inl e
   | Inr d \<Rightarrow> (case route of None \<Rightarrow> Inr (global_resolved global d) | Some r \<Rightarrow> route_resolved global r d))"

definition caches_ok :: "(nat \<Rightarrow> MiddlewareConfig) \<Rightarrow> (nat \<Rightarrow> RouteLockConfig) \<Rightarrow> mw_caches \<Rightarrow> bool" where
  "caches_ok configs routes s \<longleftrightarrow>
     (\<forall>g d. durationCache s g = Some d \<longrightarrow> parse_both (mc_lockAtMostFor (configs g)) (mc_lockAtLeastFor (configs g)) = Inr d) \<and>
     (\<forall>g x. globalRouteCache s g = Some x \<longrightarrow> merge_reference (configs g) None = Inr x) \<and>
     (\<forall>g m i x. routeCache s g = Some m \<longrightarrow> m i = Some x \<longrightarrow> merge_reference (configs g) (Some (routes i)) = Inr x)"

definition empty_caches :: mw_caches where
  "empty_caches = \<lparr>durationCache = (\<lambda>_. None), routeCache = (\<lambda>_. None), globalRouteCache = (\<lambda>_. None)\<rparr>"

lemma caches_ok_empty [simp]: "caches_ok configs routes empty_caches"
  by (simp add: caches_ok_def empty_caches_def)

lemma resolvedDurations_ok:
  assumes "caches_ok configs routes s" "resolvedDurations g (configs g) s = (r, s')"
  shows "r = parse_both (mc_lockAtMostFor (configs g)) (mc_lockAtLeastFor (configs g)) \<and> caches_ok configs routes s' \<and>
    routeCache s' = routeCache s \<and> globalRouteCache s' = globalRouteCache s"
  using assms by (auto simp: resolvedDurations_def caches_ok_def split: option.splits sum.splits if_splits)

lemma merge_global_ok:
  assumes "caches_ok configs routes s" "mergeRouteConfig g (configs g) None s = (r, s')"
  shows "r = merge_reference (configs g) None \<and> caches_ok configs routes s'"
proof (cases "globalRouteCache s g")
  case None
  obtain d s1 where d: "resolvedDurations g (configs g) s = (d, s1)" by fastforce
  note ok = resolvedDurations_ok [OF assms(1) d]
  show ?thesis
  proof (cases d)
    case (Inl e)
    then show ?thesis using assms(2) None d ok by (auto simp: mergeRouteConfig_def merge_reference_def)
  next
    case (Inr p)
    then have "parse_both (mc_lockAtMostFor (configs g)) (mc_lockAtLeastFor (configs g)) = Inr p" using ok by simp
    then have x: "merge_reference (configs g) None = Inr (global_resolved (configs g) p)" by (simp add: merge_reference_def)
    have "r = Inr (global_resolved (configs g) p)"
      "s' = s1\<lparr>globalRouteCache := (globalRouteCache s1)(g \<mapsto> global_resolved (configs g) p)\<rparr>"
      using assms(2) None d Inr by (simp_all add: mergeRouteConfig_def)
    then show ?thesis using x ok by (auto simp: caches_ok_def)
  qed
qed (use assms in \<open>auto simp: mergeRouteConfig_def caches_ok_def\<close>)

lemma merge_route_ok:
  assumes "caches_ok configs routes s" "frozen \<longrightarrow> rc = routes i"
    and "mergeRouteConfig g (configs g) (Some (i, frozen, rc)) s = (r, s')"
  shows "r = merge_reference (configs g) (Some rc) \<and> caches_ok configs routes s'"
proof -
  define s0 where "s0 = (if frozen \<and> routeCache s g = None then s\<lparr>routeCache := (routeCache s)(g \<mapsto> (\<lambda>_. None))\<rparr> else s)"
  define m where "m = (case routeCache s0 g of None \<Rightarrow> (\<lambda>_. None) | Some x \<Rightarrow> x)"
  have ok0: "caches_ok configs routes s0" using assms(1) by (auto simp: s0_def caches_ok_def)
  have mok: "m i = Some x \<Longrightarrow> merge_reference (configs g) (Some (routes i)) = Inr x" for i x
    using ok0 by (auto simp: m_def caches_ok_def split: option.splits)
  have e: "(r, s') = (case (if frozen then m i else None) of
      Some x \<Rightarrow> (Inr x, s0)
    | None \<Rightarrow> (case resolvedDurations g (configs g) s0 of
        (Inl e, s1) \<Rightarrow> (Inl e, s1)
      | (Inr d, s1) \<Rightarrow> (case route_resolved (configs g) rc d of
          Inl e \<Rightarrow> (Inl e, s1)
        | Inr x \<Rightarrow> (Inr x, if frozen then s1\<lparr>routeCache := (routeCache s1)(g \<mapsto> m(i \<mapsto> x))\<rparr> else s1))))"
    using assms(3) [symmetric] unfolding mergeRouteConfig_def option.case prod.case Let_def s0_def [symmetric] m_def [symmetric] .
  show ?thesis
  proof (cases "if frozen then m i else None")
    case (Some x)
    then have "frozen" "m i = Some x" by (auto split: if_splits)
    then show ?thesis using e ok0 mok assms(2) by simp
  next
    case None
    obtain d s1 where d: "resolvedDurations g (configs g) s0 = (d, s1)" by fastforce
    note ok = resolvedDurations_ok [OF ok0 d]
    show ?thesis
    proof (cases d)
      case (Inl x)
      then show ?thesis using e None d ok by (auto simp: merge_reference_def)
    next
      case (Inr p)
      then have "parse_both (mc_lockAtMostFor (configs g)) (mc_lockAtLeastFor (configs g)) = Inr p" using ok by simp
      then have ref: "merge_reference (configs g) (Some rc) = route_resolved (configs g) rc p" by (simp add: merge_reference_def)
      show ?thesis
      proof (cases "route_resolved (configs g) rc p")
        case (Inl x)
        then show ?thesis using e None d Inr ref ok by simp
      next
        case x: (Inr x)
        then have r: "r = Inr x" "s' = (if frozen then s1\<lparr>routeCache := (routeCache s1)(g \<mapsto> m(i \<mapsto> x))\<rparr> else s1)"
          using e None d Inr by simp_all
        have "caches_ok configs routes (s1\<lparr>routeCache := (routeCache s1)(g \<mapsto> m(i \<mapsto> x))\<rparr>)" if frozen
          using ok mok ref x assms(2) that by (auto simp: caches_ok_def)
        then show ?thesis using r ref x ok by auto
      qed
    qed
  qed
qed

text \<open>
  C33: Caching changes nothing: from caches that hold right values, resolving a route gives what the resolution without caches
  gives, errors included, and the caches stay right; frozen route objects keep their contents, others may change between calls.
\<close>

theorem Middleware_merge_cached:
  assumes "caches_ok configs routes s" "\<And>i f rc. route = Some (i, f, rc) \<Longrightarrow> f \<Longrightarrow> rc = routes i"
    and "mergeRouteConfig g (configs g) route s = (r, s')"
  shows "r = merge_reference (configs g) (map_option (\<lambda>(i, f, rc). rc) route) \<and> caches_ok configs routes s'"
proof (cases route)
  case None
  then show ?thesis using merge_global_ok [OF assms(1)] assms(3) by simp
next
  case (Some p)
  obtain i f rc where p: "p = (i, f, rc)" by (cases p)
  show ?thesis using merge_route_ok [OF assms(1), of f rc i g r s'] assms(2,3) Some p by simp
qed

definition demo_config :: MiddlewareConfig where
  "demo_config = \<lparr>mc_lockAtMostFor = DNumber (Fin 30000), mc_lockAtLeastFor = DNumber (Fin 0), mc_lockNamePrefix = [],
     mc_defaultLockedStatus = Fin 503, mc_defaultLockedBody = None, mc_lockNameStrategy = methodPathStrategy\<rparr>"

definition demo_route :: RouteLockConfig where
  "demo_route = \<lparr>rc_name = None, rc_lockAtMostFor = Some (DNumber (Fin 5000)), rc_lockAtLeastFor = None,
     rc_lockedStatus = None, rc_lockedBody = None\<rparr>"

theorem Middleware_merge_cached_witness:
  "fst (mergeRouteConfig 0 demo_config (Some (7, True, demo_route))
      (snd (mergeRouteConfig 0 demo_config (Some (7, True, demo_route)) empty_caches))) =
   merge_reference demo_config (Some demo_route)"
proof -
  obtain r1 s1 where 1: "mergeRouteConfig 0 demo_config (Some (7, True, demo_route)) empty_caches = (r1, s1)" by fastforce
  obtain r2 s2 where 2: "mergeRouteConfig 0 demo_config (Some (7, True, demo_route)) s1 = (r2, s2)" by fastforce
  have "caches_ok (\<lambda>_. demo_config) (\<lambda>_. demo_route) s1"
    by (rule Middleware_merge_cached [where configs = "\<lambda>_. demo_config", OF caches_ok_empty _ 1, THEN conjunct2]) simp
  from Middleware_merge_cached [where configs = "\<lambda>_. demo_config", OF this _ 2] show ?thesis by (simp add: 1 2)
qed






end
