(* ===== verification/WebFrameworks.thy ===== *)
theory WebFrameworks
  imports Middleware
begin

text \<open>
  packages/express, koa, hono and fastify: the paths the lock names are made from, and the handlers each framework registers.  A
  framework's own operations (calling the next handler, sending a response, waiting for the end of a response) are programs.
\<close>

section \<open>Paths\<close>

text \<open>The trailing slash goes unless the path is the root or routing is strict.\<close>

definition strip_trailing_slash :: "bool \<Rightarrow> string \<Rightarrow> string" where
  "strip_trailing_slash strict path = (if \<not> strict \<and> 1 < length path \<and> ends_with path ''/'' then butlast path else path)"

definition normalizeExpressLockPath :: "string \<Rightarrow> bool \<Rightarrow> bool \<Rightarrow> string" where
  "normalizeExpressLockPath path caseSensitive strict =
     strip_trailing_slash strict (if \<not> caseSensitive then toLowerCase path else path)"

text \<open>
  The request: the application's two settings (\<open>undefined\<close> without an application), \<open>baseUrl\<close>, the path of the matched
  route (\<open>None\<close> when there is no route or it has no path, else its \<open>String(...)\<close>) and \<open>path\<close>.
\<close>

record express_request =
  er_caseSensitive :: jsv
  er_strict :: jsv
  er_baseUrl :: jsv
  er_routePath :: "string option"
  er_path :: jsv
  er_method :: string

definition resolveExpressLockPath :: "express_request \<Rightarrow> string" where
  "resolveExpressLockPath req =
     (let baseUrl = str_of (er_baseUrl req);
          routeSegment = (case er_routePath req of Some p \<Rightarrow> p | None \<Rightarrow> str_of (er_path req))
      in normalizeExpressLockPath (baseUrl @ routeSegment) (truthy (er_caseSensitive req)) (truthy (er_strict req)))"

definition stripQueryString :: "string \<Rightarrow> string" where
  "stripQueryString path = takeWhile (\<lambda>c. c \<noteq> CHR ''?'') path"

definition normalizeKoaLockPath :: "string \<Rightarrow> bool \<Rightarrow> bool \<Rightarrow> string" where
  "normalizeKoaLockPath path sensitive strict =
     strip_trailing_slash strict (if \<not> sensitive then toLowerCase (stripQueryString path) else stripQueryString path)"

text \<open>\<open>ctx._matchedRoute\<close>: a string, a regular expression with its \<open>toString()\<close>, or anything else.\<close>

datatype matched_route = MatchedString string | MatchedRegExp string | MatchedOther

definition matchedRoutePath :: "matched_route \<Rightarrow> string option" where
  "matchedRoutePath r = (case r of
     MatchedString s \<Rightarrow> if length s > 0 then Some s else None
   | MatchedRegExp s \<Rightarrow> Some s
   | MatchedOther \<Rightarrow> None)"

record koa_context =
  kc_matchedRoute :: matched_route
  kc_path :: string
  kc_sensitive :: jsv
  kc_strict :: jsv
  kc_method :: string

definition resolveKoaLockPath :: "koa_context \<Rightarrow> string" where
  "resolveKoaLockPath ctx = (case kc_matchedRoute ctx of
     MatchedRegExp s \<Rightarrow> s
   | m \<Rightarrow> normalizeKoaLockPath (case matchedRoutePath m of Some p \<Rightarrow> p | None \<Rightarrow> kc_path ctx)
            (kc_sensitive ctx = JBool True) (kc_strict ctx = JBool True))"

definition hono_getRoutePath :: "string option \<Rightarrow> string \<Rightarrow> string" where
  "hono_getRoutePath routePath path = (case routePath of
     Some p \<Rightarrow> if p \<noteq> [] \<and> p \<noteq> ''/*'' then p else path
   | None \<Rightarrow> path)"

definition fastify_path :: "string option \<Rightarrow> string \<Rightarrow> string" where
  "fastify_path routeUrl url = (case routeUrl of Some u \<Rightarrow> u | None \<Rightarrow> url)"

section \<open>Express (express-lock-factory.ts)\<close>

text \<open>
  The promise of \<open>runHandler\<close>: the state of its closure.  \<open>finish\<close> and the timeout both call \<open>release\<close>; the promise
  resolves at the first call.
\<close>

record express_wait =
  settled :: bool
  timer_set :: bool
  listening :: bool
  resolved_count :: nat

definition express_wait_start :: express_wait where
  "express_wait_start = \<lparr>settled = False, timer_set = True, listening = True, resolved_count = 0\<rparr>"

definition express_release :: "express_wait \<Rightarrow> express_wait" where
  "express_release s =
     (if settled s then s
      else \<lparr>settled = True, timer_set = False, listening = False, resolved_count = resolved_count s + 1\<rparr>)"

text \<open>
  What the handler needs of Express: \<open>ex_wait ms\<close> settles when the response has finished or \<open>ms\<close> have passed, \<open>ex_next\<close> calls
  the next handler, \<open>ex_next_error\<close> passes an error on, \<open>ex_send\<close> is the status, headers and JSON body of a response.
\<close>

record 'q express_ops =
  ex_next :: "('q, unit) prog"
  ex_wait :: "jsnum \<Rightarrow> ('q, unit) prog"
  ex_next_error :: "jsv \<Rightarrow> ('q, unit) prog"
  ex_send :: "LockFailureResponse \<Rightarrow> ('q, unit) prog"

definition express_runHandler :: "'q express_ops \<Rightarrow> jsnum \<Rightarrow> ('q, 'l, unit) task" where
  "express_runHandler ops lockAtMostMs ctx =
     pbind (await (ex_next ops) (\<lambda>_. ex_wait ops lockAtMostMs)) (\<lambda>r. Ret (r, ctx))"

text \<open>Registration: the frozen copy of the route, with its identity, and the time to wait for a response.\<close>

definition express_register ::
  "nat \<Rightarrow> MiddlewareConfig \<Rightarrow> nat \<Rightarrow> RouteLockConfig option \<Rightarrow> mw_caches \<Rightarrow>
   (jsv + ((nat \<times> bool \<times> RouteLockConfig) option \<times> jsnum)) \<times> mw_caches" where
  "express_register g config i routeConfig s =
     (let registered = snapshotRouteConfig i routeConfig in
      case mergeRouteConfig g config registered s of
        (Inl e, s') \<Rightarrow> (Inl e, s')
      | (Inr r, s') \<Rightarrow> (Inr (registered, rr_lockAtMostFor r), s'))"

definition express_handler ::
  "('q, 'l) executor \<Rightarrow> ('q, jsnum) prog \<Rightarrow> string \<Rightarrow> 'q express_ops \<Rightarrow> nat \<Rightarrow> MiddlewareConfig \<Rightarrow>
   (nat \<times> bool \<times> RouteLockConfig) option \<times> jsnum \<Rightarrow> express_request \<Rightarrow> 'l ctx \<Rightarrow> mw_caches \<Rightarrow> ('q, unit) prog \<times> mw_caches" where
  "express_handler ex date_now hostname ops g config registered req ctx s =
     (case middleware_executeWithLock ex date_now hostname g config (er_method req) (resolveExpressLockPath req)
             (fst registered) (express_runHandler ops (snd registered)) (ex_send ops) s of
        (task, s') \<Rightarrow>
          (pbind (task ctx) (\<lambda>r. case r of
             Inl e \<Rightarrow> ex_next_error ops e
           | Inr (Inl e, _) \<Rightarrow> ex_next_error ops e
           | Inr (Inr _, _) \<Rightarrow> Ret ()), s'))"

section \<open>Koa and Hono (koa-lock-factory.ts, hono-lock-factory.ts)\<close>

text \<open>Both run the next handler, hand the response to the context, and let errors through to the framework.\<close>

record 'q web_ops =
  web_next :: "('q, unit) prog"
  web_send :: "LockFailureResponse \<Rightarrow> ('q, unit) prog"

definition web_middleware ::
  "('q, 'l) executor \<Rightarrow> ('q, jsnum) prog \<Rightarrow> string \<Rightarrow> 'q web_ops \<Rightarrow> nat \<Rightarrow> MiddlewareConfig \<Rightarrow>
   (nat \<times> bool \<times> RouteLockConfig) option \<Rightarrow> string \<Rightarrow> string \<Rightarrow> 'l ctx \<Rightarrow> mw_caches \<Rightarrow> ('q, unit) prog \<times> mw_caches" where
  "web_middleware ex date_now hostname ops g config registered method path ctx s =
     (case middleware_executeWithLock ex date_now hostname g config method path registered
             (\<lambda>c. pbind (web_next ops) (\<lambda>r. Ret (r, c))) (web_send ops) s of
        (task, s') \<Rightarrow>
          (await (task ctx) (\<lambda>(r, _). case r of Inl e \<Rightarrow> Raise e | Inr _ \<Rightarrow> Ret ()), s'))"

definition koa_middleware ::
  "('q, 'l) executor \<Rightarrow> ('q, jsnum) prog \<Rightarrow> string \<Rightarrow> 'q web_ops \<Rightarrow> nat \<Rightarrow> MiddlewareConfig \<Rightarrow>
   (nat \<times> bool \<times> RouteLockConfig) option \<Rightarrow> koa_context \<Rightarrow> 'l ctx \<Rightarrow> mw_caches \<Rightarrow> ('q, unit) prog \<times> mw_caches" where
  "koa_middleware ex date_now hostname ops g config registered kc =
     web_middleware ex date_now hostname ops g config registered (kc_method kc) (resolveKoaLockPath kc)"

definition hono_middleware ::
  "('q, 'l) executor \<Rightarrow> ('q, jsnum) prog \<Rightarrow> string \<Rightarrow> 'q web_ops \<Rightarrow> nat \<Rightarrow> MiddlewareConfig \<Rightarrow>
   (nat \<times> bool \<times> RouteLockConfig) option \<Rightarrow> string \<Rightarrow> string option \<Rightarrow> string \<Rightarrow> 'l ctx \<Rightarrow> mw_caches \<Rightarrow> ('q, unit) prog \<times> mw_caches" where
  "hono_middleware ex date_now hostname ops g config registered method routePath path =
     web_middleware ex date_now hostname ops g config registered method (hono_getRoutePath routePath path)"

section \<open>Fastify (fastify-lock-plugin.ts)\<close>

text \<open>
  \<open>fa_done e\<close> is the call of the hook's callback, without or with an error; \<open>fa_reply\<close> settles with the reply.
\<close>

record 'q fastify_ops =
  fa_done :: "jsv option \<Rightarrow> ('q, unit) prog"
  fa_reply :: "('q, unit) prog"
  fa_send :: "LockFailureResponse \<Rightarrow> ('q, unit) prog"

definition as_error :: "jsv \<Rightarrow> jsv" where
  "as_error e = (case e of JErr _ _ \<Rightarrow> e | _ \<Rightarrow> mk_error ''Error'' (js_String e))"

definition fastify_preHandler ::
  "('q, 'l) executor \<Rightarrow> ('q, jsnum) prog \<Rightarrow> string \<Rightarrow> 'q fastify_ops \<Rightarrow> nat \<Rightarrow> MiddlewareConfig \<Rightarrow>
   (nat \<times> bool \<times> RouteLockConfig) option \<Rightarrow> string \<Rightarrow> string option \<Rightarrow> string \<Rightarrow> 'l ctx \<Rightarrow> mw_caches \<Rightarrow> ('q, unit) prog \<times> mw_caches" where
  "fastify_preHandler ex date_now hostname ops g config registered method routeUrl url ctx s =
     (case middleware_executeWithLock ex date_now hostname g config method (fastify_path routeUrl url) registered
             (\<lambda>c. pbind (await (fa_done ops None) (\<lambda>_. fa_reply ops)) (\<lambda>r. Ret (r, c))) (fa_send ops) s of
        (task, s') \<Rightarrow>
          (pbind (task ctx) (\<lambda>r. case r of
             Inl e \<Rightarrow> fa_done ops (Some (as_error e))
           | Inr (Inl e, _) \<Rightarrow> fa_done ops (Some (as_error e))
           | Inr (Inr _, _) \<Rightarrow> Ret ()), s'))"

section \<open>Facts\<close>

text \<open>However often the two events call \<open>release\<close>, the promise resolves once, and both are then cancelled.\<close>

lemma express_releases:
  "0 < n \<Longrightarrow> (express_release ^^ n) express_wait_start =
     \<lparr>settled = True, timer_set = False, listening = False, resolved_count = 1\<rparr>"
proof (induction n)
  case (Suc n)
  then show ?case by (cases n) (simp_all add: express_release_def express_wait_start_def)
qed simp

text \<open>With non-strict routing a path and the same path with a slash at the end share a lock.\<close>

lemma ends_with_snoc: "ends_with (s @ [c]) [c]"
  by (simp add: ends_with_def)

lemma express_slash:
  "p \<noteq> [] \<Longrightarrow> \<not> ends_with (map lower_char p) ''/'' \<Longrightarrow>
   normalizeExpressLockPath (p @ ''/'') False False = normalizeExpressLockPath p False False"
  using ends_with_snoc [of "map lower_char p" "CHR ''/''"]
  by (simp add: normalizeExpressLockPath_def strip_trailing_slash_def lower_char_def Let_def)

lemma strip_slash_idem:
  "\<not> ends_with (strip_trailing_slash False p) ''/'' \<Longrightarrow>
   strip_trailing_slash False (strip_trailing_slash False p) = strip_trailing_slash False p"
  by (simp add: strip_trailing_slash_def)

text \<open>A query string never reaches the name of a lock in Koa.\<close>

lemma koa_no_query: "CHR ''?'' \<notin> set (stripQueryString p)"
  by (auto simp: stripQueryString_def dest: set_takeWhileD)

end
