(* ===== verification/Sql.thy ===== *)
theory Sql
  imports StorageBased Columns
begin

text \<open>
  packages/sql-support, sql, kysely and drizzle: the statements of the relational providers, their named parameters, and the
  accessors that run them.  Drivers are the handlers of the requests; \<open>Intl.DateTimeFormat\<close> is an argument.  Parameters are the own
  properties of the object they are bound in.
\<close>

section \<open>Products and configuration (database-product.ts, sql-configuration.ts)\<close>

datatype DatabaseProduct =
    POSTGRES | COCKROACH_DB | SQL_SERVER | ORACLE | MYSQL | MARIA_DB | HSQL | H2 | DB2 | SQLITE | UNKNOWN

definition matchProductName :: "string \<Rightarrow> DatabaseProduct" where
  "matchProductName name = (let lower = toLowerCase name in
     if str_includes lower ''cockroach'' then COCKROACH_DB
     else if str_includes lower ''mariadb'' then MARIA_DB
     else if str_includes lower ''postgresql'' \<or> str_includes lower ''postgres'' then POSTGRES
     else if str_includes lower ''microsoft sql server'' \<or> str_includes lower ''sql server'' then SQL_SERVER
     else if str_includes lower ''oracle'' then ORACLE
     else if str_includes lower ''mysql'' then MYSQL
     else if str_includes lower ''hsqldb'' \<or> str_includes lower ''hsql'' then HSQL
     else if str_includes lower ''h2'' then H2
     else if str_includes lower ''db2'' then DB2
     else if str_includes lower ''sqlite'' then SQLITE
     else UNKNOWN)"

record SqlConfiguration =
  sq_databaseProduct :: DatabaseProduct
  sq_tableName :: string
  sq_columnNames :: ColumnNames
  sq_lockedByValue :: string
  sq_timeZone :: "string option"
  sq_useDbTime :: bool

definition DB_UPPER_CASE :: "DatabaseProduct set" where
  "DB_UPPER_CASE = {ORACLE, DB2, HSQL}"

definition upper_columns :: "ColumnNames \<Rightarrow> ColumnNames" where
  "upper_columns c = \<lparr>cn_name = toUpperCase (cn_name c), cn_lockUntil = toUpperCase (cn_lockUntil c),
     cn_lockedAt = toUpperCase (cn_lockedAt c), cn_lockedBy = toUpperCase (cn_lockedBy c)\<rparr>"

text \<open>The constructor; \<open>columns\<close> are the properties of \<open>options.columnNames\<close>, \<open>None\<close> where absent.\<close>

definition new_SqlConfiguration ::
  "string \<Rightarrow> DatabaseProduct \<Rightarrow> string option \<Rightarrow> (string \<Rightarrow> string option) \<Rightarrow> string option \<Rightarrow> string option \<Rightarrow> bool option \<Rightarrow>
   jsv + SqlConfiguration" where
  "new_SqlConfiguration hostname product table columns lockedBy timeZone dbTime =
     (let tableName = opt_or table ''shedlock'';
          c = \<lparr>cn_name = opt_or (columns ''name'') ''name'', cn_lockUntil = opt_or (columns ''lockUntil'') ''lockUntil'',
               cn_lockedAt = opt_or (columns ''lockedAt'') ''lockedAt'', cn_lockedBy = opt_or (columns ''lockedBy'') ''lockedBy''\<rparr>;
          useDbTime = (case dbTime of None \<Rightarrow> False | Some b \<Rightarrow> b);
          upper = product \<in> DB_UPPER_CASE
      in also_check (validateIdentifier tableName ''tableName'')
         (also_check (validateIdentifier (cn_name c) ''columnNames.name'')
         (also_check (validateIdentifier (cn_lockUntil c) ''columnNames.lockUntil'')
         (also_check (validateIdentifier (cn_lockedAt c) ''columnNames.lockedAt'')
         (also_check (validateIdentifier (cn_lockedBy c) ''columnNames.lockedBy'')
         (if useDbTime \<and> (case timeZone of None \<Rightarrow> False | Some z \<Rightarrow> z \<noteq> [])
          then Inl (LockException ''Cannot set both useDbTime and timeZone'')
          else Inr \<lparr>sq_databaseProduct = product, sq_tableName = (if upper then toUpperCase tableName else tableName),
                    sq_columnNames = (if upper then upper_columns c else c), sq_lockedByValue = opt_or lockedBy hostname,
                    sq_timeZone = timeZone, sq_useDbTime = useDbTime\<rparr>))))))"

section \<open>Named parameters (sql-statements.ts)\<close>

text \<open>A statement cut at the matches of \<open>NAMED_PARAM_PATTERN\<close>.\<close>

datatype chunk = Text char | Param string

definition is_id_char :: "char \<Rightarrow> bool" where
  "is_id_char c \<longleftrightarrow> is_id_start c \<or> is_digit c"

function sql_chunks :: "string \<Rightarrow> chunk list" where
  "sql_chunks [] = []"
| "sql_chunks (c # s) =
     (if c = CHR '':'' \<and> s \<noteq> [] \<and> is_id_start (hd s)
      then Param (takeWhile is_id_char s) # sql_chunks (dropWhile is_id_char s)
      else Text c # sql_chunks s)"
  by pat_completeness auto
termination by (relation "measure length") (auto simp: less_Suc_eq_le length_dropWhile_le)

definition translateToPositional :: "string \<Rightarrow> string" where
  "translateToPositional sql =
     concat (fst (foldl (\<lambda>(out, index) c. case c of
        Text x \<Rightarrow> (out @ [[x]], index) | Param _ \<Rightarrow> (out @ [CHR ''$'' # show_nat (index + 1)], index + 1)) ([], 0) (sql_chunks sql)))"

definition buildPositionalParams :: "(string \<times> jsv) list \<Rightarrow> string list \<Rightarrow> jsv list" where
  "buildPositionalParams params order = map (\<lambda>n. case map_of params n of None \<Rightarrow> JUndef | Some v \<Rightarrow> v) order"

text \<open>\<open>seen\<close>, \<open>counter\<close> and \<open>values\<close> are the variables of the closure.\<close>

fun replace_chunks ::
  "(string \<times> jsv) list \<Rightarrow> (string \<Rightarrow> nat \<Rightarrow> string) \<Rightarrow> (string \<Rightarrow> nat option) \<Rightarrow> nat \<Rightarrow> jsv list \<Rightarrow> chunk list \<Rightarrow>
   jsv + (string \<times> jsv list)" where
  "replace_chunks params rend seen counter vals [] = Inr ([], vals)"
| "replace_chunks params rend seen counter vals (Text c # cs) =
     map_sum id (\<lambda>(t, v). (c # t, v)) (replace_chunks params rend seen counter vals cs)"
| "replace_chunks params rend seen counter vals (Param n # cs) = (case map_of params n of
     None \<Rightarrow> Inl (LockException (''Missing param: '' @ n))
   | Some x \<Rightarrow> (case seen n of
       None \<Rightarrow> map_sum id (\<lambda>(t, v). (rend n (counter + 1) @ t, v))
         (replace_chunks params rend (seen(n \<mapsto> counter + 1)) (counter + 1) (vals @ [x]) cs)
     | Some k \<Rightarrow> map_sum id (\<lambda>(t, v). (rend n k @ t, v))
         (replace_chunks params rend seen counter (if rend n k = ''?'' then vals @ [x] else vals) cs)))"

definition replaceNamedParams ::
  "string \<Rightarrow> (string \<times> jsv) list \<Rightarrow> (string \<Rightarrow> nat \<Rightarrow> string) \<Rightarrow> jsv + (string \<times> jsv list)" where
  "replaceNamedParams sql params rend = replace_chunks params rend (\<lambda>_. None) 0 [] (sql_chunks sql)"

definition translateNamedParams :: "string \<Rightarrow> (string \<times> jsv) list \<Rightarrow> (nat \<Rightarrow> string) \<Rightarrow> jsv + (string \<times> jsv list)" where
  "translateNamedParams sql params placeholder = replaceNamedParams sql params (\<lambda>_. placeholder)"

definition prefixNamedParams ::
  "string \<Rightarrow> (string \<times> jsv) list \<Rightarrow> string \<Rightarrow> jsv + (string \<times> (string \<times> jsv) list)" where
  "prefixNamedParams sql params prefix =
     map_sum id (\<lambda>(t, _). (t, params)) (replaceNamedParams sql params (\<lambda>name _. prefix @ name))"

section \<open>Time stamps (timestamp.ts)\<close>

text \<open>
  \<open>in_parts z t\<close>: the parts of the first formatter by type; \<open>in_offset z t\<close>: the \<open>timeZoneName\<close> part of the second.  Both throw
  for an unknown zone or an invalid date.
\<close>

record intl =
  in_parts :: "string \<Rightarrow> jsnum \<Rightarrow> jsv + (string \<Rightarrow> string option)"
  in_offset :: "string \<Rightarrow> jsnum \<Rightarrow> jsv + string option"

text \<open>The first match of \<open>/GMT([+-]\d{1,2}):?(\d{2})?/\<close>: sign, hours and minutes.\<close>

fun gmt_match :: "string \<Rightarrow> (char \<times> string \<times> string option) option" where
  "gmt_match [] = None"
| "gmt_match (c # s) =
     (if starts_with (c # s) ''GMT'' \<and> 4 < length (c # s) \<and> (c # s) ! 3 \<in> {CHR ''+'', CHR ''-''} \<and> is_digit ((c # s) ! 4)
      then (let r = drop 4 (c # s);
                hours = (if 1 < length r \<and> is_digit (r ! 1) then take 2 r else take 1 r);
                r1 = drop (length hours) r;
                r2 = (if r1 \<noteq> [] \<and> hd r1 = CHR '':'' then tl r1 else r1)
            in Some ((c # s) ! 3, hours,
                     if 1 < length r2 \<and> is_digit (r2 ! 0) \<and> is_digit (r2 ! 1) then Some (take 2 r2) else None))
      else gmt_match s)"

definition padStart2 :: "string \<Rightarrow> string" where
  "padStart2 s = replicate (2 - length s) CHR ''0'' @ s"

definition getOffset :: "intl \<Rightarrow> string \<Rightarrow> jsnum \<Rightarrow> jsv + string" where
  "getOffset I timeZone epochMillis = (case in_offset I timeZone (new_Date epochMillis) of
     Inl e \<Rightarrow> Inl e
   | Inr part \<Rightarrow> (case gmt_match (opt_or part ''+00:00'') of
       None \<Rightarrow> Inr ''+00:00''
     | Some (sg, hours, minutes) \<Rightarrow> Inr (sg # padStart2 hours @ '':'' @ opt_or minutes ''00'')))"

text \<open>
  \<open>new Date(s)\<close> on a date-time with an offset: \<open>YYYY-MM-DDTHH:mm:ss.sss\<close>, a sign, and \<open>HH:mm\<close>; others are left to the
  implementation by the language, and \<open>NaN\<close> here.
\<close>

definition local_tail :: "field list" where
  "local_tail = [Lit CHR ''-'', Dig 2, Lit CHR ''-'', Dig 2, Lit CHR ''T'', Dig 2, Lit CHR '':'', Dig 2,
                 Lit CHR '':'', Dig 2, Lit CHR ''.'', Dig 3]"

definition Date_parse_offset :: "string \<Rightarrow> jsnum" where
  "Date_parse_offset s =
     (case (scan (Dig 4 # local_tail) (take 23 s), drop 23 s) of
        (Some (y # fs), sg # r) \<Rightarrow>
          (case scan [Dig 2, Lit CHR '':'', Dig 2] r of
             Some [hh, mm] \<Rightarrow>
               if sg \<notin> {CHR ''+'', CHR ''-''} \<or> 23 < hh \<or> 59 < mm then NaN
               else new_Date (js_sub (of_fields (int y) fs)
                      (Fin ((if sg = CHR ''-'' then - 1 else 1) * of_nat (hh * 3600000 + mm * 60000))))
           | _ \<Rightarrow> NaN)
      | _ \<Rightarrow> NaN)"

definition timestamp :: "intl \<Rightarrow> jsnum \<Rightarrow> string option \<Rightarrow> jsv + jsv" where
  "timestamp I epochMillis timeZone = (case timeZone of
     None \<Rightarrow> Inr (JDate (new_Date epochMillis))
   | Some z \<Rightarrow> if z = [] then Inr (JDate (new_Date epochMillis)) else
       (case in_parts I z (new_Date epochMillis) of Inl e \<Rightarrow> Inl e | Inr parts \<Rightarrow>
       (case getOffset I z epochMillis of Inl e \<Rightarrow> Inl e | Inr off \<Rightarrow>
         (let get = (\<lambda>k. opt_or (parts k) ''0'') in
          Inr (JDate (Date_parse_offset (get ''year'' @ ''-'' @ get ''month'' @ ''-'' @ get ''day'' @ ''T'' @ get ''hour'' @ '':'' @
            get ''minute'' @ '':'' @ get ''second'' @ ''.'' @ get ''fractionalSecond'' @ off)))))))"

section \<open>Statements (the four *-sql-statements-source.ts files, factory.ts)\<close>

text \<open>The texts shared by all sources: \<open>now\<close> is the parameter \<open>:now\<close> or an expression of the server.\<close>

definition insert_sql :: "string \<Rightarrow> string \<Rightarrow> ColumnNames \<Rightarrow> string \<Rightarrow> string \<Rightarrow> string" where
  "insert_sql into t c now suffix =
     into @ t @ ''('' @ cn_name c @ '', '' @ cn_lockUntil c @ '', '' @ cn_lockedAt c @ '', '' @ cn_lockedBy c @
     '') VALUES(:name, :lockUntil, '' @ now @ '', :lockedBy)'' @ suffix"

definition update_sql :: "string \<Rightarrow> ColumnNames \<Rightarrow> string \<Rightarrow> string" where
  "update_sql t c now =
     ''UPDATE '' @ t @ '' SET '' @ cn_lockUntil c @ '' = :lockUntil, '' @ cn_lockedAt c @ '' = '' @ now @ '', '' @ cn_lockedBy c @
     '' = :lockedBy WHERE '' @ cn_name c @ '' = :name AND '' @ cn_lockUntil c @ '' <= '' @ now"

definition extend_sql :: "string \<Rightarrow> ColumnNames \<Rightarrow> string \<Rightarrow> string" where
  "extend_sql t c now =
     ''UPDATE '' @ t @ '' SET '' @ cn_lockUntil c @ '' = :lockUntil WHERE '' @ cn_name c @ '' = :name AND '' @ cn_lockedBy c @
     '' = :lockedBy AND '' @ cn_lockUntil c @ '' > '' @ now @ '' AND '' @ cn_lockUntil c @ '' = :previousLockUntil''"

definition unlock_sql :: "string \<Rightarrow> ColumnNames \<Rightarrow> string" where
  "unlock_sql t c =
     ''UPDATE '' @ t @ '' SET '' @ cn_lockUntil c @ '' = :unlockTime WHERE '' @ cn_name c @ '' = :name AND '' @ cn_lockedBy c @
     '' = :lockedBy AND '' @ cn_lockUntil c @ '' = :lockUntil''"

definition on_conflict :: "ColumnNames \<Rightarrow> string" where
  "on_conflict c = '' ON CONFLICT ('' @ cn_name c @ '') DO NOTHING''"

text \<open>A source: its statements, and whether the time is the server's (then \<open>params\<close> is the overridden one).\<close>

record SqlStatementsSource =
  st_config :: SqlConfiguration
  st_insert :: string
  st_update :: string
  st_extend :: string
  st_unlock :: string
  st_serverTime :: bool

definition statements_source :: "SqlConfiguration \<Rightarrow> string \<Rightarrow> string \<Rightarrow> string \<Rightarrow> bool \<Rightarrow> SqlStatementsSource" where
  "statements_source cfg into now suffix server = (let t = sq_tableName cfg; c = sq_columnNames cfg in
     \<lparr>st_config = cfg, st_insert = insert_sql into t c now suffix, st_update = update_sql t c now,
      st_extend = extend_sql t c now, st_unlock = unlock_sql t c, st_serverTime = server\<rparr>)"

definition DefaultSqlStatementsSource :: "SqlConfiguration \<Rightarrow> SqlStatementsSource" where
  "DefaultSqlStatementsSource cfg = statements_source cfg ''INSERT INTO '' '':now'' [] False"

definition PostgresSqlStatementsSource :: "SqlConfiguration \<Rightarrow> SqlStatementsSource" where
  "PostgresSqlStatementsSource cfg = statements_source cfg ''INSERT INTO '' '':now'' (on_conflict (sq_columnNames cfg)) False"

definition PostgresServerTimeStatementsSource :: "SqlConfiguration \<Rightarrow> SqlStatementsSource" where
  "PostgresServerTimeStatementsSource cfg =
     statements_source cfg ''INSERT INTO '' ''now()'' (on_conflict (sq_columnNames cfg)) True"

definition MsSqlServerTimeStatementsSource :: "SqlConfiguration \<Rightarrow> SqlStatementsSource" where
  "MsSqlServerTimeStatementsSource cfg = statements_source cfg ''INSERT INTO '' ''GETUTCDATE()'' [] True"

definition MySqlServerTimeStatementsSource :: "SqlConfiguration \<Rightarrow> SqlStatementsSource" where
  "MySqlServerTimeStatementsSource cfg = statements_source cfg ''INSERT INTO '' ''UTC_TIMESTAMP(3)'' [] True"

definition OracleServerTimeStatementsSource :: "SqlConfiguration \<Rightarrow> SqlStatementsSource" where
  "OracleServerTimeStatementsSource cfg = statements_source cfg ''INSERT INTO '' ''CURRENT_TIMESTAMP'' [] True"

definition HsqlServerTimeStatementsSource :: "SqlConfiguration \<Rightarrow> SqlStatementsSource" where
  "HsqlServerTimeStatementsSource cfg = statements_source cfg ''INSERT INTO '' ''CURRENT_TIMESTAMP'' [] True"

definition H2ServerTimeStatementsSource :: "SqlConfiguration \<Rightarrow> SqlStatementsSource" where
  "H2ServerTimeStatementsSource cfg = statements_source cfg ''INSERT INTO '' ''CURRENT_TIMESTAMP'' [] True"

definition Db2ServerTimeStatementsSource :: "SqlConfiguration \<Rightarrow> SqlStatementsSource" where
  "Db2ServerTimeStatementsSource cfg = statements_source cfg ''INSERT INTO '' ''CURRENT_TIMESTAMP'' [] True"

definition quoted :: "string \<Rightarrow> string" where
  "quoted s = CHR 0x27 # s @ [CHR 0x27]"

definition SqliteServerTimeStatementsSource :: "SqlConfiguration \<Rightarrow> SqlStatementsSource" where
  "SqliteServerTimeStatementsSource cfg =
     statements_source cfg ''INSERT OR IGNORE INTO ''
       (''strftime('' @ quoted ''%Y-%m-%dT%H:%M:%fZ'' @ '', '' @ quoted ''now'' @ '')'') [] True"

definition createSqlStatementsSource :: "SqlConfiguration \<Rightarrow> jsv + SqlStatementsSource" where
  "createSqlStatementsSource cfg =
     (if sq_useDbTime cfg then
        (case sq_databaseProduct cfg of
           POSTGRES \<Rightarrow> Inr (PostgresServerTimeStatementsSource cfg)
         | COCKROACH_DB \<Rightarrow> Inr (PostgresServerTimeStatementsSource cfg)
         | SQL_SERVER \<Rightarrow> Inr (MsSqlServerTimeStatementsSource cfg)
         | MYSQL \<Rightarrow> Inr (MySqlServerTimeStatementsSource cfg)
         | MARIA_DB \<Rightarrow> Inr (MySqlServerTimeStatementsSource cfg)
         | ORACLE \<Rightarrow> Inr (OracleServerTimeStatementsSource cfg)
         | HSQL \<Rightarrow> Inr (HsqlServerTimeStatementsSource cfg)
         | H2 \<Rightarrow> Inr (H2ServerTimeStatementsSource cfg)
         | DB2 \<Rightarrow> Inr (Db2ServerTimeStatementsSource cfg)
         | SQLITE \<Rightarrow> Inr (SqliteServerTimeStatementsSource cfg)
         | UNKNOWN \<Rightarrow> Inl (mk_error ''Error'' ''useDbTime not supported for UNKNOWN''))
      else if sq_databaseProduct cfg \<in> {POSTGRES, COCKROACH_DB} then Inr (PostgresSqlStatementsSource cfg)
      else Inr (DefaultSqlStatementsSource cfg))"

section \<open>Parameters of a call (sql-statements-source.ts, server-time-sql-statements-source.ts)\<close>

definition timestampFor :: "intl \<Rightarrow> SqlConfiguration \<Rightarrow> jsnum \<Rightarrow> jsv + jsv" where
  "timestampFor I cfg ms = timestamp I ms (sq_timeZone cfg)"

text \<open>Bindings in order; the first that throws decides.\<close>

fun bind_all :: "(string \<times> (jsv + jsv)) list \<Rightarrow> jsv + (string \<times> jsv) list" where
  "bind_all [] = Inr []"
| "bind_all ((k, r) # ps) = (case r of Inl e \<Rightarrow> Inl e | Inr v \<Rightarrow> map_sum id (\<lambda>qs. (k, v) # qs) (bind_all ps))"

definition previous_binding :: "intl \<Rightarrow> SqlConfiguration \<Rightarrow> jsnum option \<Rightarrow> (string \<times> (jsv + jsv)) list" where
  "previous_binding I cfg previous = (case previous of
     None \<Rightarrow> [] | Some p \<Rightarrow> [(''previousLockUntil'', timestampFor I cfg p)])"

text \<open>\<open>now1\<close> is the reading for \<open>now\<close>, \<open>now2\<close> that of \<open>unlockTime\<close>.\<close>

definition client_params ::
  "intl \<Rightarrow> SqlConfiguration \<Rightarrow> LockConfiguration \<Rightarrow> jsnum option \<Rightarrow> jsnum \<Rightarrow> jsnum \<Rightarrow> jsv + (string \<times> jsv) list" where
  "client_params I cfg lc previous now1 now2 = bind_all
     ([(''name'', Inr (JStr (cfg_name lc))), (''lockUntil'', timestampFor I cfg (lockAtMostUntil lc)),
       (''now'', timestampFor I cfg now1), (''lockedBy'', Inr (JStr (sq_lockedByValue cfg))),
       (''unlockTime'', timestampFor I cfg (unlockTime now2 lc))] @ previous_binding I cfg previous)"

definition server_params ::
  "intl \<Rightarrow> SqlConfiguration \<Rightarrow> LockConfiguration \<Rightarrow> jsnum option \<Rightarrow> jsv + (string \<times> jsv) list" where
  "server_params I cfg lc previous = bind_all
     ([(''name'', Inr (JStr (cfg_name lc))), (''lockUntil'', timestampFor I cfg (js_add (createdAt lc) (lockAtMostFor lc))),
       (''lockedBy'', Inr (JStr (sq_lockedByValue cfg))),
       (''unlockTime'', timestampFor I cfg (js_max (js_add (createdAt lc) (lockAtLeastFor lc)) (createdAt lc)))] @
      previous_binding I cfg previous)"

definition with_params ::
  "intl \<Rightarrow> SqlStatementsSource \<Rightarrow> LockConfiguration \<Rightarrow> jsnum option \<Rightarrow> ((string \<times> jsv) list \<Rightarrow> ('q, 'a) prog) \<Rightarrow> ('q, 'a) prog" where
  "with_params I src lc previous f =
     (if st_serverTime src then sync (server_params I (st_config src) lc previous) f
      else Now (\<lambda>now1. Now (\<lambda>now2. sync (client_params I (st_config src) lc previous now1 now2) f)))"


section \<open>Which parameters a statement has\<close>

fun chunk_names :: "chunk list \<Rightarrow> string list" where
  "chunk_names [] = []"
| "chunk_names (Text c # cs) = chunk_names cs"
| "chunk_names (Param n # cs) = n # chunk_names cs"

definition sql_names :: "string \<Rightarrow> string list" where
  "sql_names s = chunk_names (sql_chunks s)"

lemma sql_names_simps [simp]:
  "sql_names [] = []"
  "c \<noteq> CHR '':'' \<Longrightarrow> sql_names (c # s) = sql_names s"
  "is_id_start c \<Longrightarrow> sql_names (CHR '':'' # c # s) = takeWhile is_id_char (c # s) # sql_names (dropWhile is_id_char (c # s))"
  "\<not> is_id_start c \<Longrightarrow> sql_names (CHR '':'' # c # s) = sql_names (c # s)"
  by (simp_all add: sql_names_def)

lemma sql_names_plain: "CHR '':'' \<notin> set s \<Longrightarrow> sql_names (s @ r) = sql_names r"
  by (induction s) auto

lemma sql_names_plain' [simp]: "CHR '':'' \<notin> set s \<Longrightarrow> sql_names s = []"
  using sql_names_plain [of s "[]"] by simp

text \<open>A parameter before a separator, and at the end.\<close>

lemma sql_names_param:
  assumes "IDENTIFIER_RE_test n" "r = [] \<or> \<not> is_id_char (hd r)"
  shows "sql_names (CHR '':'' # n @ r) = n # sql_names r"
proof -
  obtain c s where n: "n = c # s" "is_id_start c" "list_all (\<lambda>x. is_id_start x \<or> is_digit x) s"
    using assms(1) by (auto simp: IDENTIFIER_RE_test_def split: list.splits)
  have all: "\<forall>x \<in> set n. is_id_char x" using n by (auto simp: is_id_char_def list_all_iff)
  have "takeWhile is_id_char r = [] \<and> dropWhile is_id_char r = r" using assms(2) by (cases r) auto
  then have "takeWhile is_id_char (n @ r) = n" "dropWhile is_id_char (n @ r) = r"
    using all by (simp_all add: takeWhile_append2 dropWhile_append2)
  then show ?thesis using n(2) unfolding n(1) by simp
qed

lemma id_start_plain: "is_id_start c \<or> is_digit c \<Longrightarrow> c \<noteq> CHR '':''"
  by (auto simp: is_id_start_def is_digit_def Let_def)

lemma identifier_no_colon: "IDENTIFIER_RE_test s \<Longrightarrow> CHR '':'' \<notin> set s"
  using id_start_plain by (auto simp: IDENTIFIER_RE_test_def list_all_iff split: list.splits)

lemma upper_no_colon: "CHR '':'' \<notin> set s \<Longrightarrow> CHR '':'' \<notin> set (toUpperCase s)"
proof -
  have "upper_char c \<noteq> CHR '':''" if "c \<noteq> CHR '':''" for c
  proof
    assume u: "upper_char c = CHR '':''"
    then have "(of_char (upper_char c) :: nat) = 58" by simp
    moreover have "(of_char c :: nat) \<noteq> of_char (CHR '':'')" using that by (simp only: of_char_nat_inj) simp
    then have "(of_char c :: nat) \<noteq> 58" by simp
    ultimately show False by (auto simp: upper_char_def Let_def split: if_splits)
  qed
  then show "CHR '':'' \<notin> set s \<Longrightarrow> CHR '':'' \<notin> set (toUpperCase s)" by (metis (no_types, lifting) imageE list.set_map)
qed



text \<open>The parameters of the four statements, for names without a colon.\<close>

definition plain_names :: "string \<Rightarrow> ColumnNames \<Rightarrow> bool" where
  "plain_names t c \<longleftrightarrow> CHR '':'' \<notin> set t \<and> CHR '':'' \<notin> set (cn_name c) \<and> CHR '':'' \<notin> set (cn_lockUntil c) \<and>
     CHR '':'' \<notin> set (cn_lockedAt c) \<and> CHR '':'' \<notin> set (cn_lockedBy c)"

lemma names_insert:
  assumes "plain_names t c" "CHR '':'' \<notin> set into" "CHR '':'' \<notin> set suffix" "suffix = [] \<or> hd suffix = CHR '' ''"
    and "now = '':now'' \<or> (\<forall>r. sql_names (now @ r) = sql_names r)"
  shows "sql_names (insert_sql into t c now suffix) =
    [''name'', ''lockUntil''] @ (if now = '':now'' then [''now''] else []) @ [''lockedBy'']"
proof -
  have "sql_names (now @ '', :lockedBy)'' @ suffix) = (if now = '':now'' then [''now''] else []) @ [''lockedBy'']"
    using assms(3-5) by (auto simp: is_id_char_def is_id_start_def is_digit_def)
  then show ?thesis
    using assms(1,2) by (simp add: insert_sql_def plain_names_def sql_names_plain is_id_char_def is_id_start_def is_digit_def)
qed

lemma names_update:
  assumes "plain_names t c" "now = '':now'' \<or> (\<forall>r. sql_names (now @ r) = sql_names r)"
  shows "set (sql_names (update_sql t c now)) \<subseteq> {''lockUntil'', ''lockedBy'', ''name''} \<union> (if now = '':now'' then {''now''} else {})"
proof -
  have e: "sql_names now = (if now = '':now'' then [''now''] else [])"
    using assms(2) by (auto simp: is_id_char_def is_id_start_def is_digit_def dest: spec [of _ "[]"])
  have n: "sql_names (now @ '', '' @ r) = (if now = '':now'' then [''now''] else []) @ sql_names r" for r
    using assms(2) by (auto simp: is_id_char_def is_id_start_def is_digit_def)
  show ?thesis
    using assms(1) by (simp add: update_sql_def plain_names_def sql_names_plain is_id_char_def is_id_start_def is_digit_def
        n [simplified] e)
qed
lemma names_extend:
  assumes "plain_names t c" "now = '':now'' \<or> (\<forall>r. sql_names (now @ r) = sql_names r)"
  shows "set (sql_names (extend_sql t c now)) \<subseteq>
    {''lockUntil'', ''lockedBy'', ''name'', ''previousLockUntil''} \<union> (if now = '':now'' then {''now''} else {})"
proof -
  have n: "sql_names (now @ '' AND '' @ r) = (if now = '':now'' then [''now''] else []) @ sql_names r" for r
    using assms(2) by (auto simp: is_id_char_def is_id_start_def is_digit_def)
  show ?thesis
    using assms(1) by (simp add: extend_sql_def plain_names_def sql_names_plain is_id_char_def is_id_start_def is_digit_def
        n [simplified])
qed

lemma names_unlock:
  assumes "plain_names t c"
  shows "set (sql_names (unlock_sql t c)) \<subseteq> {''unlockTime'', ''lockedBy'', ''name'', ''lockUntil''}"
  using assms by (simp add: unlock_sql_def plain_names_def sql_names_plain is_id_char_def is_id_start_def is_digit_def)

lemma replace_chunks_total:
  "set (chunk_names cs) \<subseteq> fst ` set params \<Longrightarrow> \<exists>t v. replace_chunks params rend seen counter vals cs = Inr (t, v)"
proof (induction cs arbitrary: seen counter vals)
  case (Cons ch cs)
  show ?case
  proof (cases ch)
    case (Text c)
    then show ?thesis using Cons.IH [of seen counter vals] Cons.prems by auto
  next
    case (Param n)
    then obtain x where x: "map_of params n = Some x"
      using Cons.prems by (cases "map_of params n") (auto simp: map_of_eq_None_iff)
    have "set (chunk_names cs) \<subseteq> fst ` set params" using Cons.prems Param by simp
    then have IH: "\<exists>t v. replace_chunks params rend s k w cs = Inr (t, v)" for s k w by (rule Cons.IH)
    show ?thesis
    proof (cases "seen n")
      case None
      then show ?thesis using IH [of "seen(n \<mapsto> counter + 1)" "counter + 1" "vals @ [x]"] Param x by auto
    next
      case (Some k)
      then show ?thesis using IH [of seen counter "if rend n k = ''?'' then vals @ [x] else vals"] Param x by auto
    qed
  qed
qed simp

lemma map_sum_Inr: "map_sum id f x = Inr y \<longleftrightarrow> (\<exists>z. x = Inr z \<and> y = f z)"
  by (cases x) auto

lemma bind_all_keys: "bind_all bs = Inr ps \<Longrightarrow> map fst ps = map fst bs"
  by (induction bs arbitrary: ps) (auto simp: map_sum_Inr split: sum.splits)

text \<open>A source of the shape \<open>statements_source\<close> whose expression for the time has no parameter, or is \<open>:now\<close>.\<close>

definition standard_source :: "SqlConfiguration \<Rightarrow> SqlStatementsSource \<Rightarrow> bool" where
  "standard_source cfg src \<longleftrightarrow> (\<exists>into now suffix. src = statements_source cfg into now suffix (now \<noteq> '':now'') \<and>
     CHR '':'' \<notin> set into \<and> (suffix = [] \<or> suffix = on_conflict (sq_columnNames cfg)) \<and>
     (now = '':now'' \<or> (\<forall>r. sql_names (now @ r) = sql_names r)))"

lemma standard_client:
  "suffix = [] \<or> suffix = on_conflict (sq_columnNames cfg) \<Longrightarrow>
   standard_source cfg (statements_source cfg ''INSERT INTO '' '':now'' suffix False)"
  unfolding standard_source_def
  by (rule exI [of _ "''INSERT INTO ''"], rule exI [of _ "'':now''"], rule exI [of _ suffix]) simp

lemma standard_server:
  "CHR '':'' \<notin> set into \<Longrightarrow> suffix = [] \<or> suffix = on_conflict (sq_columnNames cfg) \<Longrightarrow> now \<noteq> '':now'' \<Longrightarrow>
   \<forall>r. sql_names (now @ r) = sql_names r \<Longrightarrow> standard_source cfg (statements_source cfg into now suffix True)"
  unfolding standard_source_def
  by (rule exI [of _ into], rule exI [of _ now], rule exI [of _ suffix]) simp

lemma sqlite_now: "sql_names ((''strftime('' @ quoted ''%Y-%m-%dT%H:%M:%fZ'' @ '', '' @ quoted ''now'' @ '')'') @ r) = sql_names r"
  by (simp add: quoted_def is_id_start_def)

lemmas source_defs = PostgresServerTimeStatementsSource_def MsSqlServerTimeStatementsSource_def MySqlServerTimeStatementsSource_def
  OracleServerTimeStatementsSource_def HsqlServerTimeStatementsSource_def H2ServerTimeStatementsSource_def
  Db2ServerTimeStatementsSource_def SqliteServerTimeStatementsSource_def PostgresSqlStatementsSource_def DefaultSqlStatementsSource_def

lemma sources_standard:
  "standard_source cfg (PostgresServerTimeStatementsSource cfg)" "standard_source cfg (MsSqlServerTimeStatementsSource cfg)"
  "standard_source cfg (MySqlServerTimeStatementsSource cfg)" "standard_source cfg (OracleServerTimeStatementsSource cfg)"
  "standard_source cfg (HsqlServerTimeStatementsSource cfg)" "standard_source cfg (H2ServerTimeStatementsSource cfg)"
  "standard_source cfg (Db2ServerTimeStatementsSource cfg)" "standard_source cfg (SqliteServerTimeStatementsSource cfg)"
  "standard_source cfg (PostgresSqlStatementsSource cfg)" "standard_source cfg (DefaultSqlStatementsSource cfg)"
  unfolding source_defs
  by (rule standard_server; simp add: sqlite_now [simplified] quoted_def is_id_start_def | rule standard_client; simp)+

lemma createSqlStatementsSource_standard: "createSqlStatementsSource cfg = Inr src \<Longrightarrow> standard_source cfg src"
  unfolding createSqlStatementsSource_def
  by (cases "sq_databaseProduct cfg") (auto simp: sources_standard split: if_splits)

lemma new_SqlConfiguration_plain:
  assumes "new_SqlConfiguration host product table columns lockedBy tz dbTime = Inr cfg"
  shows "plain_names (sq_tableName cfg) (sq_columnNames cfg)"
proof -
  note valid = assms [unfolded new_SqlConfiguration_def Let_def also_check_Inr validateIdentifier_Inr]
  have "plain_names (opt_or table ''shedlock'')
      \<lparr>cn_name = opt_or (columns ''name'') ''name'', cn_lockUntil = opt_or (columns ''lockUntil'') ''lockUntil'',
       cn_lockedAt = opt_or (columns ''lockedAt'') ''lockedAt'', cn_lockedBy = opt_or (columns ''lockedBy'') ''lockedBy''\<rparr>"
    using valid identifier_no_colon by (auto simp: plain_names_def)
  then show ?thesis
    using valid upper_no_colon by (auto simp: plain_names_def upper_columns_def split: if_splits)
qed

definition call_params ::
  "intl \<Rightarrow> SqlStatementsSource \<Rightarrow> LockConfiguration \<Rightarrow> jsnum option \<Rightarrow> jsnum \<Rightarrow> jsnum \<Rightarrow> jsv + (string \<times> jsv) list" where
  "call_params I src lc previous now1 now2 =
     (if st_serverTime src then server_params I (st_config src) lc previous
      else client_params I (st_config src) lc previous now1 now2)"

lemma call_params_keys:
  assumes "call_params I src lc previous now1 now2 = Inr ps"
  shows "{''name'', ''lockUntil'', ''lockedBy'', ''unlockTime''} \<union> (if st_serverTime src then {} else {''now''}) \<union>
    (if previous = None then {} else {''previousLockUntil''}) \<subseteq> fst ` set ps"
proof -
  have keys: "fst ` set ps = fst ` set bs" if "bind_all bs = Inr ps" for bs
    using arg_cong [where f = set, OF bind_all_keys [OF that]] by simp
  show ?thesis
  proof (cases "st_serverTime src")
    case True
    with assms have "server_params I (st_config src) lc previous = Inr ps" by (simp add: call_params_def)
    note eq = keys [OF this [unfolded server_params_def]]
    show ?thesis unfolding eq using True by (cases previous) (simp_all add: previous_binding_def)
  next
    case False
    with assms have "client_params I (st_config src) lc previous now1 now2 = Inr ps" by (simp add: call_params_def)
    note eq = keys [OF this [unfolded client_params_def]]
    show ?thesis unfolding eq using False by (cases previous) (simp_all add: previous_binding_def)
  qed
qed

text \<open>
  C30: No statement is ever run with a parameter that is not bound: for every configuration the constructor accepts, every
  product, client and server time, the insert, update and unlock statements translate with the parameters of the call, and so does
  extend when the previous deadline is given.
\<close>

theorem Sql_statements_bound:
  assumes "new_SqlConfiguration host product table columns lockedBy tz dbTime = Inr cfg"
    and "createSqlStatementsSource cfg = Inr src"
    and "call_params I src lc previous now1 now2 = Inr ps"
    and "statement \<in> {st_insert src, st_update src, st_unlock src} \<or> statement = st_extend src \<and> previous \<noteq> None"
  shows "\<exists>text vals. replaceNamedParams statement ps rend = Inr (text, vals)"
proof -
  let ?c = "sq_columnNames cfg" and ?t = "sq_tableName cfg"
  have plain: "plain_names ?t ?c" by (rule new_SqlConfiguration_plain [OF assms(1)])
  from createSqlStatementsSource_standard [OF assms(2)] obtain into now suffix where
    src: "src = statements_source cfg into now suffix (now \<noteq> '':now'')" and into: "CHR '':'' \<notin> set into"
    and suffix: "suffix = [] \<or> suffix = on_conflict ?c" and now: "now = '':now'' \<or> (\<forall>r. sql_names (now @ r) = sql_names r)"
    unfolding standard_source_def by blast
  have s: "CHR '':'' \<notin> set suffix" "suffix = [] \<or> hd suffix = CHR '' ''"
    using suffix plain by (auto simp: on_conflict_def plain_names_def)
  define K where "K = fst ` set ps"
  have server: "st_serverTime src = (now \<noteq> '':now'')" by (simp add: src statements_source_def Let_def)
  note keys = call_params_keys [OF assms(3), folded K_def, unfolded server]
  have "set (sql_names (st_insert src)) \<subseteq> K"
    using keys names_insert [OF plain into s now] by (auto simp: src statements_source_def Let_def split: if_splits)
  moreover have "set (sql_names (st_update src)) \<subseteq> K"
    using keys names_update [OF plain now] by (auto simp: src statements_source_def Let_def split: if_splits)
  moreover have "set (sql_names (st_extend src)) \<subseteq> K" if "previous \<noteq> None"
    using that keys names_extend [OF plain now] by (auto simp: src statements_source_def Let_def split: if_splits)
  moreover have "set (sql_names (st_unlock src)) \<subseteq> K"
    using keys names_unlock [OF plain] by (auto simp: src statements_source_def Let_def split: if_splits)
  ultimately have "set (sql_names statement) \<subseteq> fst ` set ps" using assms(4) unfolding K_def by blast
  then show ?thesis
    using replace_chunks_total unfolding replaceNamedParams_def sql_names_def by blast
qed

definition demo_sql :: SqlConfiguration where
  "demo_sql = \<lparr>sq_databaseProduct = POSTGRES, sq_tableName = ''shedlock'',
     sq_columnNames = \<lparr>cn_name = ''name'', cn_lockUntil = ''lockUntil'', cn_lockedAt = ''lockedAt'', cn_lockedBy = ''lockedBy''\<rparr>,
     sq_lockedByValue = ''host'', sq_timeZone = None, sq_useDbTime = False\<rparr>"

lemma demo_sql_new: "new_SqlConfiguration ''host'' POSTGRES None (\<lambda>_. None) None None None = Inr demo_sql"
  by code_simp

theorem Sql_statements_bound_witness:
  "\<exists>ps text vals. client_params \<lparr>in_parts = (\<lambda>_ _. Inl JUndef), in_offset = (\<lambda>_ _. Inl JUndef)\<rparr> demo_sql job_config None
       (Fin 5) (Fin 5) = Inr ps \<and>
     translateNamedParams (st_update (PostgresSqlStatementsSource demo_sql)) ps (\<lambda>_. ''?'') = Inr (text, vals)"
proof -
  let ?I = "\<lparr>in_parts = (\<lambda>_ _. Inl JUndef), in_offset = (\<lambda>_ _. Inl JUndef)\<rparr>" and ?src = "PostgresSqlStatementsSource demo_sql"
  have src: "createSqlStatementsSource demo_sql = Inr ?src" by (simp add: createSqlStatementsSource_def demo_sql_def)
  obtain ps where ps: "client_params ?I demo_sql job_config None (Fin 5) (Fin 5) = Inr ps"
    by (simp add: client_params_def previous_binding_def timestampFor_def timestamp_def demo_sql_def)
  then have c: "call_params ?I ?src job_config None (Fin 5) (Fin 5) = Inr ps"
    by (simp add: call_params_def PostgresSqlStatementsSource_def statements_source_def Let_def)
  have "\<exists>text vals. replaceNamedParams (st_update ?src) ps (\<lambda>_ _. ''?'') = Inr (text, vals)"
    by (rule Sql_statements_bound [OF demo_sql_new src c]) simp
  with ps show ?thesis unfolding translateNamedParams_def by blast
qed

text \<open>
  Numbered placeholders: positions of the first occurrences.
\<close>

fun firsts :: "string list \<Rightarrow> string list \<Rightarrow> string list" where
  "firsts acc [] = acc"
| "firsts acc (n # ns) = firsts (if n \<in> set acc then acc else acc @ [n]) ns"

definition position_in :: "string list \<Rightarrow> string \<Rightarrow> nat" where
  "position_in ns n = length (takeWhile (\<lambda>m. m \<noteq> n) ns)"

fun render_chunks :: "(string \<Rightarrow> string) \<Rightarrow> chunk list \<Rightarrow> string" where
  "render_chunks f [] = []"
| "render_chunks f (Text c # cs) = c # render_chunks f cs"
| "render_chunks f (Param n # cs) = f n @ render_chunks f cs"

lemma position_append: "n \<in> set acc \<Longrightarrow> position_in (acc @ xs) n = position_in acc n"
  by (simp add: position_in_def takeWhile_append1 [of n])

lemma position_snoc: "n \<notin> set acc \<Longrightarrow> position_in (acc @ [n]) n = length acc"
proof -
  assume "n \<notin> set acc"
  then have "takeWhile (\<lambda>m. m \<noteq> n) (acc @ [n]) = acc @ takeWhile (\<lambda>m. m \<noteq> n) [n]"
    by (intro takeWhile_append2) auto
  then show ?thesis by (simp add: position_in_def)
qed

lemma position_nth: "n \<in> set acc \<Longrightarrow> position_in acc n < length acc \<and> acc ! position_in acc n = n"
  by (induction acc) (auto simp: position_in_def)

lemma firsts_prefix: "\<exists>xs. firsts acc ns = acc @ xs"
proof (induction acc ns rule: firsts.induct)
  case (2 acc n ns)
  then show ?case by (auto split: if_splits)
qed simp

lemma firsts_position: "n \<in> set acc \<Longrightarrow> position_in (firsts acc ns) n = position_in acc n"
  using firsts_prefix [of acc ns] position_append by auto

lemma set_firsts: "set (firsts acc ns) = set acc \<union> set ns"
  by (induction acc ns rule: firsts.induct) auto

text \<open>\<open>seen\<close> and \<open>counter\<close> while the names \<open>acc\<close> have been met.\<close>

definition seen_of :: "string list \<Rightarrow> string \<Rightarrow> nat option" where
  "seen_of acc n = (if n \<in> set acc then Some (position_in acc n + 1) else None)"

lemma seen_of_eq:
  "n \<in> set acc \<Longrightarrow> seen_of acc n = Some (position_in acc n + 1)" "n \<notin> set acc \<Longrightarrow> seen_of acc n = None"
  by (simp_all add: seen_of_def)

lemma seen_of_Nil: "seen_of [] = (\<lambda>_. None)"
  by (simp add: seen_of_def fun_eq_iff)

lemma seen_of_snoc: "n \<notin> set acc \<Longrightarrow> (seen_of acc)(n \<mapsto> length acc + 1) = seen_of (acc @ [n])"
  by (auto simp: seen_of_def fun_eq_iff position_snoc position_append)

definition bound_value :: "(string \<times> jsv) list \<Rightarrow> string \<Rightarrow> jsv" where
  "bound_value params n = (case map_of params n of None \<Rightarrow> JUndef | Some v \<Rightarrow> v)"

lemma replace_chunks_numbered:
  assumes "\<And>n k. rend n k \<noteq> ''?''" "set (chunk_names cs) \<subseteq> fst ` set params"
  shows "replace_chunks params rend (seen_of acc) (length acc) (map (bound_value params) acc) cs =
    Inr (render_chunks (\<lambda>n. rend n (position_in (firsts acc (chunk_names cs)) n + 1)) cs,
         map (bound_value params) (firsts acc (chunk_names cs)))"
  using assms(2)
proof (induction cs arbitrary: acc)
  case (Cons ch cs)
  show ?case
  proof (cases ch)
    case (Text c)
    then show ?thesis using Cons.IH [of acc] Cons.prems by simp
  next
    case (Param n)
    then obtain x where x: "map_of params n = Some x"
      using Cons.prems by (cases "map_of params n") (auto simp: map_of_eq_None_iff)
    then have bv: "bound_value params n = x" by (simp add: bound_value_def)
    have sub: "set (chunk_names cs) \<subseteq> fst ` set params" using Cons.prems Param by simp
    show ?thesis
    proof (cases "n \<in> set acc")
      case True
      then show ?thesis
        using Cons.IH [OF sub, of acc] Param x assms(1) by (simp add: seen_of_eq firsts_position)
    next
      case False
      then have "replace_chunks params rend ((seen_of acc)(n \<mapsto> length acc + 1)) (length acc + 1)
          (map (bound_value params) acc @ [x]) cs =
        Inr (render_chunks (\<lambda>m. rend m (position_in (firsts (acc @ [n]) (chunk_names cs)) m + 1)) cs,
         map (bound_value params) (firsts (acc @ [n]) (chunk_names cs)))"
        using Cons.IH [OF sub, of "acc @ [n]"] bv by (simp add: seen_of_snoc [simplified])
      then show ?thesis
        using Param x False by (simp add: seen_of_eq firsts_position position_snoc del: fun_upd_apply)
    qed
  qed
qed simp

lemma replace_chunks_marks:
  assumes "set (chunk_names cs) \<subseteq> fst ` set params"
  shows "replace_chunks params (\<lambda>_ _. ''?'') seen counter vals cs =
    Inr (render_chunks (\<lambda>n. ''?'') cs, vals @ map (bound_value params) (chunk_names cs))"
  using assms
proof (induction cs arbitrary: seen counter vals)
  case (Cons ch cs)
  show ?case
  proof (cases ch)
    case (Text c)
    then show ?thesis using Cons.IH [of seen counter vals] Cons.prems by simp
  next
    case (Param n)
    then obtain x where x: "map_of params n = Some x"
      using Cons.prems by (cases "map_of params n") (auto simp: map_of_eq_None_iff)
    then have bv: "bound_value params n = x" by (simp add: bound_value_def)
    have "set (chunk_names cs) \<subseteq> fst ` set params" using Cons.prems Param by simp
    note IH = Cons.IH [OF this]
    show ?thesis
      by (cases "seen n") (simp_all add: Param x bv IH del: fun_upd_apply)
  qed
qed simp

lemma replace_chunks_bound:
  "replace_chunks params rend seen counter vals cs = Inr r \<Longrightarrow> set (chunk_names cs) \<subseteq> fst ` set params"
proof (induction cs arbitrary: seen counter vals r)
  case (Cons ch cs)
  show ?case
  proof (cases ch)
    case (Text c)
    then show ?thesis using Cons.IH [of seen counter vals] Cons.prems by (auto simp: map_sum_Inr)
  next
    case (Param n)
    with Cons.prems obtain x where x: "map_of params n = Some x" by (cases "map_of params n") auto
    then have "n \<in> fst ` set params" by (force dest: map_of_SomeD)
    moreover have "\<exists>s k w r'. replace_chunks params rend s k w cs = Inr r'"
      using Cons.prems Param x by (cases "seen n") (simp_all add: map_sum_Inr del: fun_upd_apply, blast+)
    then have "set (chunk_names cs) \<subseteq> fst ` set params" using Cons.IH by blast
    ultimately show ?thesis by (simp add: Param)
  qed
qed simp

lemma translate_bound:
  "translateNamedParams sql params placeholder = Inr r \<Longrightarrow> set (sql_names sql) \<subseteq> fst ` set params"
  unfolding translateNamedParams_def replaceNamedParams_def sql_names_def by (rule replace_chunks_bound)

end
