(* ===== verification/SqlProviders.thy ===== *)
theory SqlProviders
  imports Sql
begin

text \<open>
  packages/sql, kysely and drizzle: connections to the drivers, dialects, and the storage accessors that run the statements of
  theory Sql.  A driver's answer is a value; \<open>bigint\<close> counts are numbers.
\<close>

section \<open>Connections (packages/sql/src/connections)\<close>

datatype sql_req =
    PgQuery string "jsv list"
  | Mysql2Query string "jsv list option"
  | MssqlQuery string "(string \<times> bool \<times> jsv) list"
  | ImportMssql

record 'q SqlConnection =
  conn_query :: "string \<Rightarrow> (string \<times> jsv) list \<Rightarrow> ('q, jsv) prog"
  conn_isDuplicateKeyError :: "jsv \<Rightarrow> bool"
  conn_product :: DatabaseProduct

text \<open>\<open>affectedRows > 0\<close>.\<close>

definition some_rows :: "jsv \<Rightarrow> bool" where
  "some_rows n \<longleftrightarrow> js_lt (Fin 0) (js_Number n)"

definition numbered :: "nat \<Rightarrow> string" where
  "numbered i = CHR ''$'' # show_nat i"

definition pg_query :: "string \<Rightarrow> (string \<times> jsv) list \<Rightarrow> (sql_req, jsv) prog" where
  "pg_query sql params = sync (translateNamedParams sql params numbered) (\<lambda>(pgSql, vals).
     request (PgQuery pgSql vals) (\<lambda>result. sync (prop_of result ''rowCount'') (\<lambda>n. Ret (nullish n (JNum (Fin 0))))))"

definition pg_isDuplicateKeyError :: "jsv \<Rightarrow> bool" where
  "pg_isDuplicateKeyError e \<longleftrightarrow> is_object e \<and> jget e ''code'' = JStr ''23505''"

definition PgConnection :: "sql_req SqlConnection" where
  "PgConnection = \<lparr>conn_query = pg_query, conn_isDuplicateKeyError = pg_isDuplicateKeyError, conn_product = POSTGRES\<rparr>"

text \<open>\<open>x?.k\<close> is \<open>jget\<close>; \<open>x[0]\<close> of an array.\<close>

definition first_of :: "jsv \<Rightarrow> jsv" where
  "first_of v = (case v of JArr (x # xs) \<Rightarrow> x | _ \<Rightarrow> JUndef)"

definition is_array :: "jsv \<Rightarrow> bool" where
  "is_array v \<longleftrightarrow> (case v of JArr _ \<Rightarrow> True | _ \<Rightarrow> False)"

definition mysql2_version_row :: "jsv \<Rightarrow> jsv + jsv" where
  "mysql2_version_row result =
     (if is_array result then Inr (if is_array (first_of result) then first_of (first_of result) else first_of result)
      else map_sum id first_of (prop_of result ''rows''))"

text \<open>\<open>Mysql2Connection.create\<close>: the product the server names.\<close>

definition mysql2_create :: "(sql_req, DatabaseProduct) prog" where
  "mysql2_create = request (Mysql2Query ''SELECT VERSION() AS version'' None) (\<lambda>result.
     sync (mysql2_version_row result) (\<lambda>firstRow.
       let version = toLowerCase (js_String (nullish (jget firstRow ''version'') (JStr []))) in
       Ret (if str_includes version ''mariadb'' then MARIA_DB else MYSQL)))"

definition mysql2_query :: "string \<Rightarrow> (string \<times> jsv) list \<Rightarrow> (sql_req, jsv) prog" where
  "mysql2_query sql params = sync (translateNamedParams sql params (\<lambda>_. ''?'')) (\<lambda>(mysqlSql, vals).
     request (Mysql2Query mysqlSql (Some vals)) (\<lambda>result.
       let row = (if is_array result then (if is_array (first_of result) then first_of (first_of result) else first_of result)
                  else result)
       in Ret (nullish (jget row ''affectedRows'') (JNum (Fin 0)))))"

definition mysql2_isDuplicateKeyError :: "jsv \<Rightarrow> bool" where
  "mysql2_isDuplicateKeyError e \<longleftrightarrow> is_object e \<and>
     (strict_eq (jget e ''errno'') (JNum (Fin 1062)) \<or> jget e ''code'' = JStr ''ER_DUP_ENTRY'')"

definition Mysql2Connection :: "DatabaseProduct \<Rightarrow> sql_req SqlConnection" where
  "Mysql2Connection product = \<lparr>conn_query = mysql2_query, conn_isDuplicateKeyError = mysql2_isDuplicateKeyError,
     conn_product = product\<rparr>"

text \<open>
  The inputs of an mssql request: a date is passed with the type \<open>DateTime2(3)\<close>, whose factory is loaded once (\<open>loaded\<close> is the module
  variable).
\<close>

definition is_function :: "jsv \<Rightarrow> bool" where
  "is_function v \<longleftrightarrow> (case v of JObj c _ \<Rightarrow> c = ''Function'' | _ \<Rightarrow> False)"

definition datetime2Parameter :: "bool \<Rightarrow> (sql_req, bool) prog" where
  "datetime2Parameter loaded =
     (if loaded then Ret True
      else request ImportMssql (\<lambda>m.
        let factory = nullish (jget m ''DateTime2'') (jget (jget m ''default'') ''DateTime2'') in
        if \<not> is_function factory then Raise (mk_error ''Error'' ''mssql does not export DateTime2'') else Ret True))"

fun mssql_inputs ::
  "bool \<Rightarrow> (string \<times> jsv) list \<Rightarrow> ((string \<times> bool \<times> jsv) list \<Rightarrow> (sql_req, 'a) prog) \<Rightarrow> (sql_req, 'a) prog" where
  "mssql_inputs loaded [] f = f []"
| "mssql_inputs loaded ((name, v) # ps) f = (case v of
     JDate d \<Rightarrow> await (datetime2Parameter loaded) (\<lambda>l. mssql_inputs l ps (\<lambda>is. f ((name, True, v) # is)))
   | _ \<Rightarrow> mssql_inputs loaded ps (\<lambda>is. f ((name, False, v) # is)))"

definition mssql_query :: "bool \<Rightarrow> string \<Rightarrow> (string \<times> jsv) list \<Rightarrow> (sql_req, jsv) prog" where
  "mssql_query loaded sql params = sync (prefixNamedParams sql params ''@'') (\<lambda>(mssqlSql, namedParams).
     mssql_inputs loaded namedParams (\<lambda>is.
       request (MssqlQuery mssqlSql is) (\<lambda>result. sync (prop_of result ''rowsAffected'') (\<lambda>r.
         Ret (nullish (first_of (nullish r (JArr [JNum (Fin 0)]))) (JNum (Fin 0)))))))"

definition mssql_isDuplicateKeyError :: "jsv \<Rightarrow> bool" where
  "mssql_isDuplicateKeyError e \<longleftrightarrow> is_object e \<and>
     (strict_eq (jget e ''number'') (JNum (Fin 2627)) \<or> strict_eq (jget e ''number'') (JNum (Fin 2601)))"

definition MssqlConnection :: "bool \<Rightarrow> sql_req SqlConnection" where
  "MssqlConnection loaded = \<lparr>conn_query = mssql_query loaded, conn_isDuplicateKeyError = mssql_isDuplicateKeyError,
     conn_product = SQL_SERVER\<rparr>"

section \<open>The accessor of packages/sql (sql-storage-accessor.ts)\<close>

definition Sql_insertRecord :: "intl \<Rightarrow> 'q SqlConnection \<Rightarrow> SqlStatementsSource \<Rightarrow> LockConfiguration \<Rightarrow> ('q, bool) prog" where
  "Sql_insertRecord I conn src config = with_params I src config None (\<lambda>params.
     catching (await (conn_query conn (st_insert src) params) (\<lambda>n. Ret (some_rows n)))
       (\<lambda>e. if conn_isDuplicateKeyError conn e then Ret False else Raise e))"

definition Sql_updateRecord :: "intl \<Rightarrow> 'q SqlConnection \<Rightarrow> SqlStatementsSource \<Rightarrow> LockConfiguration \<Rightarrow> ('q, bool) prog" where
  "Sql_updateRecord I conn src config = with_params I src config None (\<lambda>params.
     await (conn_query conn (st_update src) params) (\<lambda>n. Ret (some_rows n)))"

definition Sql_unlock :: "intl \<Rightarrow> 'q SqlConnection \<Rightarrow> SqlStatementsSource \<Rightarrow> LockConfiguration \<Rightarrow> ('q, unit) prog" where
  "Sql_unlock I conn src config = with_params I src config None (\<lambda>params.
     await (conn_query conn (st_unlock src) params) (\<lambda>_. Ret ()))"

definition Sql_extend ::
  "intl \<Rightarrow> 'q SqlConnection \<Rightarrow> SqlStatementsSource \<Rightarrow> LockConfiguration \<Rightarrow> jsnum option \<Rightarrow> ('q, bool) prog" where
  "Sql_extend I conn src config previous = (case previous of
     None \<Rightarrow> Ret False
   | Some p \<Rightarrow> with_params I src config (Some p) (\<lambda>params.
       await (conn_query conn (st_extend src) params) (\<lambda>n. Ret (some_rows n))))"

definition SqlStorageAccessor :: "intl \<Rightarrow> 'q SqlConnection \<Rightarrow> SqlStatementsSource \<Rightarrow> 'q StorageAccessor" where
  "SqlStorageAccessor I conn src =
     \<lparr>acc_insertRecord = Sql_insertRecord I conn src, acc_updateRecord = Sql_updateRecord I conn src,
      acc_unlock = Sql_unlock I conn src, acc_extend = Sql_extend I conn src\<rparr>"

text \<open>\<open>new SqlLockProvider\<close>.\<close>

definition SqlLockProvider :: "intl \<Rightarrow> 'q SqlConnection \<Rightarrow> SqlConfiguration \<Rightarrow> jsv + 'q StorageAccessor" where
  "SqlLockProvider I conn cfg = map_sum id (SqlStorageAccessor I conn) (createSqlStatementsSource cfg)"

section \<open>Kysely (packages/kysely/src)\<close>

datatype kysely_dialect = Postgresql | Mysql | Sqlite

datatype kysely_req = ExecuteQuery string "jsv list"

definition unique_failed :: "jsv \<Rightarrow> bool" where
  "unique_failed e \<longleftrightarrow> is_object e \<and> str_includes (str_of (nullish (jget e ''message'') (JStr []))) ''UNIQUE constraint failed''"

definition kysely_isDuplicateKeyError :: "kysely_dialect \<Rightarrow> jsv \<Rightarrow> bool" where
  "kysely_isDuplicateKeyError d e = (case d of
     Postgresql \<Rightarrow> is_object e \<and> jget e ''code'' = JStr ''23505''
   | Mysql \<Rightarrow> is_object e \<and> strict_eq (jget e ''errno'') (JNum (Fin 1062))
   | Sqlite \<Rightarrow> unique_failed e)"

definition kysely_translateParams :: "kysely_dialect \<Rightarrow> string \<Rightarrow> (string \<times> jsv) list \<Rightarrow> jsv + (string \<times> jsv list)" where
  "kysely_translateParams d sql params = translateNamedParams sql params (case d of Postgresql \<Rightarrow> numbered | _ \<Rightarrow> (\<lambda>_. ''?''))"

definition kysely_numAffectedRows :: "jsv \<Rightarrow> jsv" where
  "kysely_numAffectedRows result =
     (if \<not> is_object result then JNum (Fin 0) else nullish (jget result ''numAffectedRows'') (JNum (Fin 0)))"

definition kysely_run :: "kysely_dialect \<Rightarrow> string \<Rightarrow> (string \<times> jsv) list \<Rightarrow> (kysely_req, jsv) prog" where
  "kysely_run d sqlText params = sync (kysely_translateParams d sqlText params) (\<lambda>(sql, vals). request (ExecuteQuery sql vals) Ret)"

definition Kysely_insertRecord :: "intl \<Rightarrow> kysely_dialect \<Rightarrow> SqlStatementsSource \<Rightarrow> LockConfiguration \<Rightarrow> (kysely_req, bool) prog" where
  "Kysely_insertRecord I d src config = with_params I src config None (\<lambda>params.
     catching (await (kysely_run d (st_insert src) params) (\<lambda>result. Ret (some_rows (kysely_numAffectedRows result))))
       (\<lambda>e. if kysely_isDuplicateKeyError d e then Ret False else Raise e))"

definition Kysely_updateRecord :: "intl \<Rightarrow> kysely_dialect \<Rightarrow> SqlStatementsSource \<Rightarrow> LockConfiguration \<Rightarrow> (kysely_req, bool) prog" where
  "Kysely_updateRecord I d src config = with_params I src config None (\<lambda>params.
     await (kysely_run d (st_update src) params) (\<lambda>result. Ret (some_rows (kysely_numAffectedRows result))))"

definition Kysely_unlock :: "intl \<Rightarrow> kysely_dialect \<Rightarrow> SqlStatementsSource \<Rightarrow> LockConfiguration \<Rightarrow> (kysely_req, unit) prog" where
  "Kysely_unlock I d src config = with_params I src config None (\<lambda>params.
     await (kysely_run d (st_unlock src) params) (\<lambda>_. Ret ()))"

definition Kysely_extend ::
  "intl \<Rightarrow> kysely_dialect \<Rightarrow> SqlStatementsSource \<Rightarrow> LockConfiguration \<Rightarrow> jsnum option \<Rightarrow> (kysely_req, bool) prog" where
  "Kysely_extend I d src config previous = (case previous of
     None \<Rightarrow> Ret False
   | Some p \<Rightarrow> with_params I src config (Some p) (\<lambda>params.
       await (kysely_run d (st_extend src) params) (\<lambda>result. Ret (some_rows (kysely_numAffectedRows result)))))"

definition KyselyStorageAccessor :: "intl \<Rightarrow> kysely_dialect \<Rightarrow> SqlStatementsSource \<Rightarrow> kysely_req StorageAccessor" where
  "KyselyStorageAccessor I d src =
     \<lparr>acc_insertRecord = Kysely_insertRecord I d src, acc_updateRecord = Kysely_updateRecord I d src,
      acc_unlock = Kysely_unlock I d src, acc_extend = Kysely_extend I d src\<rparr>"

definition KyselyLockProvider :: "intl \<Rightarrow> kysely_dialect \<Rightarrow> SqlConfiguration \<Rightarrow> jsv + kysely_req StorageAccessor" where
  "KyselyLockProvider I d cfg = map_sum id (KyselyStorageAccessor I d) (createSqlStatementsSource cfg)"

section \<open>Drizzle (packages/drizzle/src)\<close>

text \<open>A query is its pieces: raw text and parameters.\<close>

datatype dchunk = Raw string | DParam jsv

datatype drizzle_req = Execute "dchunk list"

fun text_of :: "chunk list \<Rightarrow> string" where
  "text_of [] = []"
| "text_of (Text c # cs) = c # text_of cs"
| "text_of (Param n # cs) = []"

fun after_text :: "chunk list \<Rightarrow> chunk list" where
  "after_text [] = []"
| "after_text (Text c # cs) = after_text cs"
| "after_text (Param n # cs) = Param n # cs"

lemma after_text_length: "length (after_text cs) \<le> length cs"
  by (induction cs rule: after_text.induct) auto

text \<open>The loop over the matches: the text before a match, then the parameter; at the end the text that is left.\<close>

function drizzle_chunks :: "(string \<times> jsv) list \<Rightarrow> chunk list \<Rightarrow> jsv + dchunk list" where
  "drizzle_chunks params [] = Inr []"
| "drizzle_chunks params (Text c # cs) = map_sum id (\<lambda>ds. Raw (c # text_of cs) # ds) (drizzle_chunks params (after_text cs))"
| "drizzle_chunks params (Param n # cs) = (case map_of params n of
     None \<Rightarrow> Inl (LockException (''Missing param: '' @ n))
   | Some v \<Rightarrow> map_sum id (\<lambda>ds. DParam v # ds) (drizzle_chunks params cs))"
  by pat_completeness auto
termination by (relation "measure (\<lambda>(_, cs). length cs)") (auto simp: less_Suc_eq_le after_text_length)

definition buildDrizzleQuery :: "string \<Rightarrow> (string \<times> jsv) list \<Rightarrow> jsv + dchunk list" where
  "buildDrizzleQuery rawSql params = map_sum id (\<lambda>chunks. if chunks = [] then [Raw rawSql] else chunks)
     (drizzle_chunks params (sql_chunks rawSql))"

text \<open>The chain of causes: at most five objects, none twice.  \<open>cause e\<close> is the object under \<open>e.cause\<close>, if it is one.\<close>

fun error_links :: "('r \<Rightarrow> 'r option) \<Rightarrow> nat \<Rightarrow> 'r list \<Rightarrow> 'r option \<Rightarrow> 'r list" where
  "error_links cause 0 out current = out"
| "error_links cause (Suc depth) out current = (case current of
     None \<Rightarrow> out
   | Some r \<Rightarrow> if r \<in> set out then out else error_links cause depth (out @ [r]) (cause r))"

definition object_of :: "jsv \<Rightarrow> jsv option" where
  "object_of v = (if is_object v then Some v else None)"

definition errorChain :: "jsv \<Rightarrow> jsv list" where
  "errorChain e = error_links (\<lambda>r. object_of (jget r ''cause'')) 5 [] (object_of e)"

definition drizzle_isDuplicateKeyError :: "kysely_dialect \<Rightarrow> jsv \<Rightarrow> bool" where
  "drizzle_isDuplicateKeyError d e = (case d of
     Postgresql \<Rightarrow> is_object e \<and> jget e ''code'' = JStr ''23505''
   | Mysql \<Rightarrow> mysql2_isDuplicateKeyError e
   | Sqlite \<Rightarrow> unique_failed e)"

definition drizzle_getAffectedRows :: "kysely_dialect \<Rightarrow> jsv \<Rightarrow> jsv" where
  "drizzle_getAffectedRows d result = (if \<not> is_object result then JNum (Fin 0) else (case d of
     Postgresql \<Rightarrow> nullish (nullish (jget result ''affectedRows'') (jget result ''rowCount'')) (JNum (Fin 0))
   | Mysql \<Rightarrow> (let header = (if is_array result then first_of result else result) in
       if \<not> is_object header then JNum (Fin 0) else nullish (jget header ''affectedRows'') (JNum (Fin 0)))
   | Sqlite \<Rightarrow> nullish (nullish (jget result ''changes'') (jget result ''rowsAffected'')) (JNum (Fin 0))))"

definition drizzle_run :: "string \<Rightarrow> (string \<times> jsv) list \<Rightarrow> (jsv \<Rightarrow> (drizzle_req, 'a) prog) \<Rightarrow> (drizzle_req, 'a) prog" where
  "drizzle_run sqlText params f = sync (buildDrizzleQuery sqlText params) (\<lambda>query. request (Execute query) f)"

text \<open>The query is built before the \<open>try\<close>.\<close>

definition Drizzle_insertRecord :: "intl \<Rightarrow> kysely_dialect \<Rightarrow> SqlStatementsSource \<Rightarrow> LockConfiguration \<Rightarrow> (drizzle_req, bool) prog" where
  "Drizzle_insertRecord I d src config = with_params I src config None (\<lambda>params.
     sync (buildDrizzleQuery (st_insert src) params) (\<lambda>query.
       try_request (Execute query) (\<lambda>result. Ret (some_rows (drizzle_getAffectedRows d result)))
         (\<lambda>e. if list_ex (drizzle_isDuplicateKeyError d) (errorChain e) then Ret False else Raise e)))"

definition Drizzle_updateRecord :: "intl \<Rightarrow> kysely_dialect \<Rightarrow> SqlStatementsSource \<Rightarrow> LockConfiguration \<Rightarrow> (drizzle_req, bool) prog" where
  "Drizzle_updateRecord I d src config = with_params I src config None (\<lambda>params.
     drizzle_run (st_update src) params (\<lambda>result. Ret (some_rows (drizzle_getAffectedRows d result))))"

definition Drizzle_unlock :: "intl \<Rightarrow> SqlStatementsSource \<Rightarrow> LockConfiguration \<Rightarrow> (drizzle_req, unit) prog" where
  "Drizzle_unlock I src config = with_params I src config None (\<lambda>params. drizzle_run (st_unlock src) params (\<lambda>_. Ret ()))"

definition Drizzle_extend ::
  "intl \<Rightarrow> kysely_dialect \<Rightarrow> SqlStatementsSource \<Rightarrow> LockConfiguration \<Rightarrow> jsnum option \<Rightarrow> (drizzle_req, bool) prog" where
  "Drizzle_extend I d src config previous = (case previous of
     None \<Rightarrow> Ret False
   | Some p \<Rightarrow> with_params I src config (Some p) (\<lambda>params.
       drizzle_run (st_extend src) params (\<lambda>result. Ret (some_rows (drizzle_getAffectedRows d result)))))"

definition DrizzleStorageAccessor :: "intl \<Rightarrow> kysely_dialect \<Rightarrow> SqlStatementsSource \<Rightarrow> drizzle_req StorageAccessor" where
  "DrizzleStorageAccessor I d src =
     \<lparr>acc_insertRecord = Drizzle_insertRecord I d src, acc_updateRecord = Drizzle_updateRecord I d src,
      acc_unlock = Drizzle_unlock I src, acc_extend = Drizzle_extend I d src\<rparr>"

definition DrizzleLockProvider :: "intl \<Rightarrow> kysely_dialect \<Rightarrow> SqlConfiguration \<Rightarrow> jsv + drizzle_req StorageAccessor" where
  "DrizzleLockProvider I d cfg = map_sum id (DrizzleStorageAccessor I d) (createSqlStatementsSource cfg)"

section \<open>Facts\<close>

lemma error_links_bound: "length out + d \<le> n \<Longrightarrow> distinct out \<Longrightarrow>
    length (error_links cause d out e) \<le> n \<and> distinct (error_links cause d out e)"
  by (induction cause d out e rule: error_links.induct) (auto split: option.splits)

lemma errorChain_bound: "length (errorChain e) \<le> 5 \<and> distinct (errorChain e)"
  unfolding errorChain_def by (rule error_links_bound) simp_all

text \<open>Rendering every parameter as it was written gives the statement back: the cut loses nothing.\<close>

lemma render_sql_chunks: "render_chunks (\<lambda>n. CHR '':'' # n) (sql_chunks sql) = sql"
  by (induction sql rule: sql_chunks.induct) auto

lemma numbered_not_mark: "numbered k \<noteq> ''?''"
  by (simp add: numbered_def)

text \<open>
  C31: What a driver is given means what the statement says.  With numbered placeholders each name has one number, in the text
  wherever the name was written, and the value under that number is the one bound to the name; with question marks there is one
  value per occurrence, in the order of the text.
\<close>

theorem Sql_placeholders:
  assumes "translateNamedParams sql params numbered = Inr (text, vals)"
  shows "(\<exists>pos. text = render_chunks (\<lambda>n. numbered (pos n + 1)) (sql_chunks sql) \<and>
      (\<forall>n \<in> set (sql_names sql). pos n < length vals \<and> map_of params n = Some (vals ! pos n))) \<and>
    translateNamedParams sql params (\<lambda>_. ''?'') =
      Inr (render_chunks (\<lambda>_. ''?'') (sql_chunks sql), map (the \<circ> map_of params) (sql_names sql))"
proof -
  let ?ns = "firsts [] (sql_names sql)"
  have sub: "set (chunk_names (sql_chunks sql)) \<subseteq> fst ` set params"
    using translate_bound [OF assms] by (simp add: sql_names_def)
  have val: "map_of params n = Some (bound_value params n)" if "n \<in> set (sql_names sql)" for n
    using that sub by (cases "map_of params n") (auto simp: map_of_eq_None_iff bound_value_def sql_names_def)
  have num: "text = render_chunks (\<lambda>n. numbered (position_in ?ns n + 1)) (sql_chunks sql)" "vals = map (bound_value params) ?ns"
    using replace_chunks_numbered [where rend = "\<lambda>_. numbered" and acc = "[]", OF numbered_not_mark sub] assms
    by (simp_all add: translateNamedParams_def replaceNamedParams_def seen_of_Nil sql_names_def)
  have "position_in ?ns n < length vals \<and> map_of params n = Some (vals ! position_in ?ns n)" if "n \<in> set (sql_names sql)" for n
    using that position_nth [of n ?ns] val by (simp add: num(2) set_firsts)
  with num(1) have pos: "\<exists>pos. text = render_chunks (\<lambda>n. numbered (pos n + 1)) (sql_chunks sql) \<and>
      (\<forall>n \<in> set (sql_names sql). pos n < length vals \<and> map_of params n = Some (vals ! pos n))" by blast
  have "map (bound_value params) (sql_names sql) = map (the \<circ> map_of params) (sql_names sql)" using val by simp
  then have "translateNamedParams sql params (\<lambda>_. ''?'') =
      Inr (render_chunks (\<lambda>_. ''?'') (sql_chunks sql), map (the \<circ> map_of params) (sql_names sql))"
    using replace_chunks_marks [OF sub] by (simp add: translateNamedParams_def replaceNamedParams_def sql_names_def)
  with pos show ?thesis by blast
qed

theorem Sql_placeholders_witness:
  "translateNamedParams ''a=:x,b=:y,c=:x'' [(''x'', JNull), (''y'', JUndef)] (\<lambda>_. ''?'') = Inr (''a=?,b=?,c=?'', [JNull, JUndef, JNull])"
proof -
  have "\<exists>text vals. translateNamedParams ''a=:x,b=:y,c=:x'' [(''x'', JNull), (''y'', JUndef)] numbered = Inr (text, vals)"
    by (simp add: translateNamedParams_def replaceNamedParams_def is_id_start_def is_id_char_def is_digit_def numbered_def)
  then obtain t vals where "translateNamedParams ''a=:x,b=:y,c=:x'' [(''x'', JNull), (''y'', JUndef)] numbered = Inr (t, vals)"
    by blast
  from conjunct2 [OF Sql_placeholders [OF this]] show ?thesis
    by (simp add: sql_names_def is_id_start_def is_id_char_def is_digit_def)
qed

end
