(* ===== verification/SqlLease.thy ===== *)
theory SqlLease
  imports SqlProviders
begin

text \<open>
  The SQL providers over a table.  \<open>sql_database\<close> states what a relational database documents for the four statements: one row
  per name, conditions and assignments as they are written, evaluated at the time bound to \<open>:now\<close> or, with server time, at the
  clock of the server.  The provider of packages/sql over any such connection keeps the contract of theory Lease.
\<close>

type_synonym lock_row = "jsnum \<times> string"

text \<open>The instant at which a statement is evaluated.\<close>

definition statement_now :: "(string \<times> jsv) list \<Rightarrow> ('s, 'm) world_scheme \<Rightarrow> jsnum" where
  "statement_now ps w = (case map_of ps ''now'' of Some (JDate t) \<Rightarrow> t | _ \<Rightarrow> ClockProvider_now w)"

text \<open>
  What a statement on the row of \<open>n\<close> did: nothing, and it did not report a changed row; or, under its condition, the change.  In both
  cases it may also have been rejected.
\<close>

definition row_effect ::
  "(string \<Rightarrow> lock_row option) \<Rightarrow> (string \<Rightarrow> lock_row option) \<Rightarrow> string \<Rightarrow> bool \<Rightarrow> lock_row \<Rightarrow> jsv + jsv \<Rightarrow> bool" where
  "row_effect A B n cond row r \<longleftrightarrow>
     B = A \<and> (\<forall>v. r = Inr v \<longrightarrow> \<not> some_rows v) \<or> cond \<and> B = A(n \<mapsto> row) \<and> (\<forall>v. r = Inr v \<longrightarrow> some_rows v)"

locale sql_database =
  fixes h :: "('q, 's) handler"
    and conn :: "'q SqlConnection"
    and src :: SqlStatementsSource
    and rows :: "'s \<Rightarrow> string \<Rightarrow> lock_row option"
  assumes no_zone: "sq_timeZone (st_config src) = None"
    and insert: "run h (conn_query conn (st_insert src) ps) w = (r, w') \<Longrightarrow>
      map_of ps ''name'' = Some (JStr n) \<Longrightarrow> map_of ps ''lockUntil'' = Some (JDate u) \<Longrightarrow> map_of ps ''lockedBy'' = Some (JStr b) \<Longrightarrow>
      ClockProvider_now w' = ClockProvider_now w \<and>
      row_effect (rows (w_store w)) (rows (w_store w')) n (rows (w_store w) n = None) (u, b) r \<and>
      (\<forall>e. r = Inl e \<longrightarrow> conn_isDuplicateKeyError conn e \<longrightarrow> rows (w_store w') = rows (w_store w))"
    and update: "run h (conn_query conn (st_update src) ps) w = (r, w') \<Longrightarrow>
      map_of ps ''name'' = Some (JStr n) \<Longrightarrow> map_of ps ''lockUntil'' = Some (JDate u) \<Longrightarrow> map_of ps ''lockedBy'' = Some (JStr b) \<Longrightarrow>
      ClockProvider_now w' = ClockProvider_now w \<and>
      row_effect (rows (w_store w)) (rows (w_store w')) n
        (\<exists>u0 b0. rows (w_store w) n = Some (u0, b0) \<and> js_le u0 (statement_now ps w)) (u, b) r"
    and extend: "run h (conn_query conn (st_extend src) ps) w = (r, w') \<Longrightarrow>
      map_of ps ''name'' = Some (JStr n) \<Longrightarrow> map_of ps ''lockUntil'' = Some (JDate u) \<Longrightarrow> map_of ps ''lockedBy'' = Some (JStr b) \<Longrightarrow>
      map_of ps ''previousLockUntil'' = Some (JDate p) \<Longrightarrow>
      ClockProvider_now w' = ClockProvider_now w \<and>
      row_effect (rows (w_store w)) (rows (w_store w')) n
        (rows (w_store w) n = Some (p, b) \<and> js_lt (statement_now ps w) p) (u, b) r"
    and unlock: "run h (conn_query conn (st_unlock src) ps) w = (r, w') \<Longrightarrow>
      map_of ps ''name'' = Some (JStr n) \<Longrightarrow> map_of ps ''lockUntil'' = Some (JDate u) \<Longrightarrow> map_of ps ''lockedBy'' = Some (JStr b) \<Longrightarrow>
      map_of ps ''unlockTime'' = Some (JDate x) \<Longrightarrow>
      ClockProvider_now w' = ClockProvider_now w \<and>
      row_effect (rows (w_store w)) (rows (w_store w')) n (rows (w_store w) n = Some (u, b)) (x, b) r"
begin

definition sql_deadline :: "'s \<Rightarrow> deadlines" where
  "sql_deadline s n = (case rows s n of Some (Fin u, _) \<Rightarrow> Some u | _ \<Rightarrow> None)"

definition sql_inv :: "'s world \<Rightarrow> bool" where
  "sql_inv w \<longleftrightarrow> (\<exists>t. date_range t \<and> ClockProvider_now w = Fin (of_int t))"

end

section \<open>The parameters of a call\<close>

lemma new_Date_range: "date_range t \<Longrightarrow> new_Date (Fin (of_int t)) = Fin (of_int t)"
  by (simp add: date_range_def)

lemma timestampFor_none: "sq_timeZone cfg = None \<Longrightarrow> timestampFor I cfg ms = Inr (JDate (new_Date ms))"
  by (simp add: timestampFor_def timestamp_def)

text \<open>Without a time zone the parameters are there, and \<open>:now\<close> is the time of the call.\<close>

lemma run_with_params:
  assumes "run h (with_params I src c previous f) w = (r, w')" "sq_timeZone (st_config src) = None" "date_config c"
    "date_range t" "ClockProvider_now w = Fin (of_int t)"
  obtains ps x where "run h (f ps) w = (r, w')"
    "map_of ps ''name'' = Some (JStr (cfg_name c))" "map_of ps ''lockUntil'' = Some (JDate (lockAtMostUntil c))"
    "map_of ps ''lockedBy'' = Some (JStr (sq_lockedByValue (st_config src)))" "map_of ps ''unlockTime'' = Some (JDate x)"
    "statement_now ps w = Fin (of_int t)"
    "\<And>p. previous = Some p \<Longrightarrow> map_of ps ''previousLockUntil'' = Some (JDate (new_Date p))"
proof -
  obtain u where u: "lockAtMostUntil c = Fin (of_int u)" "date_range u" using assms(3) by (rule date_configE)
  have until: "js_add (createdAt c) (lockAtMostFor c) = lockAtMostUntil c" by (simp add: lockAtMostUntil_def)
  have d: "new_Date (lockAtMostUntil c) = lockAtMostUntil c" using u by (simp add: new_Date_range)
  show ?thesis
  proof (cases "st_serverTime src")
    case True
    obtain ps where ps: "server_params I (st_config src) c previous = Inr ps" "run h (f ps) w = (r, w')"
      using assms(1,2) True
      by (cases previous) (auto simp: with_params_def server_params_def previous_binding_def timestampFor_none)
    show ?thesis
      by (rule that [OF ps(2)], insert ps(1) assms(2))
         (cases previous; auto simp: server_params_def previous_binding_def timestampFor_none until d statement_now_def assms(5))+
  next
    case False
    obtain ps where ps: "client_params I (st_config src) c previous (Fin (of_int t)) (Fin (of_int t)) = Inr ps"
      "run h (f ps) w = (r, w')"
      using assms(1,2,5) False
      by (cases previous) (auto simp: with_params_def client_params_def previous_binding_def timestampFor_none)
    show ?thesis
      by (rule that [OF ps(2)], insert ps(1) assms(2))
         (cases previous; auto simp: client_params_def previous_binding_def timestampFor_none d statement_now_def
            new_Date_range [OF assms(4)])+
  qed
qed

section \<open>The provider keeps the contract of an accessor\<close>

context sql_database
begin

lemma deadline_upd: "rows s' = (rows s)(n \<mapsto> (u, b)) \<Longrightarrow>
    sql_deadline s' = (sql_deadline s)(n := (case u of Fin v \<Rightarrow> Some v | _ \<Rightarrow> None))"
  by (auto simp: sql_deadline_def fun_eq_iff split: jsnum.splits)

lemma deadline_same: "rows s' = rows s \<Longrightarrow> sql_deadline s' = sql_deadline s"
  by (simp add: sql_deadline_def fun_eq_iff)

lemma free_row: "rows s n = Some (u0, b0) \<Longrightarrow> js_le u0 (Fin t) \<Longrightarrow> free (sql_deadline s) n t"
  by (cases u0) (simp_all add: free_def sql_deadline_def)

lemma free_none: "rows s n = None \<Longrightarrow> free (sql_deadline s) n t"
  by (simp add: free_def sql_deadline_def)

lemma row_effectE:
  assumes "row_effect A B n cond row r"
  obtains (same) "B = A" "\<And>v. r = Inr v \<Longrightarrow> \<not> some_rows v" | (changed) cond "B = A(n \<mapsto> row)" "\<And>v. r = Inr v \<Longrightarrow> some_rows v"
  using assms unfolding row_effect_def by blast

lemma sql_inv_now: "ClockProvider_now w' = ClockProvider_now w \<Longrightarrow> sql_inv w \<Longrightarrow> sql_inv w'"
  by (simp add: sql_inv_def)

text \<open>A change of the row of a free name to the configuration's deadline, reported by \<open>true\<close> at most.\<close>

lemma taken:
  assumes eff: "row_effect (rows s) (rows s') (cfg_name c) cond (lockAtMostUntil c, b) r" and "date_config c"
    and "cond \<Longrightarrow> free (sql_deadline s) (cfg_name c) t"
  shows "keeps t (sql_deadline s) (sql_deadline s')"
    "r = Inr v \<Longrightarrow> some_rows v \<Longrightarrow> free (sql_deadline s) (cfg_name c) t \<and> recorded (sql_deadline s') c"
proof -
  obtain u where u: "lockAtMostUntil c = Fin (of_int u)" using assms(2) by (rule date_configE)
  have upd: "sql_deadline s' = (sql_deadline s)(cfg_name c \<mapsto> of_int u)" if "rows s' = (rows s)(cfg_name c \<mapsto> (lockAtMostUntil c, b))"
    using deadline_upd [OF that] by (simp add: u)
  show "keeps t (sql_deadline s) (sql_deadline s')"
    using eff
  proof (cases rule: row_effectE)
    case same
    then show ?thesis using deadline_same [OF same(1)] by simp
  next
    case changed
    then show ?thesis using keeps_upd assms(3) by (simp add: upd)
  qed
  show "r = Inr v \<Longrightarrow> some_rows v \<Longrightarrow> free (sql_deadline s) (cfg_name c) t \<and> recorded (sql_deadline s') c"
    using eff by (cases rule: row_effectE) (simp_all add: upd recorded_Fin [OF u] assms(3))
qed

lemma sql_now: "sql_inv w \<Longrightarrow> ClockProvider_now w = Fin t \<Longrightarrow> \<exists>k. date_range k \<and> ClockProvider_now w = Fin (of_int k) \<and> t = of_int k"
  by (auto simp: sql_inv_def)

lemma insert_laws:
  assumes "run h (Sql_insertRecord I conn src c) w = (r, w')" "date_config c" "sql_inv w" "ClockProvider_now w = Fin t"
  shows "sql_inv w' \<and> ClockProvider_now w' = Fin t \<and> keeps t (sql_deadline (w_store w)) (sql_deadline (w_store w')) \<and>
      (r = Inr True \<longrightarrow> free (sql_deadline (w_store w)) (cfg_name c) t \<and> recorded (sql_deadline (w_store w')) c)"
proof -
  obtain k where k: "date_range k" "ClockProvider_now w = Fin (of_int k)" "t = of_int k" using sql_now [OF assms(3,4)] by blast
  from assms(1) [unfolded Sql_insertRecord_def] no_zone assms(2) k(1,2)
  obtain ps x where ps: "run h (catching (await (conn_query conn (st_insert src) ps) (\<lambda>n. Ret (some_rows n)))
       (\<lambda>e. if conn_isDuplicateKeyError conn e then Ret False else Raise e)) w = (r, w')"
    "map_of ps ''name'' = Some (JStr (cfg_name c))" "map_of ps ''lockUntil'' = Some (JDate (lockAtMostUntil c))"
    "map_of ps ''lockedBy'' = Some (JStr (sq_lockedByValue (st_config src)))"
    by (rule run_with_params) blast
  obtain q v where q: "run h (conn_query conn (st_insert src) ps) w = (q, v)" by fastforce
  note law = insert [OF q ps(2-4)]
  have w': "w' = v" and r: "r = Inr True \<Longrightarrow> \<exists>n. q = Inr n \<and> some_rows n"
    using ps(1) by (auto simp: run_catching run_await q split: sum.splits if_splits)
  note t = taken [where t = t, OF law [THEN conjunct2, THEN conjunct1] assms(2) free_none]
  show ?thesis using law t r sql_inv_now [of v w] assms(3,4) by (auto simp: w')
qed

lemma update_laws:
  assumes "run h (Sql_updateRecord I conn src c) w = (r, w')" "date_config c" "sql_inv w" "ClockProvider_now w = Fin t"
  shows "sql_inv w' \<and> ClockProvider_now w' = Fin t \<and> keeps t (sql_deadline (w_store w)) (sql_deadline (w_store w')) \<and>
      (r = Inr True \<longrightarrow> free (sql_deadline (w_store w)) (cfg_name c) t \<and> recorded (sql_deadline (w_store w')) c)"
proof -
  obtain k where k: "date_range k" "ClockProvider_now w = Fin (of_int k)" "t = of_int k" using sql_now [OF assms(3,4)] by blast
  from assms(1) [unfolded Sql_updateRecord_def] no_zone assms(2) k(1,2)
  obtain ps x where ps: "run h (await (conn_query conn (st_update src) ps) (\<lambda>n. Ret (some_rows n))) w = (r, w')"
    "map_of ps ''name'' = Some (JStr (cfg_name c))" "map_of ps ''lockUntil'' = Some (JDate (lockAtMostUntil c))"
    "map_of ps ''lockedBy'' = Some (JStr (sq_lockedByValue (st_config src)))" "statement_now ps w = Fin (of_int k)"
    by (rule run_with_params) blast
  obtain q v where q: "run h (conn_query conn (st_update src) ps) w = (q, v)" by fastforce
  note law = update [OF q ps(2-4)]
  have w': "w' = v" and r: "r = Inr True \<Longrightarrow> \<exists>n. q = Inr n \<and> some_rows n"
    using ps(1) by (auto simp: run_await q split: sum.splits if_splits)
  have f: "\<exists>u0 b0. rows (w_store w) (cfg_name c) = Some (u0, b0) \<and> js_le u0 (statement_now ps w) \<Longrightarrow>
      free (sql_deadline (w_store w)) (cfg_name c) t"
    using free_row by (auto simp: ps(5) k(3))
  note t = taken [where t = t, OF law [THEN conjunct2] assms(2) f]
  show ?thesis using law t r sql_inv_now [of v w] assms(3,4) by (auto simp: w')
qed

text \<open>A change of the row with the deadline \<open>u\<close>.\<close>

lemma released:
  assumes eff: "row_effect (rows s) (rows s') n (rows s n = Some (Fin u, b) \<and> P) row r"
  shows "keeps_but n u t (sql_deadline s) (sql_deadline s')"
proof -
  obtain u' b' where row: "row = (u', b')" by fastforce
  show ?thesis
    using eff
  proof (cases rule: row_effectE)
    case same
    then show ?thesis using deadline_same [OF same(1)] by simp
  next
    case changed
    then have "sql_deadline s n = Some u" by (simp add: sql_deadline_def)
    with changed(2) show ?thesis unfolding row using deadline_upd [of s' s n u' b'] by (simp add: keeps_but_upd)
  qed
qed

lemma unlock_laws:
  assumes "run h (Sql_unlock I conn src c) w = (r, w')" "date_config c" "sql_inv w" "ClockProvider_now w = Fin t"
    "lockAtMostUntil c = Fin u"
  shows "sql_inv w' \<and> ClockProvider_now w' = Fin t \<and> keeps_but (cfg_name c) u t (sql_deadline (w_store w)) (sql_deadline (w_store w'))"
proof -
  obtain k where k: "date_range k" "ClockProvider_now w = Fin (of_int k)" "t = of_int k" using sql_now [OF assms(3,4)] by blast
  from assms(1) [unfolded Sql_unlock_def] no_zone assms(2) k(1,2)
  obtain ps x where ps: "run h (await (conn_query conn (st_unlock src) ps) (\<lambda>_. Ret ())) w = (r, w')"
    "map_of ps ''name'' = Some (JStr (cfg_name c))" "map_of ps ''lockUntil'' = Some (JDate (lockAtMostUntil c))"
    "map_of ps ''lockedBy'' = Some (JStr (sq_lockedByValue (st_config src)))" "map_of ps ''unlockTime'' = Some (JDate x)"
    by (rule run_with_params) blast
  obtain q v where q: "run h (conn_query conn (st_unlock src) ps) w = (q, v)" by fastforce
  note law = unlock [OF q ps(2-5)]
  have w': "w' = v" using ps(1) by (auto simp: run_await q split: sum.splits)
  show ?thesis
    using law released [of "w_store w" "w_store v" "cfg_name c" u "sq_lockedByValue (st_config src)" True _ q t]
      sql_inv_now [of v w] assms(3,4,5) by (auto simp: w')
qed

lemma extend_laws:
  assumes "run h (Sql_extend I conn src c (Some (Fin u))) w = (r, w')" "date_config c" "date_config p"
    "lockAtMostUntil p = Fin u" "sql_inv w" "ClockProvider_now w = Fin t"
  shows "sql_inv w' \<and> ClockProvider_now w' = Fin t \<and>
      keeps_but (cfg_name c) u t (sql_deadline (w_store w)) (sql_deadline (w_store w')) \<and>
      (r = Inr False \<longrightarrow> keeps t (sql_deadline (w_store w)) (sql_deadline (w_store w'))) \<and>
      (r = Inr True \<longrightarrow> sql_deadline (w_store w) (cfg_name c) = Some u \<and> t < u \<and> recorded (sql_deadline (w_store w')) c)"
proof -
  obtain k where k: "date_range k" "ClockProvider_now w = Fin (of_int k)" "t = of_int k" using sql_now [OF assms(5,6)] by blast
  obtain a where a: "date_range a" "u = of_int a" using assms(3,4) by (auto elim!: date_configE)
  obtain m where m: "lockAtMostUntil c = Fin (of_int m)" using assms(2) by (rule date_configE)
  from assms(1) [unfolded Sql_extend_def option.case] no_zone assms(2) k(1,2)
  obtain ps x where ps: "run h (await (conn_query conn (st_extend src) ps) (\<lambda>n. Ret (some_rows n))) w = (r, w')"
    "map_of ps ''name'' = Some (JStr (cfg_name c))" "map_of ps ''lockUntil'' = Some (JDate (lockAtMostUntil c))"
    "map_of ps ''lockedBy'' = Some (JStr (sq_lockedByValue (st_config src)))" "statement_now ps w = Fin (of_int k)"
    "map_of ps ''previousLockUntil'' = Some (JDate (new_Date (Fin u)))"
    by (rule run_with_params) blast
  have prev: "map_of ps ''previousLockUntil'' = Some (JDate (Fin u))" using ps(6) new_Date_range [OF a(1)] by (simp add: a(2))
  obtain q v where q: "run h (conn_query conn (st_extend src) ps) w = (q, v)" by fastforce
  note law = extend [OF q ps(2-4) prev]
  have w': "w' = v" and r: "r = Inr True \<Longrightarrow> \<exists>n. q = Inr n \<and> some_rows n" "r = Inr False \<Longrightarrow> \<exists>n. q = Inr n \<and> \<not> some_rows n"
    using ps(1) by (auto simp: run_await q split: sum.splits)
  note eff = law [THEN conjunct2]
  have kb: "keeps_but (cfg_name c) u t (sql_deadline (w_store w)) (sql_deadline (w_store v))" by (rule released [OF eff])
  have no: "keeps t (sql_deadline (w_store w)) (sql_deadline (w_store v))" if "r = Inr False"
    using eff
  proof (cases rule: row_effectE)
    case same
    then show ?thesis using deadline_same [OF same(1)] by simp
  next
    case changed
    then show ?thesis using r(2) [OF that] by blast
  qed
  have yes: "sql_deadline (w_store w) (cfg_name c) = Some u \<and> t < u \<and> recorded (sql_deadline (w_store v)) c" if true: "r = Inr True"
  proof -
    have e: "rows (w_store w) (cfg_name c) = Some (Fin u, sq_lockedByValue (st_config src))" "js_lt (statement_now ps w) (Fin u)"
      "rows (w_store v) = (rows (w_store w))(cfg_name c \<mapsto> (lockAtMostUntil c, sq_lockedByValue (st_config src)))"
      using eff by (cases rule: row_effectE; use r(1) [OF true] in blast)+
    show ?thesis
      using e(1,2) deadline_upd [OF e(3)] by (simp add: recorded_Fin [OF m] ps(5) k(3) sql_deadline_def m)
  qed
  show ?thesis using law kb no yes sql_inv_now [of v w] assms(5,6) by (auto simp: w')
qed

end

sublocale sql_database \<subseteq> acc: storage_accessor h "SqlStorageAccessor I conn src" sql_deadline sql_inv date_config for I
proof (unfold_locales, goal_cases)
  case (1 c)
  then show ?case by (rule date_configE) blast
next
  case (2 c w r w' t)
  then show ?case using insert_laws [of I c w r w' t] by (simp add: SqlStorageAccessor_def)
next
  case (3 c w r w' t)
  then show ?case using update_laws [of I c w r w' t] by (simp add: SqlStorageAccessor_def)
next
  case (4 c w r w' t u)
  then show ?case using unlock_laws [of I c w r w' t u] by (simp add: SqlStorageAccessor_def)
next
  case (5 c u w r w' p t)
  then show ?case using extend_laws [of I c u w r w' p t] by (simp add: SqlStorageAccessor_def)
qed

context sql_database
begin

lemma is_lease:
  "lease_provider (storage_handler h) (StorageBasedLockProvider_lock (SqlStorageAccessor I conn src))
    (StorageLock_doUnlock (SqlStorageAccessor I conn src)) (StorageLock_doExtend (SqlStorageAccessor I conn src))
    (\<lambda>s. sql_deadline (backend s)) (\<lambda>w. sql_inv (backend_world w)) date_config (\<lambda>l. date_config (asl_config l))"
  by (rule acc.sb.lease_provider_axioms)

end

section \<open>A PostgreSQL table\<close>

text \<open>The statement as PostgreSQL gets it, and the values in the order of the numbers.\<close>

definition numbered_text :: "string \<Rightarrow> string" where
  "numbered_text sql = render_chunks (\<lambda>n. numbered (position_in (firsts [] (sql_names sql)) n + 1)) (sql_chunks sql)"

lemma run_pg_query:
  "run h (pg_query sql ps) w =
     (if set (sql_names sql) \<subseteq> fst ` set ps
      then run h (request (PgQuery (numbered_text sql) (map (bound_value ps) (firsts [] (sql_names sql))))
        (\<lambda>result. sync (prop_of result ''rowCount'') (\<lambda>n. Ret (nullish n (JNum (Fin 0)))))) w
      else (Inl (projl (translateNamedParams sql ps numbered)), w))"
proof (cases "set (sql_names sql) \<subseteq> fst ` set ps")
  case True
  then have "translateNamedParams sql ps numbered = Inr (numbered_text sql, map (bound_value ps) (firsts [] (sql_names sql)))"
    using replace_chunks_numbered [where rend = "\<lambda>_. numbered" and acc = "[]" and cs = "sql_chunks sql" and params = ps,
        OF numbered_not_mark]
    by (simp add: translateNamedParams_def replaceNamedParams_def seen_of_Nil sql_names_def numbered_text_def)
  then show ?thesis using True by (simp add: pg_query_def)
next
  case False
  then obtain e where "translateNamedParams sql ps numbered = Inl e"
    using translate_bound [of sql ps numbered] by (cases "translateNamedParams sql ps numbered") auto
  then show ?thesis using False by (simp add: pg_query_def)
qed

definition pg_cfg :: SqlConfiguration where
  "pg_cfg = \<lparr>sq_databaseProduct = POSTGRES, sq_tableName = ''shedlock'',
     sq_columnNames = \<lparr>cn_name = ''name'', cn_lockUntil = ''lock_until'', cn_lockedAt = ''locked_at'', cn_lockedBy = ''locked_by''\<rparr>,
     sq_lockedByValue = ''host'', sq_timeZone = None, sq_useDbTime = False\<rparr>"

definition pg_src :: SqlStatementsSource where
  "pg_src = PostgresSqlStatementsSource pg_cfg"

lemma pg_src_created: "createSqlStatementsSource pg_cfg = Inr pg_src"
  by (simp add: createSqlStatementsSource_def pg_cfg_def pg_src_def)

type_synonym pg_table = "string \<Rightarrow> lock_row option"

definition row_count :: "nat \<Rightarrow> jsv + jsv" where
  "row_count n = Inr (obj [(''rowCount'', JNum (Fin (of_nat n)))])"

definition pg_write :: "bool \<Rightarrow> string \<Rightarrow> lock_row \<Rightarrow> pg_table world \<Rightarrow> (jsv + jsv) \<times> pg_table world" where
  "pg_write cond n row w = (if cond then (row_count 1, w\<lparr>w_store := (w_store w)(n \<mapsto> row)\<rparr>) else (row_count 0, w))"

definition pg_error :: "jsv + jsv" where
  "pg_error = Inl (mk_error ''error'' ''invalid parameters'')"

definition pg_insert :: "jsv list \<Rightarrow> pg_table world \<Rightarrow> (jsv + jsv) \<times> pg_table world" where
  "pg_insert vals w = (case vals of [JStr n, JDate u, JDate now, JStr b] \<Rightarrow> pg_write (w_store w n = None) n (u, b) w | _ \<Rightarrow> (pg_error, w))"

definition pg_update :: "jsv list \<Rightarrow> pg_table world \<Rightarrow> (jsv + jsv) \<times> pg_table world" where
  "pg_update vals w = (case vals of [JDate u, JDate now, JStr b, JStr n] \<Rightarrow>
     pg_write (case w_store w n of None \<Rightarrow> False | Some (u0, b0) \<Rightarrow> js_le u0 now) n (u, b) w | _ \<Rightarrow> (pg_error, w))"

definition pg_extend :: "jsv list \<Rightarrow> pg_table world \<Rightarrow> (jsv + jsv) \<times> pg_table world" where
  "pg_extend vals w = (case vals of [JDate u, JStr n, JStr b, JDate now, JDate p] \<Rightarrow>
     pg_write (w_store w n = Some (p, b) \<and> js_lt now p) n (u, b) w | _ \<Rightarrow> (pg_error, w))"

definition pg_unlock :: "jsv list \<Rightarrow> pg_table world \<Rightarrow> (jsv + jsv) \<times> pg_table world" where
  "pg_unlock vals w = (case vals of [JDate x, JStr n, JStr b, JDate u] \<Rightarrow>
     pg_write (w_store w n = Some (u, b)) n (x, b) w | _ \<Rightarrow> (pg_error, w))"

fun pg_handler :: "(sql_req, pg_table) handler" where
  "pg_handler (PgQuery sqlText vals) w =
     (if sqlText = numbered_text (st_insert pg_src) then pg_insert vals w
      else if sqlText = numbered_text (st_update pg_src) then pg_update vals w
      else if sqlText = numbered_text (st_extend pg_src) then pg_extend vals w
      else if sqlText = numbered_text (st_unlock pg_src) then pg_unlock vals w
      else (pg_error, w))"
| "pg_handler _ w = (pg_error, w)"

lemma pg_texts:
  "numbered_text (st_insert pg_src) =
    ''INSERT INTO shedlock(name, lock_until, locked_at, locked_by) VALUES($1, $2, $3, $4) ON CONFLICT (name) DO NOTHING''"
  "numbered_text (st_update pg_src) =
    ''UPDATE shedlock SET lock_until = $1, locked_at = $2, locked_by = $3 WHERE name = $4 AND lock_until <= $2''"
  "numbered_text (st_extend pg_src) =
    ''UPDATE shedlock SET lock_until = $1 WHERE name = $2 AND locked_by = $3 AND lock_until > $4 AND lock_until = $5''"
  "numbered_text (st_unlock pg_src) =
    ''UPDATE shedlock SET lock_until = $1 WHERE name = $2 AND locked_by = $3 AND lock_until = $4''"
  by code_simp+

lemma pg_orders:
  "sql_names (st_insert pg_src) = [''name'', ''lockUntil'', ''now'', ''lockedBy'']"
  "sql_names (st_update pg_src) = [''lockUntil'', ''now'', ''lockedBy'', ''name'', ''now'']"
  "sql_names (st_extend pg_src) = [''lockUntil'', ''name'', ''lockedBy'', ''now'', ''previousLockUntil'']"
  "sql_names (st_unlock pg_src) = [''unlockTime'', ''name'', ''lockedBy'', ''lockUntil'']"
  by code_simp+

text \<open>The four statements through the connection.\<close>

definition pg_answer :: "(jsv + jsv) \<times> pg_table world \<Rightarrow> (jsv + jsv) \<times> pg_table world" where
  "pg_answer p = (case p of (Inl e, w) \<Rightarrow> (Inl e, w)
     | (Inr v, w) \<Rightarrow> (case prop_of v ''rowCount'' of Inl e \<Rightarrow> (Inl e, w) | Inr n \<Rightarrow> (Inr (nullish n (JNum (Fin 0))), w)))"

lemma pg_answer_simps [simp]:
  "pg_answer (row_count n, w) = (Inr (JNum (Fin (of_nat n))), w)" "pg_answer (pg_error, w) = (pg_error, w)"
  by (simp_all add: pg_answer_def row_count_def pg_error_def nullish_def)

lemma run_pg_statement:
  assumes "pg_handler (PgQuery (numbered_text sql) (map (bound_value ps) (firsts [] (sql_names sql)))) w = p"
  shows "run pg_handler (pg_query sql ps) w = (r, w') \<Longrightarrow>
    set (sql_names sql) \<subseteq> fst ` set ps \<and> (r, w') = pg_answer p \<or> (\<exists>e. r = Inl e) \<and> w' = w"
  using assms by (auto simp: run_pg_query pg_answer_def run_sync simp del: pg_handler.simps split: if_splits prod.splits sum.splits)

lemma pg_answer_write:
  assumes "pg_answer (pg_write cond n row w) = (r, w')"
  shows "ClockProvider_now w' = ClockProvider_now w" "row_effect (w_store w) (w_store w') n cond row r" "\<exists>v. r = Inr v"
  using assms by (auto simp: pg_write_def row_effect_def some_rows_def split: if_splits)

lemma row_effect_error [simp]: "row_effect A A n cond row (Inl e)"
  by (simp add: row_effect_def)

lemma pg_refused:
  assumes "pg_handler (PgQuery (numbered_text sql) (map (bound_value ps) (firsts [] (sql_names sql)))) w = (pg_error, w)"
    "run pg_handler (pg_query sql ps) w = (r, w')"
  shows "w' = w \<and> (\<exists>e. r = Inl e)"
  using run_pg_statement [OF assms] by (auto simp: pg_answer_simps(2)) (auto simp: pg_error_def)

lemma pg_wrote:
  assumes "pg_handler (PgQuery (numbered_text sql) (map (bound_value ps) (firsts [] (sql_names sql)))) w = pg_write cond n row w"
    "run pg_handler (pg_query sql ps) w = (r, w')"
  shows "ClockProvider_now w' = ClockProvider_now w \<and> row_effect (w_store w) (w_store w') n cond row r \<and>
    (\<forall>e. r = Inl e \<longrightarrow> w_store w' = w_store w)"
  using run_pg_statement [OF assms]
proof (elim disjE conjE)
  assume "(r, w') = pg_answer (pg_write cond n row w)"
  note a = pg_answer_write [OF this [symmetric]]
  show ?thesis using a by auto
qed auto

lemma bound_now: "''now'' \<in> fst ` set ps \<Longrightarrow> bound_value ps ''now'' = JDate t \<Longrightarrow> statement_now ps w = t"
  by (cases "map_of ps ''now''") (auto simp: map_of_eq_None_iff bound_value_def statement_now_def)

lemma pg_wrote_now:
  assumes "pg_handler (PgQuery (numbered_text sql) (map (bound_value ps) (firsts [] (sql_names sql)))) w = pg_write (P t) n row w"
    "run pg_handler (pg_query sql ps) w = (r, w')" "bound_value ps ''now'' = JDate t" "''now'' \<in> set (sql_names sql)"
  shows "ClockProvider_now w' = ClockProvider_now w \<and> row_effect (w_store w) (w_store w') n (P (statement_now ps w)) row r"
proof (cases "set (sql_names sql) \<subseteq> fst ` set ps")
  case True
  then have "statement_now ps w = t" using bound_now assms(3,4) by blast
  then show ?thesis using pg_wrote [OF assms(1,2)] by simp
next
  case False
  then show ?thesis using run_pg_statement [OF assms(1,2)] by auto
qed

lemma bound_valueI: "map_of ps n = Some v \<Longrightarrow> bound_value ps n = v"
  by (simp add: bound_value_def)

lemmas pg_statement = pg_insert_def pg_update_def pg_extend_def pg_unlock_def

interpretation pg_db: sql_database pg_handler PgConnection pg_src "\<lambda>s. s"
proof (unfold_locales, goal_cases)
  case 1
  show ?case by (simp add: pg_src_def PostgresSqlStatementsSource_def statements_source_def pg_cfg_def Let_def)
next
  case (2 ps w r w' n u b)
  then have q: "run pg_handler (pg_query (st_insert pg_src) ps) w = (r, w')" by (simp add: PgConnection_def)
  note b = bound_valueI [OF 2(2)] bound_valueI [OF 2(3)] bound_valueI [OF 2(4)]
  show ?case
  proof (cases "\<exists>t. bound_value ps ''now'' = JDate t")
    case True
    then have "pg_handler (PgQuery (numbered_text (st_insert pg_src))
        (map (bound_value ps) (firsts [] (sql_names (st_insert pg_src))))) w = pg_write (w_store w n = None) n (u, b) w"
      by (auto simp: pg_orders b pg_insert_def)
    from pg_wrote [OF this q] show ?thesis by simp
  next
    case False
    then have "pg_handler (PgQuery (numbered_text (st_insert pg_src))
        (map (bound_value ps) (firsts [] (sql_names (st_insert pg_src))))) w = (pg_error, w)"
      by (auto simp: pg_orders b pg_insert_def split: jsv.splits)
    from pg_refused [OF this q] show ?thesis by auto
  qed
next
  case (3 ps w r w' n u b)
  then have q: "run pg_handler (pg_query (st_update pg_src) ps) w = (r, w')" by (simp add: PgConnection_def)
  note b = bound_valueI [OF 3(2)] bound_valueI [OF 3(3)] bound_valueI [OF 3(4)]
  show ?case
  proof (cases "\<exists>t. bound_value ps ''now'' = JDate t")
    case True
    then obtain t where t: "bound_value ps ''now'' = JDate t" by blast
    have "pg_handler (PgQuery (numbered_text (st_update pg_src))
        (map (bound_value ps) (firsts [] (sql_names (st_update pg_src))))) w =
        pg_write (case w_store w n of None \<Rightarrow> False | Some (u0, b0) \<Rightarrow> js_le u0 t) n (u, b) w"
      by (simp add: pg_orders b t pg_update_def pg_texts)
    then have "pg_handler (PgQuery (numbered_text (st_update pg_src))
        (map (bound_value ps) (firsts [] (sql_names (st_update pg_src))))) w =
        pg_write (\<exists>u0 b0. w_store w n = Some (u0, b0) \<and> js_le u0 t) n (u, b) w"
      by (cases "w_store w n") auto
    from pg_wrote_now [where P = "\<lambda>t. \<exists>u0 b0. w_store w n = Some (u0, b0) \<and> js_le u0 t", OF this q t] show ?thesis
      by (simp add: pg_orders)
  next
    case False
    then have "pg_handler (PgQuery (numbered_text (st_update pg_src))
        (map (bound_value ps) (firsts [] (sql_names (st_update pg_src))))) w = (pg_error, w)"
      by (auto simp: pg_orders b pg_update_def pg_texts split: jsv.splits)
    from pg_refused [OF this q] show ?thesis by auto
  qed
next
  case (4 ps w r w' n u b p)
  then have q: "run pg_handler (pg_query (st_extend pg_src) ps) w = (r, w')" by (simp add: PgConnection_def)
  note b = bound_valueI [OF 4(2)] bound_valueI [OF 4(3)] bound_valueI [OF 4(4)] bound_valueI [OF 4(5)]
  show ?case
  proof (cases "\<exists>t. bound_value ps ''now'' = JDate t")
    case True
    then obtain t where t: "bound_value ps ''now'' = JDate t" by blast
    have "pg_handler (PgQuery (numbered_text (st_extend pg_src))
        (map (bound_value ps) (firsts [] (sql_names (st_extend pg_src))))) w =
        pg_write (w_store w n = Some (p, b) \<and> js_lt t p) n (u, b) w"
      by (simp add: pg_orders b t pg_extend_def pg_texts)
    from pg_wrote_now [where P = "\<lambda>t. w_store w n = Some (p, b) \<and> js_lt t p", OF this q t] show ?thesis
      by (simp add: pg_orders)
  next
    case False
    then have "pg_handler (PgQuery (numbered_text (st_extend pg_src))
        (map (bound_value ps) (firsts [] (sql_names (st_extend pg_src))))) w = (pg_error, w)"
      by (auto simp: pg_orders b pg_extend_def pg_texts split: jsv.splits)
    from pg_refused [OF this q] show ?thesis by auto
  qed
next
  case (5 ps w r w' n u b x)
  then have q: "run pg_handler (pg_query (st_unlock pg_src) ps) w = (r, w')" by (simp add: PgConnection_def)
  note b = bound_valueI [OF 5(2)] bound_valueI [OF 5(3)] bound_valueI [OF 5(4)] bound_valueI [OF 5(5)]
  have "pg_handler (PgQuery (numbered_text (st_unlock pg_src))
      (map (bound_value ps) (firsts [] (sql_names (st_unlock pg_src))))) w = pg_write (w_store w n = Some (u, b)) n (x, b) w"
    by (simp add: pg_orders b pg_unlock_def pg_texts)
  from pg_wrote [OF this q] show ?case by simp
qed

section \<open>Mutual exclusion\<close>



definition pg_world0 :: "pg_table storage_state world" where
  "pg_world0 = \<lparr>w_date = Fin 0, w_clock = None, w_store = \<lparr>registry = {}, backend = (\<lambda>_. None)\<rparr>\<rparr>"

lemma pg_world0_simps [simp]: "registry (w_store pg_world0) = {}" "backend (w_store pg_world0) = (\<lambda>_. None)"
  "ClockProvider_now pg_world0 = Fin 0"
  by (simp_all add: pg_world0_def ClockProvider_now_def)

lemma pg_world0_inv [simp]: "sql_database.sql_inv (backend_world pg_world0)"
  unfolding pg_db.sql_inv_def by (rule exI [of _ 0]) (simp add: date_range_def)



end
