(* ===== verification/Otel.thy ===== *)
theory Otel
  imports Executor
begin

text \<open>
  packages/otel/src/open-telemetry-lock-metrics.ts: metrics around a lock provider and the listener of the executor.

  The meter is external: creating an instrument gives a handle, and \<open>add\<close> and \<open>record\<close> are programs that may throw.  Attributes are
  the properties of the object in order; names of errors are strings.
\<close>

section \<open>Instruments and attributes\<close>

type_synonym attributes = "(string \<times> jsv) list"

record 'q instruments =
  metric_add :: "string \<Rightarrow> jsnum \<Rightarrow> attributes \<Rightarrow> ('q, unit) prog"
  metric_record :: "string \<Rightarrow> jsnum \<Rightarrow> attributes \<Rightarrow> ('q, unit) prog"
  otel_now :: "('q, jsnum) prog"

text \<open>The arguments of \<open>createCounter\<close>, \<open>createHistogram\<close> and \<open>createUpDownCounter\<close>.\<close>

datatype instrument_kind = Counter | Histogram "nat list" | UpDownCounter

record instrument_decl =
  id_kind :: instrument_kind
  id_name :: string
  id_description :: string
  id_unit :: string

definition DURATION_BOUNDARIES :: "nat list" where
  "DURATION_BOUNDARIES = [5, 10, 25, 50, 100, 250, 500, 1000, 2500, 5000, 10000, 30000, 60000, 300000]"

definition instrument_decls :: "instrument_decl list" where
  "instrument_decls = map (\<lambda>(k, n, d, u). \<lparr>id_kind = k, id_name = n, id_description = d, id_unit = u\<rparr>)
     [(Counter, ''tslock.lock.attempt'', ''Lock acquisition attempts'', ''{attempt}''),
      (Counter, ''tslock.lock.acquired'', ''Locks acquired'', ''{lock}''),
      (Counter, ''tslock.lock.skipped'', ''Locks skipped because they were held elsewhere'', ''{lock}''),
      (Counter, ''tslock.lock.unlocked'', ''Lock unlock calls'', ''{call}''),
      (Histogram DURATION_BOUNDARIES, ''tslock.lock.unlock.duration'', ''Lock unlock call duration'', ''ms''),
      (Counter, ''tslock.lock.extend'', ''Lock extend calls'', ''{call}''),
      (Histogram DURATION_BOUNDARIES, ''tslock.lock.extend.duration'', ''Lock extend call duration'', ''ms''),
      (Counter, ''tslock.lock.keepalive.failure'',
         ''Keep-alive renewals that stopped after the lock was lost or the retry failed'', ''{failure}''),
      (Histogram DURATION_BOUNDARIES, ''tslock.task.duration'', ''Locked task execution time'', ''ms''),
      (UpDownCounter, ''tslock.task.active'', ''Tasks currently executing under a lock'', ''{task}'')]"

text \<open>\<open>record(emit)\<close>: what the instrument throws is dropped.\<close>

definition otel_emit :: "('q, unit) prog \<Rightarrow> ('q, unit) prog" where
  "otel_emit emit = catching emit (\<lambda>_. Ret ())"

definition errorType :: "jsv \<Rightarrow> string" where
  "errorType error = (case error of
     JErr _ _ \<Rightarrow> (case jget error ''name'' of JStr s \<Rightarrow> if s \<noteq> [] then s else ''Error'' | _ \<Rightarrow> ''Error'')
   | _ \<Rightarrow> ''Error'')"

definition lockAttributes :: "LockConfiguration \<Rightarrow> attributes \<Rightarrow> attributes" where
  "lockAttributes config extra =
     [(''lock.name'', JStr (cfg_name config)), (''lock.at_most_for_ms'', JNum (lockAtMostFor config)),
      (''lock.at_least_for_ms'', JNum (lockAtLeastFor config))] @ extra"

text \<open>\<open>failure\<close> is \<open>Some\<close> where \<open>failed\<close> is true.\<close>

definition outcomeAttributes :: "LockConfiguration \<Rightarrow> jsv option \<Rightarrow> attributes" where
  "outcomeAttributes config failure = (case failure of
     None \<Rightarrow> lockAttributes config [(''outcome'', JStr ''success'')]
   | Some e \<Rightarrow> lockAttributes config [(''outcome'', JStr ''failure'')] @
       [(''error.type'', JStr (if e = JStr ''NotExtended'' then ''NotExtended'' else errorType e))])"

section \<open>ObservedSimpleLock\<close>

text \<open>A lock of the provider, or the wrapper of a lock.\<close>

datatype 'l otel_lock = PlainLock 'l | ObservedSimpleLock "'l otel_lock" LockConfiguration

text \<open>The \<open>finally\<close> blocks: counter and duration, then the outcome of the delegate.\<close>

definition observe ::
  "'q instruments \<Rightarrow> string \<Rightarrow> string \<Rightarrow> LockConfiguration \<Rightarrow> jsnum \<Rightarrow> jsv option \<Rightarrow> jsv + 'a \<Rightarrow> ('q, 'a) prog" where
  "observe ins counter duration config start failure r =
     await (otel_now ins) (\<lambda>end_time.
       let attributes = outcomeAttributes config failure in
       await (otel_emit (metric_add ins counter (Fin 1) attributes)) (\<lambda>_.
       await (otel_emit (metric_record ins duration (js_sub end_time start) attributes)) (\<lambda>_.
       sync r Ret)))"

primrec otel_unlock :: "'q instruments \<Rightarrow> ('q, 'l) lock_ops \<Rightarrow> 'l otel_lock \<Rightarrow> ('q, unit) prog" where
  "otel_unlock ins ops (PlainLock l) = op_unlock ops l"
| "otel_unlock ins ops (ObservedSimpleLock delegate config) =
     await (otel_now ins) (\<lambda>start. pbind (otel_unlock ins ops delegate) (\<lambda>r.
       observe ins ''tslock.lock.unlocked'' ''tslock.lock.unlock.duration'' config start
         (case r of Inl e \<Rightarrow> Some e | Inr _ \<Rightarrow> None) r))"

primrec otel_extend ::
  "'q instruments \<Rightarrow> ('q, 'l) lock_ops \<Rightarrow> 'l otel_lock \<Rightarrow> jsnum \<Rightarrow> jsnum \<Rightarrow> ('q, 'l otel_lock option) prog" where
  "otel_extend ins ops (PlainLock l) most least = await (op_extend ops l most least) (\<lambda>next. Ret (map_option PlainLock next))"
| "otel_extend ins ops (ObservedSimpleLock delegate config) most least =
     (let requested = \<lparr>cfg_name = cfg_name config, lockAtMostFor = most, lockAtLeastFor = least, createdAt = createdAt config\<rparr> in
      await (otel_now ins) (\<lambda>start. pbind (otel_extend ins ops delegate most least) (\<lambda>r.
        observe ins ''tslock.lock.extend'' ''tslock.lock.extend.duration'' requested start
          (case r of Inl e \<Rightarrow> Some e | Inr None \<Rightarrow> Some (JStr ''NotExtended'') | Inr (Some next) \<Rightarrow> None)
          (map_sum id (map_option (\<lambda>next. ObservedSimpleLock next requested)) r))))"

definition otel_ops :: "'q instruments \<Rightarrow> ('q, 'l) lock_ops \<Rightarrow> ('q, 'l otel_lock) lock_ops" where
  "otel_ops ins ops = \<lparr>op_unlock = otel_unlock ins ops, op_extend = otel_extend ins ops\<rparr>"

section \<open>createOpenTelemetryLockMetrics\<close>

definition otel_listener :: "'q instruments \<Rightarrow> 'q LockingTaskExecutorListener" where
  "otel_listener ins =
     \<lparr>onLockAttempt = (\<lambda>c. otel_emit (metric_add ins ''tslock.lock.attempt'' (Fin 1) (lockAttributes c []))),
      onLockAcquired = (\<lambda>c. otel_emit (metric_add ins ''tslock.lock.acquired'' (Fin 1) (lockAttributes c []))),
      onLockNotAcquired = (\<lambda>c. otel_emit (metric_add ins ''tslock.lock.skipped'' (Fin 1) (lockAttributes c []))),
      onTaskStarted = (\<lambda>c. otel_emit (metric_add ins ''tslock.task.active'' (Fin 1) (lockAttributes c []))),
      onTaskFinished = (\<lambda>c t. await (otel_emit (metric_record ins ''tslock.task.duration'' t (lockAttributes c [])))
        (\<lambda>_. otel_emit (metric_add ins ''tslock.task.active'' (Fin (- 1)) (lockAttributes c [])))),
      onUnlockError = None\<rparr>"

definition otel_onKeepAliveFailure :: "'q instruments \<Rightarrow> LockConfiguration \<Rightarrow> jsv \<Rightarrow> ('q, unit) prog" where
  "otel_onKeepAliveFailure ins config error = otel_emit (metric_add ins ''tslock.lock.keepalive.failure'' (Fin 1)
     (lockAttributes config [(''error.type'', JStr (errorType error))]))"

text \<open>A provider as an object: its \<open>lock\<close> and its two markers.\<close>

record ('q, 'l) otel_provider =
  ip_lock :: "LockConfiguration \<Rightarrow> ('q, 'l otel_lock option) prog"
  ip_extensible :: bool
  ip_instrumented :: bool

definition otel_instrument :: "('q, 'l) otel_provider \<Rightarrow> ('q, 'l) otel_provider" where
  "otel_instrument provider =
     (if ip_instrumented provider then provider
      else \<lparr>ip_lock = (\<lambda>config. await (ip_lock provider config) (\<lambda>lock. case lock of
              None \<Rightarrow> Ret None | Some l \<Rightarrow> Ret (Some (ObservedSimpleLock l config)))),
            ip_extensible = ip_extensible provider, ip_instrumented = True\<rparr>)"

definition plain_provider :: "(LockConfiguration \<Rightarrow> ('q, 'l option) prog) \<Rightarrow> bool \<Rightarrow> ('q, 'l) otel_provider" where
  "plain_provider lock extensible =
     \<lparr>ip_lock = (\<lambda>c. await (lock c) (\<lambda>l. Ret (map_option PlainLock l))), ip_extensible = extensible, ip_instrumented = False\<rparr>"

section \<open>Facts\<close>

lemma run_otel_emit: "run h (otel_emit p) w = (Inr (), emitted h p w)"
  by (auto simp: otel_emit_def run_catching emitted_def split: prod.splits sum.splits)

lemma run_observe:
  assumes "run h (otel_now ins) w = (Inr t, w1)"
  shows "run h (observe ins counter duration config start failure r) w =
    (r, emitted h (metric_record ins duration (js_sub t start) (outcomeAttributes config failure))
        (emitted h (metric_add ins counter (Fin 1) (outcomeAttributes config failure)) w1))"
  using assms by (cases r) (simp_all add: observe_def run_await run_otel_emit run_sync Let_def)

lemma otel_instrument_twice: "otel_instrument (otel_instrument p) = otel_instrument p"
  by (simp add: otel_instrument_def)

text \<open>The delegate under all wrappers.\<close>

primrec inner_lock :: "'l otel_lock \<Rightarrow> 'l" where
  "inner_lock (PlainLock l) = l"
| "inner_lock (ObservedSimpleLock d c) = inner_lock d"

lemma instrument_locks:
  "run h (ip_lock (otel_instrument (plain_provider lock ext)) c) w =
    (case run h (lock c) w of (Inl e, w') \<Rightarrow> (Inl e, w')
     | (Inr l, w') \<Rightarrow> (Inr (map_option (\<lambda>l. ObservedSimpleLock (PlainLock l) c) l), w'))"
  by (auto simp: otel_instrument_def plain_provider_def run_await split: prod.splits sum.splits option.splits)

section \<open>Metrics are transparent\<close>

text \<open>
  \<open>view\<close> is what the back end and the other clients can tell about the world.  The instruments do not change it, whatever they
  throw, and \<open>performance.now()\<close> returns; the operations of the provider depend on nothing else.
\<close>

locale metered =
  fixes h :: "('q, 's) handler"
    and ins :: "'q instruments"
    and ops :: "('q, 'l) lock_ops"
    and view :: "'s world \<Rightarrow> 'v"
  assumes keep_add: "view (snd (run h (metric_add ins n x a) w)) = view w"
    and keep_record: "view (snd (run h (metric_record ins n x a) w)) = view w"
    and now_returns: "\<exists>t w'. run h (otel_now ins) w = (Inr t, w') \<and> view w' = view w"
    and unlock_view: "view w = view v \<Longrightarrow> fst (run h (op_unlock ops l) w) = fst (run h (op_unlock ops l) v) \<and>
      view (snd (run h (op_unlock ops l) w)) = view (snd (run h (op_unlock ops l) v))"
    and extend_view: "view w = view v \<Longrightarrow> fst (run h (op_extend ops l m k) w) = fst (run h (op_extend ops l m k) v) \<and>
      view (snd (run h (op_extend ops l m k) w)) = view (snd (run h (op_extend ops l m k) v))"
begin

lemma observe_view:
  "\<exists>w'. run h (observe ins counter duration config start failure r) w = (r, w') \<and> view w' = view w"
proof -
  obtain t w1 where "run h (otel_now ins) w = (Inr t, w1)" "view w1 = view w" using now_returns by blast
  then show ?thesis by (simp add: run_observe emitted_def keep_add keep_record)
qed

lemma unlock_transparent:
  "view w = view v \<Longrightarrow> fst (run h (otel_unlock ins ops l) w) = fst (run h (op_unlock ops (inner_lock l)) v) \<and>
    view (snd (run h (otel_unlock ins ops l) w)) = view (snd (run h (op_unlock ops (inner_lock l)) v))"
proof (induction l arbitrary: w)
  case (PlainLock l)
  then show ?case using unlock_view [OF PlainLock, of l] by simp
next
  case (ObservedSimpleLock d c)
  obtain s w1 where n: "run h (otel_now ins) w = (Inr s, w1)" "view w1 = view w" using now_returns by blast
  obtain r w2 where d: "run h (otel_unlock ins ops d) w1 = (r, w2)" by fastforce
  obtain w3 where ob: "run h (observe ins ''tslock.lock.unlocked'' ''tslock.lock.unlock.duration'' c s
      (case r of Inl e \<Rightarrow> Some e | Inr _ \<Rightarrow> None) r) w2 = (r, w3)" "view w3 = view w2"
    using observe_view by blast
  have eq: "run h (otel_unlock ins ops (ObservedSimpleLock d c)) w = (r, w3)" by (simp add: run_await run_pbind n(1) ob(1) d)
  show ?case
    using ObservedSimpleLock.IH [OF n(2) [THEN trans, OF ObservedSimpleLock.prems]]
    unfolding eq d fst_conv snd_conv ob(2) inner_lock.simps .
qed

lemma extend_transparent:
  "view w = view v \<Longrightarrow>
    map_sum id (map_option inner_lock) (fst (run h (otel_extend ins ops l m k) w)) = fst (run h (op_extend ops (inner_lock l) m k) v) \<and>
    view (snd (run h (otel_extend ins ops l m k) w)) = view (snd (run h (op_extend ops (inner_lock l) m k) v))"
proof (induction l arbitrary: w)
  case (PlainLock l)
  have a: "map_sum id (map_option inner_lock) (fst (run h (otel_extend ins ops (PlainLock l) m k) w)) =
      fst (run h (op_extend ops l m k) w)" for w
    by (auto simp: run_await option.map_comp comp_def option.map_ident split: prod.splits sum.splits)
  have b: "snd (run h (otel_extend ins ops (PlainLock l) m k) w) = snd (run h (op_extend ops l m k) w)" for w
    by (auto simp: run_await split: prod.splits sum.splits)
  show ?case unfolding a b inner_lock.simps by (rule extend_view [OF PlainLock])
next
  case (ObservedSimpleLock d c)
  let ?c = "\<lparr>cfg_name = cfg_name c, lockAtMostFor = m, lockAtLeastFor = k, createdAt = createdAt c\<rparr>"
  obtain s w1 where n: "run h (otel_now ins) w = (Inr s, w1)" "view w1 = view w" using now_returns by blast
  obtain r w2 where d: "run h (otel_extend ins ops d m k) w1 = (r, w2)" by fastforce
  let ?r = "map_sum id (map_option (\<lambda>next. ObservedSimpleLock next ?c)) r"
  obtain w3 where ob: "run h (observe ins ''tslock.lock.extend'' ''tslock.lock.extend.duration'' ?c s
      (case r of Inl e \<Rightarrow> Some e | Inr None \<Rightarrow> Some (JStr ''NotExtended'') | Inr (Some next) \<Rightarrow> None) ?r) w2 = (?r, w3)"
    "view w3 = view w2"
    using observe_view by blast
  have rr: "map_sum id (map_option inner_lock) ?r = map_sum id (map_option inner_lock) r"
    by (cases r) (auto simp: option.map_comp comp_def)
  have eq: "run h (otel_extend ins ops (ObservedSimpleLock d c) m k) w = (?r, w3)"
    by (simp add: run_await run_pbind Let_def n(1) ob(1) d)
  show ?case
    using ObservedSimpleLock.IH [OF n(2) [THEN trans, OF ObservedSimpleLock.prems]]
    unfolding eq d fst_conv snd_conv ob(2) inner_lock.simps rr .
qed

end
section \<open>A meter beside any provider\<close>

text \<open>The metrics are kept in a list; every histogram throws after it took the value.\<close>

datatype 'q meter_req = AddMetric string jsnum attributes | RecordMetric string jsnum attributes | PerformanceNow | Inner 'q

record 's metered_state =
  ms_metrics :: "(string \<times> jsnum \<times> attributes) list"
  ms_inner :: 's

definition inner_world :: "'s metered_state world \<Rightarrow> 's world" where
  "inner_world w = \<lparr>w_date = w_date w, w_clock = w_clock w, w_store = ms_inner (w_store w)\<rparr>"

definition with_inner :: "'s metered_state world \<Rightarrow> 's world \<Rightarrow> 's metered_state world" where
  "with_inner w v = \<lparr>w_date = w_date v, w_clock = w_clock v, w_store = (w_store w)\<lparr>ms_inner := w_store v\<rparr>\<rparr>"

definition add_metric :: "string \<times> jsnum \<times> attributes \<Rightarrow> 's metered_state world \<Rightarrow> 's metered_state world" where
  "add_metric m w = w\<lparr>w_store := (w_store w)\<lparr>ms_metrics := ms_metrics (w_store w) @ [m]\<rparr>\<rparr>"

fun meter_handler :: "('q, 's) handler \<Rightarrow> ('q meter_req, 's metered_state) handler" where
  "meter_handler h (AddMetric n x a) w = (Inr JUndef, add_metric (n, x, a) w)"
| "meter_handler h (RecordMetric n x a) w = (Inl (mk_error ''Error'' ''histogram''), add_metric (n, x, a) w)"
| "meter_handler h PerformanceNow w = (Inr (JNum (w_date w)), w)"
| "meter_handler h (Inner q) w = (case h q (inner_world w) of (r, v) \<Rightarrow> (r, with_inner w v))"

definition meter_instruments :: "'q meter_req instruments" where
  "meter_instruments = \<lparr>metric_add = (\<lambda>n x a. request (AddMetric n x a) (\<lambda>_. Ret ())),
     metric_record = (\<lambda>n x a. request (RecordMetric n x a) (\<lambda>_. Ret ())),
     otel_now = request PerformanceNow (\<lambda>t. Ret (case t of JNum n \<Rightarrow> n | _ \<Rightarrow> NaN))\<rparr>"

definition inner_prog :: "('q, 'a) prog \<Rightarrow> ('q meter_req, 'a) prog" where
  "inner_prog p = map_prog Inner id p"

definition inner_ops :: "('q, 'l) lock_ops \<Rightarrow> ('q meter_req, 'l) lock_ops" where
  "inner_ops ops = \<lparr>op_unlock = (\<lambda>l. inner_prog (op_unlock ops l)), op_extend = (\<lambda>l m k. inner_prog (op_extend ops l m k))\<rparr>"

lemma inner_world_simps [simp]:
  "inner_world (with_inner w v) = v" "with_inner (with_inner w u) v = with_inner w v" "with_inner w (inner_world w) = w"
  "inner_world (add_metric m w) = inner_world w" "ClockProvider_now (inner_world w) = ClockProvider_now w"
  by (simp_all add: inner_world_def with_inner_def add_metric_def ClockProvider_now_def split: option.split)

lemma run_inner_prog:
  "run (meter_handler h) (inner_prog p) w = (case run h p (inner_world w) of (r, v) \<Rightarrow> (r, with_inner w v))"
  by (induction p arbitrary: w) (auto simp: inner_prog_def split: prod.splits)

interpretation meter: metered "meter_handler h" meter_instruments "inner_ops ops" inner_world for h ops
proof (unfold_locales, goal_cases)
  case (4 w v l)
  then show ?case by (simp add: inner_ops_def run_inner_prog split: prod.splits)
next
  case (5 w v l m k)
  then show ?case by (simp add: inner_ops_def run_inner_prog split: prod.splits)
qed (simp_all add: meter_instruments_def)

section \<open>Properties\<close>

text \<open>
  C35: Metrics never change what a lock does: through any number of wrappers, with instruments that may throw at every call, unlock
  and extend have the outcome of the wrapped lock and leave the same world for everyone but the meter.
\<close>

theorem Otel_transparent:
  assumes "metered h ins ops view" "view w = view v"
  shows "fst (run h (op_unlock (otel_ops ins ops) l) w) = fst (run h (op_unlock ops (inner_lock l)) v) \<and>
    view (snd (run h (op_unlock (otel_ops ins ops) l) w)) = view (snd (run h (op_unlock ops (inner_lock l)) v)) \<and>
    map_sum id (map_option inner_lock) (fst (run h (op_extend (otel_ops ins ops) l m k) w)) =
      fst (run h (op_extend ops (inner_lock l) m k) v) \<and>
    view (snd (run h (op_extend (otel_ops ins ops) l m k) w)) = view (snd (run h (op_extend ops (inner_lock l) m k) v))"
  using metered.unlock_transparent [OF assms] metered.extend_transparent [OF assms] by (simp add: otel_ops_def)

theorem Otel_transparent_witness:
  "\<forall>h ops l c w. fst (run (meter_handler h) (op_unlock (otel_ops meter_instruments (inner_ops ops))
      (ObservedSimpleLock (ObservedSimpleLock (PlainLock l) c) c)) w) = fst (run h (op_unlock ops l) (inner_world w))"
proof (intro allI)
  fix h :: "('q, 's) handler" and ops :: "('q, 'l) lock_ops" and l c w
  have "fst (run (meter_handler h) (op_unlock (otel_ops meter_instruments (inner_ops ops))
      (ObservedSimpleLock (ObservedSimpleLock (PlainLock l) c) c)) w) = fst (run (meter_handler h) (op_unlock (inner_ops ops) l) w)"
    using Otel_transparent [OF meter.metered_axioms refl, of h ops "ObservedSimpleLock (ObservedSimpleLock (PlainLock l) c) c" w] by simp
  then show "fst (run (meter_handler h) (op_unlock (otel_ops meter_instruments (inner_ops ops))
      (ObservedSimpleLock (ObservedSimpleLock (PlainLock l) c) c)) w) = fst (run h (op_unlock ops l) (inner_world w))"
    by (simp add: inner_ops_def run_inner_prog split: prod.splits)
qed

end
