(* ===== verification/PeerRanges.thy ===== *)
theory PeerRanges
  imports Config JsonParse "HOL-Library.Product_Lexorder" "HOL-Library.List_Lexorder" "HOL-Library.Char_ord"
begin

text \<open>
  scripts/check-peer-dev-ranges.mjs: whether the range of a development dependency meets the range of the peer dependency.  A range
  is parsed to intervals of versions; versions are triples, ordered lexicographically.  Sections of a manifest are objects.  The numbers of a
  version are exact (doubles are, to_max \<open>2 ^ 53\<close>).
\<close>

section \<open>Comparators\<close>

datatype component = Missing | Wild | Number nat

record version_parts =
  p_major :: component
  p_minor :: component
  p_patch :: component

type_synonym version = "nat \<times> nat \<times> nat"

record interval =
  iv_min :: "version option"
  iv_minInclusive :: bool
  iv_max :: "version option"
  iv_maxInclusive :: bool

definition unbounded :: interval where
  "unbounded = \<lparr>iv_min = None, iv_minInclusive = True, iv_max = None, iv_maxInclusive = False\<rparr>"

text \<open>The groups of \<open>COMPARATOR\<close>; the pattern matches in one way only.\<close>

definition read_operator :: "string \<Rightarrow> string option \<times> string" where
  "read_operator s =
     (if starts_with s ''>='' \<or> starts_with s ''<='' then (Some (take 2 s), drop 2 s)
      else if s \<noteq> [] \<and> hd s \<in> {CHR ''>'', CHR ''<'', CHR ''='', CHR ''^'', CHR ''~''} then (Some [hd s], tl s)
      else (None, s))"

definition read_component :: "string \<Rightarrow> (string \<times> string) option" where
  "read_component s = (case s of
     [] \<Rightarrow> None
   | c # r \<Rightarrow> if is_digit c then Some (takeWhile is_digit s, dropWhile is_digit s)
             else if c \<in> {CHR ''x'', CHR ''*'', CHR ''X''} then Some ([c], r) else None)"

definition read_dotted :: "string \<Rightarrow> string option \<times> string" where
  "read_dotted s = (case s of
     [] \<Rightarrow> (None, s)
   | c # r \<Rightarrow> if c = CHR ''.'' then (case read_component r of Some (x, t) \<Rightarrow> (Some x, t) | None \<Rightarrow> (None, s)) else (None, s))"

definition COMPARATOR_exec :: "string \<Rightarrow> (string option \<times> string \<times> string option \<times> string option) option" where
  "COMPARATOR_exec token =
     (let (operator, s) = read_operator token;
          s1 = (if s \<noteq> [] \<and> hd s = CHR ''v'' then tl s else s)
      in case read_component s1 of
           None \<Rightarrow> None
         | Some (major, s2) \<Rightarrow>
             (let (minor, s3) = read_dotted s2; (patch, s4) = read_dotted s3 in
              if s4 = [] then Some (operator, major, minor, patch) else None))"

definition parseComponent :: "string option \<Rightarrow> component" where
  "parseComponent v = (case v of
     None \<Rightarrow> Missing
   | Some s \<Rightarrow> if s \<in> {''x'', ''X'', ''*''} then Wild else Number (digits_nat s))"

definition partsFromMatch :: "string \<Rightarrow> string option \<Rightarrow> string option \<Rightarrow> version_parts option" where
  "partsFromMatch m2 m3 m4 =
     (let major = parseComponent (Some m2); minor = parseComponent m3; patch = parseComponent m4 in
      if major = Wild then
        (if minor \<noteq> Missing \<or> patch \<noteq> Missing then None else Some \<lparr>p_major = Wild, p_minor = Wild, p_patch = Wild\<rparr>)
      else if minor = Wild then
        (if patch \<noteq> Missing then None else Some \<lparr>p_major = major, p_minor = Wild, p_patch = Wild\<rparr>)
      else if patch = Wild then
        (if minor = Missing then None else Some \<lparr>p_major = major, p_minor = minor, p_patch = Wild\<rparr>)
      else Some \<lparr>p_major = major, p_minor = minor, p_patch = patch\<rparr>)"

definition isSpecified :: "component \<Rightarrow> bool" where
  "isSpecified c \<longleftrightarrow> c \<noteq> Missing \<and> c \<noteq> Wild"

definition value_of :: "component \<Rightarrow> nat" where
  "value_of c = (case c of Number n \<Rightarrow> n | _ \<Rightarrow> 0)"

definition filled :: "version_parts \<Rightarrow> version" where
  "filled p = (value_of (p_major p), value_of (p_minor p), value_of (p_patch p))"

definition half_open :: "version \<Rightarrow> version \<Rightarrow> interval" where
  "half_open a b = \<lparr>iv_min = Some a, iv_minInclusive = True, iv_max = Some b, iv_maxInclusive = False\<rparr>"

definition caretInterval :: "version_parts \<Rightarrow> interval" where
  "caretInterval p =
     (if p_major p = Wild then unbounded
      else (let major = value_of (p_major p); minor = value_of (p_minor p) in
        half_open (filled p)
          (if 0 < major \<or> \<not> isSpecified (p_minor p) then (major + 1, 0, 0)
           else if 0 < minor \<or> \<not> isSpecified (p_patch p) then (major, minor + 1, 0)
           else (major, minor, value_of (p_patch p) + 1))))"

definition tildeInterval :: "version_parts \<Rightarrow> interval" where
  "tildeInterval p =
     (if p_major p = Wild then unbounded
      else half_open (filled p)
        (if isSpecified (p_minor p) then (value_of (p_major p), value_of (p_minor p) + 1, 0)
         else (value_of (p_major p) + 1, 0, 0)))"

definition xRangeInterval :: "version_parts \<Rightarrow> interval" where
  "xRangeInterval p =
     (let major = value_of (p_major p); minor = value_of (p_minor p); v = filled p in
      if p_major p = Wild then unbounded
      else if \<not> isSpecified (p_minor p) then half_open (major, 0, 0) (major + 1, 0, 0)
      else if \<not> isSpecified (p_patch p) then half_open (major, minor, 0) (major, minor + 1, 0)
      else \<lparr>iv_min = Some v, iv_minInclusive = True, iv_max = Some v, iv_maxInclusive = True\<rparr>)"

definition comparatorInterval :: "string \<Rightarrow> version_parts \<Rightarrow> interval option" where
  "comparatorInterval operator p =
     (let v = Some (filled p) in
      if p_major p = Wild \<or> p_minor p = Wild \<or> p_patch p = Wild then None
      else if operator = ''>='' then Some \<lparr>iv_min = v, iv_minInclusive = True, iv_max = None, iv_maxInclusive = False\<rparr>
      else if operator = ''>'' then Some \<lparr>iv_min = v, iv_minInclusive = False, iv_max = None, iv_maxInclusive = False\<rparr>
      else if operator = ''<='' then Some \<lparr>iv_min = None, iv_minInclusive = True, iv_max = v, iv_maxInclusive = True\<rparr>
      else if operator = ''<'' then Some \<lparr>iv_min = None, iv_minInclusive = True, iv_max = v, iv_maxInclusive = False\<rparr>
      else if operator = ''='' then Some \<lparr>iv_min = v, iv_minInclusive = True, iv_max = v, iv_maxInclusive = True\<rparr>
      else None)"

definition parseComparator :: "string \<Rightarrow> interval option" where
  "parseComparator token =
     (if token \<in> {''*'', ''x'', ''X''} then Some unbounded
      else (case COMPARATOR_exec token of
        None \<Rightarrow> None
      | Some (m1, m2, m3, m4) \<Rightarrow> (case partsFromMatch m2 m3 m4 of
          None \<Rightarrow> None
        | Some p \<Rightarrow>
            (let operator = (case m1 of None \<Rightarrow> [] | Some s \<Rightarrow> s) in
             if operator = ''^'' then Some (caretInterval p)
             else if operator = ''~'' then Some (tildeInterval p)
             else if operator = [] then Some (xRangeInterval p)
             else comparatorInterval operator p))))"

section \<open>Intervals\<close>

fun cmpVersion :: "version \<Rightarrow> version \<Rightarrow> int" where
  "cmpVersion (a, b, c) (a', b', c') =
     (if int a - int a' \<noteq> 0 then int a - int a' else if int b - int b' \<noteq> 0 then int b - int b'
      else if int c - int c' \<noteq> 0 then int c - int c' else 0)"

definition endsBefore :: "version \<Rightarrow> bool \<Rightarrow> version \<Rightarrow> bool \<Rightarrow> bool" where
  "endsBefore stop stopInclusive start startInclusive =
     (let order = cmpVersion stop start in
      if order < 0 then True else if order > 0 then False else \<not> (stopInclusive \<and> startInclusive))"

definition higherLowerBound :: "interval \<Rightarrow> interval \<Rightarrow> version option \<times> bool" where
  "higherLowerBound l r = (case (iv_min l, iv_min r) of
     (None, _) \<Rightarrow> (iv_min r, iv_minInclusive r)
   | (Some a, None) \<Rightarrow> (iv_min l, iv_minInclusive l)
   | (Some a, Some b) \<Rightarrow>
       (let order = cmpVersion a b in
        if order > 0 then (Some a, iv_minInclusive l) else if order < 0 then (Some b, iv_minInclusive r)
        else (Some a, iv_minInclusive l \<and> iv_minInclusive r)))"

definition lowerUpperBound :: "interval \<Rightarrow> interval \<Rightarrow> version option \<times> bool" where
  "lowerUpperBound l r = (case (iv_max l, iv_max r) of
     (None, _) \<Rightarrow> (iv_max r, iv_maxInclusive r)
   | (Some a, None) \<Rightarrow> (iv_max l, iv_maxInclusive l)
   | (Some a, Some b) \<Rightarrow>
       (let order = cmpVersion a b in
        if order < 0 then (Some a, iv_maxInclusive l) else if order > 0 then (Some b, iv_maxInclusive r)
        else (Some a, iv_maxInclusive l \<and> iv_maxInclusive r)))"

definition ends_before :: "version option \<Rightarrow> bool \<Rightarrow> version option \<Rightarrow> bool \<Rightarrow> bool" where
  "ends_before stop stopInclusive start startInclusive = (case (stop, start) of
     (Some e, Some s) \<Rightarrow> endsBefore e stopInclusive s startInclusive | _ \<Rightarrow> False)"

definition intersectIntervals :: "interval \<Rightarrow> interval \<Rightarrow> interval option" where
  "intersectIntervals l r =
     (let (lo, loInc) = higherLowerBound l r; (up, upInc) = lowerUpperBound l r in
      if ends_before up upInc lo loInc then None
      else Some \<lparr>iv_min = lo, iv_minInclusive = loInc, iv_max = up, iv_maxInclusive = upInc\<rparr>)"

definition intervalsOverlap :: "interval \<Rightarrow> interval \<Rightarrow> bool" where
  "intervalsOverlap l r \<longleftrightarrow>
     \<not> ends_before (iv_max l) (iv_maxInclusive l) (iv_min r) (iv_minInclusive r) \<and>
     \<not> ends_before (iv_max r) (iv_maxInclusive r) (iv_min l) (iv_minInclusive l)"

section \<open>Ranges\<close>

fun split_bars :: "string \<Rightarrow> string list" where
  "split_bars [] = [[]]"
| "split_bars (c # s) = (case s of
     d # t \<Rightarrow> if c = CHR ''|'' \<and> d = CHR ''|'' then [] # split_bars t
              else (case split_bars s of p # ps \<Rightarrow> (c # p) # ps | [] \<Rightarrow> [[c]])
   | [] \<Rightarrow> [[c]])"

function split_spaces :: "string \<Rightarrow> string list" where
  "split_spaces s = takeWhile (\<lambda>c. \<not> is_js_space c) s #
     (case dropWhile (\<lambda>c. \<not> is_js_space c) s of [] \<Rightarrow> [] | c # r \<Rightarrow> split_spaces (dropWhile is_js_space r))"
  by pat_completeness auto
termination
proof (relation "measure length", goal_cases)
  case (2 s c r)
  have "length (dropWhile is_js_space r) \<le> length r" by (rule length_dropWhile_le)
  also have "length r < length (dropWhile (\<lambda>c. \<not> is_js_space c) s)" by (simp add: 2)
  also have "\<dots> \<le> length s" by (rule length_dropWhile_le)
  finally show ?case by simp
qed simp

declare split_spaces.simps [simp del]

text \<open>The loop over the tokens: \<open>None\<close> is \<open>return null\<close>, \<open>Some None\<close> the \<open>break\<close>.\<close>

fun meet_tokens :: "interval \<Rightarrow> string list \<Rightarrow> interval option option" where
  "meet_tokens interval [] = Some (Some interval)"
| "meet_tokens interval (token # ts) = (case parseComparator token of
     None \<Rightarrow> None
   | Some next \<Rightarrow> (case intersectIntervals interval next of None \<Rightarrow> Some None | Some j \<Rightarrow> meet_tokens j ts))"

fun collect_alternatives :: "string list \<Rightarrow> interval list option" where
  "collect_alternatives [] = Some []"
| "collect_alternatives (a # as) = (case meet_tokens unbounded (split_spaces a) of
     None \<Rightarrow> None
   | Some r \<Rightarrow> map_option (\<lambda>is. (case r of None \<Rightarrow> is | Some i \<Rightarrow> i # is)) (collect_alternatives as))"

definition range_alternatives :: "string \<Rightarrow> string list" where
  "range_alternatives rangeText = filter (\<lambda>p. 0 < length p) (map js_trim (split_bars rangeText))"

definition parseRange :: "jsv \<Rightarrow> interval list option" where
  "parseRange value = (case value of
     JStr s \<Rightarrow> (let alternatives = range_alternatives s in if alternatives = [] then None else collect_alternatives alternatives)
   | _ \<Rightarrow> None)"

definition rangesIntersect :: "jsv \<Rightarrow> jsv \<Rightarrow> bool option" where
  "rangesIntersect leftRange rightRange = (case (parseRange leftRange, parseRange rightRange) of
     (Some left, Some right) \<Rightarrow> Some (list_ex (\<lambda>l. list_ex (intervalsOverlap l) right) left)
   | _ \<Rightarrow> None)"

text \<open>\<open>null\<close> and missing sections give no problems.\<close>

definition peer_problem :: "jsv \<Rightarrow> jsv \<Rightarrow> string \<times> jsv \<Rightarrow> string list" where
  "peer_problem packageName devs = (\<lambda>(dependency, peerRange).
     (let devRange = jget devs dependency;
          report = (\<lambda>what. js_String packageName @ '': devDependencies.'' @ dependency @ '' ('' @ js_String devRange @ '') '' @ what @
            '' peerDependencies.'' @ dependency @ '' ('' @ js_String peerRange @ '')'')
      in if starts_with dependency ''@tslock/'' \<or> dependency \<notin> fst ` set (own_props devs) then []
         else (case rangesIntersect peerRange devRange of
           None \<Rightarrow> [report ''could not be compared with'']
         | Some b \<Rightarrow> if b then [] else [report ''does not intersect''])))"

definition peerDevRangeProblems :: "jsv \<Rightarrow> string list" where
  "peerDevRangeProblems packageJson =
     (let packageName = nullish (jget packageJson ''name'') (JStr ''<unknown>'');
          peers = jget packageJson ''peerDependencies''; devs = jget packageJson ''devDependencies''
      in if \<not> is_object peers \<or> \<not> is_object devs then []
         else concat (map (peer_problem packageName devs) (own_props peers)))"

text \<open>The manifests of the workspace; those that cannot be read or parsed are skipped.\<close>

definition workspacePeerDevRangeProblems :: "string list \<Rightarrow> (string \<Rightarrow> string option) \<Rightarrow> string \<Rightarrow> string list" where
  "workspacePeerDevRangeProblems packageDirectories readFile workspaceRoot =
     (let manifestPaths = (workspaceRoot @ ''/package.json'') #
        map (\<lambda>d. workspaceRoot @ ''/packages/'' @ d @ ''/package.json'') (sort packageDirectories)
      in concat (map (\<lambda>path. case readFile path of
           None \<Rightarrow> []
         | Some t \<Rightarrow> (case JSON_parse t of Inl e \<Rightarrow> [] | Inr packageJson \<Rightarrow> peerDevRangeProblems packageJson)) manifestPaths))"

section \<open>What ranges mean\<close>

definition from_min :: "version option \<Rightarrow> bool \<Rightarrow> version \<Rightarrow> bool" where
  "from_min m inclusive v \<longleftrightarrow> (case m of None \<Rightarrow> True | Some a \<Rightarrow> a < v \<or> inclusive \<and> v = a)"

definition to_max :: "version option \<Rightarrow> bool \<Rightarrow> version \<Rightarrow> bool" where
  "to_max m inclusive v \<longleftrightarrow> (case m of None \<Rightarrow> True | Some b \<Rightarrow> v < b \<or> inclusive \<and> v = b)"

definition in_interval :: "interval \<Rightarrow> version \<Rightarrow> bool" where
  "in_interval i v \<longleftrightarrow> from_min (iv_min i) (iv_minInclusive i) v \<and> to_max (iv_max i) (iv_maxInclusive i) v"

text \<open>
  The meaning of a comparator, by its parts: a caret keeps the left-most component that is not zero, a tilde keeps the minor version
  if there is one, no operator keeps what is written.
\<close>

fun allows :: "string \<Rightarrow> version_parts \<Rightarrow> version \<Rightarrow> bool" where
  "allows operator p (a, b, c) =
     (let major = value_of (p_major p); minor = value_of (p_minor p); patch = value_of (p_patch p); v = (a, b, c) in
      if operator \<in> {''^'', ''~'', []} then
        p_major p = Wild \<or> a = major \<and>
          (if operator = ''^'' then filled p \<le> v \<and> (major = 0 \<and> isSpecified (p_minor p) \<longrightarrow>
             b = minor \<and> (minor = 0 \<and> isSpecified (p_patch p) \<longrightarrow> c = patch))
           else if operator = ''~'' then filled p \<le> v \<and> (isSpecified (p_minor p) \<longrightarrow> b = minor)
           else isSpecified (p_minor p) \<longrightarrow> b = minor \<and> (isSpecified (p_patch p) \<longrightarrow> c = patch))
      else if operator = ''>='' then filled p \<le> v
      else if operator = ''>'' then filled p < v
      else if operator = ''<='' then v \<le> filled p
      else if operator = ''<'' then v < filled p
      else v = filled p)"

definition token_allows :: "string \<Rightarrow> version \<Rightarrow> bool" where
  "token_allows token v \<longleftrightarrow> token \<in> {''*'', ''x'', ''X''} \<or>
     (case COMPARATOR_exec token of
        None \<Rightarrow> False
      | Some (m1, m2, m3, m4) \<Rightarrow> (case partsFromMatch m2 m3 m4 of
          None \<Rightarrow> False | Some p \<Rightarrow> allows (case m1 of None \<Rightarrow> [] | Some s \<Rightarrow> s) p v))"

definition range_allows :: "string \<Rightarrow> version \<Rightarrow> bool" where
  "range_allows s v \<longleftrightarrow> (\<exists>a \<in> set (range_alternatives s). \<forall>t \<in> set (split_spaces a). token_allows t v)"

lemma unbounded_all [simp]: "in_interval unbounded v"
  by (simp add: in_interval_def unbounded_def from_min_def to_max_def)

lemma in_half_open: "in_interval (half_open a b) v \<longleftrightarrow> a \<le> v \<and> v < b"
  by (auto simp: in_interval_def half_open_def from_min_def to_max_def)

lemma caret_allows: "in_interval (caretInterval p) v \<longleftrightarrow> allows ''^'' p v"
proof (cases v)
  case (fields a b c)
  then show ?thesis by (auto simp: caretInterval_def in_half_open Let_def filled_def)
qed

lemma tilde_allows: "in_interval (tildeInterval p) v \<longleftrightarrow> allows ''~'' p v"
proof (cases v)
  case (fields a b c)
  then show ?thesis by (auto simp: tildeInterval_def in_half_open Let_def filled_def)
qed

lemma xrange_allows: "in_interval (xRangeInterval p) v \<longleftrightarrow> allows [] p v"
proof (cases v)
  case (fields a b c)
  then show ?thesis by (auto simp: xRangeInterval_def in_half_open Let_def filled_def in_interval_def from_min_def to_max_def half_open_def unbounded_def)
qed

lemma comparator_allows: "comparatorInterval operator p = Some i \<Longrightarrow> in_interval i v \<longleftrightarrow> allows operator p v"
  by (cases v) (auto simp: comparatorInterval_def Let_def in_interval_def from_min_def to_max_def split: if_splits)

lemma parse_allows: "parseComparator token = Some i \<Longrightarrow> in_interval i v \<longleftrightarrow> token_allows token v"
  unfolding parseComparator_def token_allows_def
  by (auto simp: Let_def caret_allows tilde_allows xrange_allows comparator_allows split: if_splits option.splits
      simp del: allows.simps)

lemma cmpVersion_iff: "cmpVersion a b < 0 \<longleftrightarrow> a < b" "0 < cmpVersion a b \<longleftrightarrow> b < a" "cmpVersion a b = 0 \<longleftrightarrow> a = b"
  by (cases a; cases b; auto)+

text \<open>Two bounds on one side, in any linear order.\<close>

lemma both_lower:
  fixes a b v :: "'a::linorder"
  shows "(if b < a then a < v \<or> i \<and> v = a else if a < b then b < v \<or> j \<and> v = b else a < v \<or> (i \<and> j) \<and> v = a) \<longleftrightarrow>
    (a < v \<or> i \<and> v = a) \<and> (b < v \<or> j \<and> v = b)"
  by auto

lemma both_upper:
  fixes a b v :: "'a::linorder"
  shows "(if a < b then v < a \<or> i \<and> v = a else if b < a then v < b \<or> j \<and> v = b else v < a \<or> (i \<and> j) \<and> v = a) \<longleftrightarrow>
    (v < a \<or> i \<and> v = a) \<and> (v < b \<or> j \<and> v = b)"
  by auto

lemma apart:
  fixes a b v :: "'a::linorder"
  shows "b < a \<or> b = a \<and> \<not> (j \<and> i) \<Longrightarrow> a < v \<or> i \<and> v = a \<Longrightarrow> v < b \<or> j \<and> v = b \<Longrightarrow> False"
  by auto

lemma higher_above: "higherLowerBound l r = (m, inc) \<Longrightarrow>
    from_min m inc v \<longleftrightarrow> from_min (iv_min l) (iv_minInclusive l) v \<and> from_min (iv_min r) (iv_minInclusive r) v"
proof (cases "iv_min l"; cases "iv_min r")
  fix a b
  assume m: "higherLowerBound l r = (m, inc)" "iv_min l = Some a" "iv_min r = Some b"
  have "(m, inc) = (if b < a then (Some a, iv_minInclusive l) else if a < b then (Some b, iv_minInclusive r)
      else (Some a, iv_minInclusive l \<and> iv_minInclusive r))"
    using m(1) [symmetric] by (simp add: higherLowerBound_def m(2,3) Let_def cmpVersion_iff)
  then have "from_min m inc v \<longleftrightarrow> (if b < a then a < v \<or> iv_minInclusive l \<and> v = a else if a < b then b < v \<or> iv_minInclusive r \<and> v = b
      else a < v \<or> (iv_minInclusive l \<and> iv_minInclusive r) \<and> v = a)"
    by (auto simp add: from_min_def split: if_split_asm)
  then show ?thesis unfolding both_lower by (simp add: from_min_def m(2,3))
qed (auto simp: higherLowerBound_def from_min_def)

lemma lower_below: "lowerUpperBound l r = (m, inc) \<Longrightarrow>
    to_max m inc v \<longleftrightarrow> to_max (iv_max l) (iv_maxInclusive l) v \<and> to_max (iv_max r) (iv_maxInclusive r) v"
proof (cases "iv_max l"; cases "iv_max r")
  fix a b
  assume m: "lowerUpperBound l r = (m, inc)" "iv_max l = Some a" "iv_max r = Some b"
  have "(m, inc) = (if a < b then (Some a, iv_maxInclusive l) else if b < a then (Some b, iv_maxInclusive r)
      else (Some a, iv_maxInclusive l \<and> iv_maxInclusive r))"
    using m(1) [symmetric] by (simp add: lowerUpperBound_def m(2,3) Let_def cmpVersion_iff)
  then have "to_max m inc v \<longleftrightarrow> (if a < b then v < a \<or> iv_maxInclusive l \<and> v = a else if b < a then v < b \<or> iv_maxInclusive r \<and> v = b
      else v < a \<or> (iv_maxInclusive l \<and> iv_maxInclusive r) \<and> v = a)"
    by (auto simp add: to_max_def split: if_split_asm)
  then show ?thesis unfolding both_upper by (simp add: to_max_def m(2,3))
qed (auto simp: lowerUpperBound_def to_max_def)

lemma ends_before_iff: "ends_before m minc n ninc \<longleftrightarrow>
    (\<exists>e s. m = Some e \<and> n = Some s \<and> (e < s \<or> e = s \<and> \<not> (minc \<and> ninc)))"
  by (cases m; cases n) (simp_all add: ends_before_def endsBefore_def Let_def cmpVersion_iff not_less_iff_gr_or_eq, blast)

lemma ends_before_none: "ends_before m minc n ninc \<Longrightarrow> \<not> (from_min n ninc v \<and> to_max m minc v)"
proof
  assume e: "ends_before m minc n ninc" and b: "from_min n ninc v \<and> to_max m minc v"
  from e obtain x y where "m = Some x" "n = Some y" "x < y \<or> x = y \<and> \<not> (minc \<and> ninc)" unfolding ends_before_iff by blast
  then show False using b apart [of x y minc ninc v] by (simp add: from_min_def to_max_def)
qed

lemma intersect_allows:
  "case intersectIntervals l r of
     None \<Rightarrow> \<not> (in_interval l v \<and> in_interval r v) | Some i \<Rightarrow> in_interval i v \<longleftrightarrow> in_interval l v \<and> in_interval r v"
proof -
  obtain lo loInc where lo: "higherLowerBound l r = (lo, loInc)" by fastforce
  obtain up upInc where up: "lowerUpperBound l r = (up, upInc)" by fastforce
  show ?thesis
    using higher_above [OF lo, of v] lower_below [OF up, of v] ends_before_none [of up upInc lo loInc v]
    by (auto simp: intersectIntervals_def lo up in_interval_def)
qed

lemma meet_allows:
  "meet_tokens i ts = Some r \<Longrightarrow>
     (case r of None \<Rightarrow> \<not> (in_interval i v \<and> (\<forall>t \<in> set ts. token_allows t v))
      | Some j \<Rightarrow> in_interval j v \<longleftrightarrow> in_interval i v \<and> (\<forall>t \<in> set ts. token_allows t v))"
proof (induction i ts arbitrary: r rule: meet_tokens.induct)
  case (1 i)
  then show ?case by auto
next
  case (2 i t ts)
  then obtain k where k: "parseComparator t = Some k" by (cases "parseComparator t") auto
  note tok = parse_allows [OF k, of v] and meet = intersect_allows [where l = i and r = k and v = v]
  show ?case
  proof (cases "intersectIntervals i k")
    case None
    then show ?thesis using 2(2) k tok meet by auto
  next
    case (Some j)
    then have "meet_tokens j ts = Some r" using 2(2) k by simp
    from 2(1) [OF k Some this] show ?thesis using tok meet Some by (cases r) auto
  qed
qed

lemma collect_allows:
  "collect_alternatives as = Some is \<Longrightarrow>
     (\<exists>i \<in> set is. in_interval i v) \<longleftrightarrow> (\<exists>a \<in> set as. \<forall>t \<in> set (split_spaces a). token_allows t v)"
proof (induction as arbitrary: "is")
  case (Cons a as)
  then obtain r where r: "meet_tokens unbounded (split_spaces a) = Some r" by (cases "meet_tokens unbounded (split_spaces a)") auto
  obtain js where js: "collect_alternatives as = Some js" "is = (case r of None \<Rightarrow> js | Some i \<Rightarrow> i # js)"
    using Cons.prems r by auto
  show ?case using Cons.IH [OF js(1)] meet_allows [OF r, of v] js(2) by (cases r) auto
qed simp

lemma parseRange_allows: "parseRange (JStr s) = Some is \<Longrightarrow> (\<exists>i \<in> set is. in_interval i v) \<longleftrightarrow> range_allows s v"
  using collect_allows unfolding range_allows_def parseRange_def by (auto simp: Let_def split: if_splits)

lemma overlap_common: "in_interval l v \<Longrightarrow> in_interval r v \<Longrightarrow> intervalsOverlap l r"
  using ends_before_none unfolding intervalsOverlap_def in_interval_def by blast

text \<open>Where every lower bound is in its interval and no upper bound is the least version left out, intervals that overlap meet in a version.\<close>

definition tame :: "interval \<Rightarrow> bool" where
  "tame i \<longleftrightarrow> iv_minInclusive i \<and> (iv_max i = Some (0, 0, 0) \<longrightarrow> iv_maxInclusive i)"

definition least :: "interval \<Rightarrow> version" where
  "least i = (case iv_min i of None \<Rightarrow> (0, 0, 0) | Some a \<Rightarrow> a)"

lemma zero_least: "(0, 0, 0) \<le> (v :: version)" "(0, 0, 0) < (v :: version) \<longleftrightarrow> v \<noteq> (0, 0, 0)"
  by (cases v; auto)+

lemma least_in: "tame i \<Longrightarrow> from_min (iv_min i) (iv_minInclusive i) v \<longleftrightarrow> least i \<le> v"
  by (cases "iv_min i") (auto simp: tame_def least_def from_min_def zero_least le_less)

lemma least_to_max:
  assumes "tame l" "tame r" "\<not> ends_before (iv_max r) (iv_maxInclusive r) (iv_min l) (iv_minInclusive l)"
  shows "to_max (iv_max r) (iv_maxInclusive r) (least l)"
proof (cases "iv_max r")
  case None
  then show ?thesis by (simp add: to_max_def)
next
  case (Some b)
  show ?thesis
  proof (cases "iv_min l")
    case None
    have "(0, 0, 0) < b \<or> iv_maxInclusive r \<and> (0, 0, 0) = b" using assms(2) Some zero_least(2) [of b] by (auto simp: tame_def)
    then show ?thesis by (simp add: to_max_def Some least_def None)
  next
    case a: (Some a)
    have "\<not> (b < a \<or> b = a \<and> \<not> (iv_maxInclusive r \<and> iv_minInclusive l))"
      using assms(3) Some a by (simp add: ends_before_iff)
    then have "a < b \<or> iv_maxInclusive r \<and> a = b" by (metis linorder_less_linear)
    then show ?thesis by (simp add: to_max_def Some least_def a)
  qed
qed

lemma to_max_max: "to_max m inc (a :: version) \<Longrightarrow> to_max m inc b \<Longrightarrow> to_max m inc (max a b)"
  by (simp add: max_def)

lemma overlap_meets:
  assumes "tame l" "tame r" "intervalsOverlap l l" "intervalsOverlap r r" "intervalsOverlap l r"
  shows "\<exists>v. in_interval l v \<and> in_interval r v"
proof -
  let ?v = "max (least l) (least r)"
  have "to_max (iv_max l) (iv_maxInclusive l) ?v" "to_max (iv_max r) (iv_maxInclusive r) ?v"
    using assms(3-5) least_to_max assms(1,2) unfolding intervalsOverlap_def by (blast intro: to_max_max)+
  then show ?thesis using least_in assms(1,2) unfolding in_interval_def by (metis max.cobounded1 max.cobounded2)
qed

text \<open>Intersections of tame intervals are tame, and do not end before they start.\<close>

lemma higher_tame: "higherLowerBound l r = (m, inc) \<Longrightarrow> iv_minInclusive l \<Longrightarrow> iv_minInclusive r \<Longrightarrow> inc"
  by (cases "iv_min l"; cases "iv_min r") (simp_all add: higherLowerBound_def Let_def split: if_split_asm)

lemma lower_tame:
  assumes "lowerUpperBound l r = (Some m, inc)" "iv_max l = Some m \<Longrightarrow> iv_maxInclusive l" "iv_max r = Some m \<Longrightarrow> iv_maxInclusive r"
  shows inc
  using assms by (cases "iv_max l"; cases "iv_max r") (simp_all add: lowerUpperBound_def Let_def cmpVersion_iff split: if_split_asm)

lemma intersect_tame:
  assumes "intersectIntervals l r = Some i" "tame l" "tame r"
  shows "tame i \<and> intervalsOverlap i i"
proof -
  obtain lo loInc where lo: "higherLowerBound l r = (lo, loInc)" by fastforce
  obtain up upInc where up: "lowerUpperBound l r = (up, upInc)" by fastforce
  have i: "i = \<lparr>iv_min = lo, iv_minInclusive = loInc, iv_max = up, iv_maxInclusive = upInc\<rparr>"
    "\<not> ends_before up upInc lo loInc"
    using assms(1) by (auto simp: intersectIntervals_def lo up split: if_splits)
  have "loInc" using higher_tame [OF lo] assms(2,3) by (simp add: tame_def)
  moreover have "upInc" if "up = Some (0, 0, 0)" using lower_tame [OF up [unfolded that]] assms(2,3) by (simp add: tame_def)
  ultimately show ?thesis using i(2) by (simp add: i(1) tame_def intervalsOverlap_def)
qed

lemma unbounded_tame [simp]: "tame unbounded"
  by (simp add: tame_def unbounded_def)

definition tame_token :: "string \<Rightarrow> bool" where
  "tame_token t \<longleftrightarrow> (case parseComparator t of None \<Rightarrow> True | Some i \<Rightarrow> tame i)"

definition tame_range :: "string \<Rightarrow> bool" where
  "tame_range s \<longleftrightarrow> (\<forall>a \<in> set (range_alternatives s). \<forall>t \<in> set (split_spaces a). tame_token t)"

lemma meet_tame:
  "meet_tokens i ts = Some (Some j) \<Longrightarrow> tame i \<Longrightarrow> \<forall>t \<in> set ts. tame_token t \<Longrightarrow> ts \<noteq> [] \<or> intervalsOverlap i i \<Longrightarrow>
   tame j \<and> intervalsOverlap j j"
proof (induction i ts arbitrary: j rule: meet_tokens.induct)
  case (2 i t ts)
  then obtain k where k: "parseComparator t = Some k" by (cases "parseComparator t") auto
  with 2(2) obtain m where m: "intersectIntervals i k = Some m" by (cases "intersectIntervals i k") auto
  have "tame k" using 2(4) k by (simp add: tame_token_def)
  from intersect_tame [OF m 2(3) this] show ?case using 2(1) [OF k m] 2(2,4) k m by simp
qed simp

lemma split_spaces_not_Nil: "split_spaces s \<noteq> []"
  by (subst split_spaces.simps) simp

lemma collect_tame:
  "collect_alternatives as = Some is \<Longrightarrow> \<forall>a \<in> set as. \<forall>t \<in> set (split_spaces a). tame_token t \<Longrightarrow>
   \<forall>i \<in> set is. tame i \<and> intervalsOverlap i i"
proof (induction as arbitrary: "is")
  case (Cons a as)
  then obtain r where r: "meet_tokens unbounded (split_spaces a) = Some r" by (cases "meet_tokens unbounded (split_spaces a)") auto
  obtain js where js: "collect_alternatives as = Some js" "is = (case r of None \<Rightarrow> js | Some i \<Rightarrow> i # js)"
    using Cons.prems r by auto
  have "tame j \<and> intervalsOverlap j j" if "r = Some j" for j
    using meet_tame [of unbounded "split_spaces a" j] r that Cons.prems(2) split_spaces_not_Nil by simp
  then show ?case using Cons.IH [OF js(1)] Cons.prems(2) js(2) by (cases r) auto
qed simp

lemma parseRange_tame: "parseRange (JStr s) = Some is \<Longrightarrow> tame_range s \<Longrightarrow> i \<in> set is \<Longrightarrow> tame i \<and> intervalsOverlap i i"
  using collect_tame unfolding tame_range_def parseRange_def by (auto simp: Let_def split: if_splits)

text \<open>
  C36: The comparison of two ranges is right: when they are reported not to intersect, no version is allowed by both; and without exclusive
  lower bounds (and the empty range below 0.0.0) they are reported to intersect only if some version is allowed by both.
\<close>

theorem PeerRanges_intersect:
  assumes "rangesIntersect (JStr l) (JStr r) = Some b"
  shows "((\<exists>v. range_allows l v \<and> range_allows r v) \<longrightarrow> b) \<and>
    (tame_range l \<and> tame_range r \<longrightarrow> b \<longleftrightarrow> (\<exists>v. range_allows l v \<and> range_allows r v))"
proof -
  obtain ls rs where p: "parseRange (JStr l) = Some ls" "parseRange (JStr r) = Some rs"
    using assms by (auto simp: rangesIntersect_def split: option.splits)
  have b: "b \<longleftrightarrow> (\<exists>i \<in> set ls. \<exists>j \<in> set rs. intervalsOverlap i j)"
    using assms p by (auto simp: rangesIntersect_def list_ex_iff)
  have sound: "b" if "range_allows l v" "range_allows r v" for v
    using that overlap_common unfolding b parseRange_allows [OF p(1), symmetric] parseRange_allows [OF p(2), symmetric] by blast
  have exact: "\<exists>v. range_allows l v \<and> range_allows r v" if t: "tame_range l" "tame_range r" b
  proof -
    obtain i j where ij: "i \<in> set ls" "j \<in> set rs" "intervalsOverlap i j" using t(3) b by blast
    have "tame i \<and> intervalsOverlap i i" "tame j \<and> intervalsOverlap j j"
      using parseRange_tame [OF p(1) t(1) ij(1)] parseRange_tame [OF p(2) t(2) ij(2)] by simp_all
    then obtain v where "in_interval i v" "in_interval j v" using overlap_meets ij(3) by blast
    then show ?thesis using ij parseRange_allows [OF p(1), of v] parseRange_allows [OF p(2), of v] by blast
  qed
  show ?thesis using sound exact by blast
qed

theorem PeerRanges_intersect_witness:
  "\<exists>v. range_allows ''^8.0.0 || ^9.0.0'' v \<and> range_allows ''~9.1'' v"
proof -
  have r: "rangesIntersect (JStr ''^8.0.0 || ^9.0.0'') (JStr ''~9.1'') = Some True"
    and t: "tame_range ''^8.0.0 || ^9.0.0''" "tame_range ''~9.1''"
    by code_simp+
  from PeerRanges_intersect [OF r] t show ?thesis by blast
qed

text \<open>
  A bound with missing components is filled with zeros: \<open><=5\<close> allows nothing above 5.0.0, where the package manager reads it as every
  version 5.
\<close>

lemma partial_bound: "rangesIntersect (JStr ''<=5'') (JStr ''^5.2.0'') = Some False"
  by code_simp

lemma peer_problem_none: "peer_problem n devs x = [] \<longleftrightarrow>
    starts_with (fst x) ''@tslock/'' \<or> fst x \<notin> fst ` set (own_props devs) \<or> rangesIntersect (snd x) (jget devs (fst x)) = Some True"
  by (cases x; cases "rangesIntersect (snd x) (jget devs (fst x))") (simp_all add: peer_problem_def Let_def)

text \<open>A manifest has no problems exactly when every peer that is also a development dependency has ranges that intersect.\<close>

lemma peerDevRangeProblems_none:
  assumes "is_object (jget p ''peerDependencies'')" "is_object (jget p ''devDependencies'')"
  shows "peerDevRangeProblems p = [] \<longleftrightarrow>
    (\<forall>(d, range_text) \<in> set (own_props (jget p ''peerDependencies'')). \<not> starts_with d ''@tslock/'' \<longrightarrow>
       d \<in> fst ` set (own_props (jget p ''devDependencies'')) \<longrightarrow>
       rangesIntersect range_text (jget (jget p ''devDependencies'') d) = Some True)"
proof -
  have "peerDevRangeProblems p = [] \<longleftrightarrow> (\<forall>x \<in> set (own_props (jget p ''peerDependencies'')).
      peer_problem (nullish (jget p ''name'') (JStr ''<unknown>'')) (jget p ''devDependencies'') x = [])"
    by (simp add: peerDevRangeProblems_def Let_def assms)
  then show ?thesis unfolding peer_problem_none case_prod_beta by blast
qed

end
