(* ===== verification/Lockfile.thy ===== *)
theory Lockfile
  imports Config Json
begin

text \<open>
  scripts/validate-lockfile.mjs: the check of pnpm-lock.yaml for keys that occur twice in one mapping.  Positions in a text are its
  suffixes here.  The reading of the file is an argument; the command line is not modelled.
\<close>

section \<open>Keys of lines and of flow mappings\<close>

definition is_quote :: "char \<Rightarrow> bool" where
  "is_quote c \<longleftrightarrow> c = CHR 0x27 \<or> c = CHR 0x22"

text \<open>The loop of \<open>splitMappingKey\<close>: \<open>quote\<close> is the open quote, \<open>key\<close> what was read.\<close>

fun split_key :: "char option \<Rightarrow> string \<Rightarrow> string \<Rightarrow> string option" where
  "split_key quote key [] = None"
| "split_key (Some q) key (c # s) =
     (if c = CHR 0x5C then (case s of [] \<Rightarrow> None | d # t \<Rightarrow> split_key (Some q) (key @ [d]) t)
      else if c = q then split_key None key s else split_key (Some q) (key @ [c]) s)"
| "split_key None key (c # s) =
     (if c = CHR '':'' then (if key = [] then None else Some key)
      else if c \<in> {CHR '' '', CHR ''#'', CHR ''{'', CHR ''[''} then None else split_key None (key @ [c]) s)"

definition splitMappingKey :: "string \<Rightarrow> string option" where
  "splitMappingKey trimmed = (case trimmed of
     [] \<Rightarrow> None | c # s \<Rightarrow> if is_quote c then split_key (Some c) [] s else split_key None [] trimmed)"

text \<open>\<open>skipQuoted\<close>: the text after the closing quote.\<close>

fun skipQuoted :: "char \<Rightarrow> string \<Rightarrow> string" where
  "skipQuoted q [] = []"
| "skipQuoted q (c # s) =
     (if c = CHR 0x5C then (case s of [] \<Rightarrow> [] | d # t \<Rightarrow> skipQuoted q t) else if c = q then s else skipQuoted q s)"

text \<open>\<open>matchingBrace\<close>, from behind the opening brace: the text up to the brace that closes it, and the rest.\<close>

fun matchingBrace :: "nat \<Rightarrow> char option \<Rightarrow> string \<Rightarrow> (string \<times> string) option" where
  "matchingBrace depth quote [] = None"
| "matchingBrace depth (Some q) (c # s) =
     (if c = CHR 0x5C then
        (case s of [] \<Rightarrow> None | d # t \<Rightarrow> map_option (\<lambda>(b, r). (c # d # b, r)) (matchingBrace depth (Some q) t))
      else map_option (\<lambda>(b, r). (c # b, r)) (matchingBrace depth (if c = q then None else Some q) s))"
| "matchingBrace depth None (c # s) =
     (if is_quote c then map_option (\<lambda>(b, r). (c # b, r)) (matchingBrace depth (Some c) s)
      else if c = CHR ''{'' then map_option (\<lambda>(b, r). (c # b, r)) (matchingBrace (depth + 1) None s)
      else if c = CHR ''}'' then
        (if depth - 1 = 0 then Some ([], s) else map_option (\<lambda>(b, r). (c # b, r)) (matchingBrace (depth - 1) None s))
      else map_option (\<lambda>(b, r). (c # b, r)) (matchingBrace depth None s))"

text \<open>The parts of the body of a flow mapping between the commas at depth zero.\<close>

fun flow_parts :: "int \<Rightarrow> char option \<Rightarrow> string \<Rightarrow> string \<Rightarrow> string list" where
  "flow_parts depth quote current [] = (if js_trim current \<noteq> [] then [current] else [])"
| "flow_parts depth (Some q) current (c # s) =
     (if c = CHR 0x5C then
        (case s of [] \<Rightarrow> flow_parts depth (Some q) (current @ [c]) [] | d # t \<Rightarrow> flow_parts depth (Some q) (current @ [c, d]) t)
      else flow_parts depth (if c = q then None else Some q) (current @ [c]) s)"
| "flow_parts depth None current (c # s) =
     (if is_quote c then flow_parts depth (Some c) (current @ [c]) s
      else if c = CHR ''{'' \<or> c = CHR ''['' then flow_parts (depth + 1) None (current @ [c]) s
      else if c = CHR ''}'' \<or> c = CHR '']'' then flow_parts (depth - 1) None (current @ [c]) s
      else if c = CHR '','' \<and> depth = 0 then current # flow_parts depth None [] s
      else flow_parts depth None (current @ [c]) s)"

fun quoted_key :: "char \<Rightarrow> string \<Rightarrow> string \<Rightarrow> string option" where
  "quoted_key q key [] = None"
| "quoted_key q key (c # s) =
     (if c = CHR 0x5C then (case s of [] \<Rightarrow> None | d # t \<Rightarrow> quoted_key q (key @ [d]) t)
      else if c = q then (if s \<noteq> [] \<and> hd s = CHR '':'' then Some key else None)
      else quoted_key q (key @ [c]) s)"

definition keyBeforeColon :: "string \<Rightarrow> string option" where
  "keyBeforeColon part = (case part of
     [] \<Rightarrow> None
   | c # s \<Rightarrow>
       if is_quote c then quoted_key c [] s
       else (let k = takeWhile (\<lambda>x. x \<noteq> CHR '':'') part in
         if k = [] \<or> k = part then None else Some (js_trim k)))"

definition depthZeroKeys :: "string \<Rightarrow> string list" where
  "depthZeroKeys body = concat (map (\<lambda>part. case keyBeforeColon (js_trim part) of
     None \<Rightarrow> [] | Some key \<Rightarrow> if key = [] then [] else [key]) (flow_parts 0 None [] body))"

fun seen_twice :: "string set \<Rightarrow> string list \<Rightarrow> string list" where
  "seen_twice seen [] = []"
| "seen_twice seen (k # ks) = (if k \<in> seen then [k] else []) @ seen_twice (insert k seen) ks"

lemma skipQuoted_length: "length (skipQuoted q s) \<le> length s"
proof (induction "length s" arbitrary: s rule: less_induct)
  case less
  show ?case
  proof (cases s)
    case (Cons c t)
    have "length (skipQuoted q t) \<le> length t" "length (skipQuoted q (tl t)) \<le> length (tl t)"
      using less.hyps [of t] less.hyps [of "tl t"] Cons by simp_all
    then show ?thesis using Cons by (cases t) simp_all
  qed simp
qed

lemma matchingBrace_length: "matchingBrace depth quote s = Some (b, r) \<Longrightarrow> length b + length r < length s"
proof (induction "length s" arbitrary: depth quote s b r rule: less_induct)
  case less
  have step: "length b + length r < length s"
    if m: "map_option (\<lambda>(b, r). (pre @ b, r)) (matchingBrace d q t) = Some (b, r)" and l: "length pre + length t \<le> length s" "pre \<noteq> []"
    for d q t pre
  proof -
    obtain b' where b': "matchingBrace d q t = Some (b', r)" "b = pre @ b'"
      using m by (cases "matchingBrace d q t") auto
    have "length t < length s" using l by (cases pre) auto
    from less.hyps [OF this b'(1)] show ?thesis using l(1) b'(2) by simp
  qed
  show ?case
  proof (cases s)
    case Nil
    then show ?thesis using less.prems by simp
  next
    case (Cons c t)
    note one = step [of "[c]" _ _ t] and two = step [of "[c, hd t]" _ _ "tl t"]
    show ?thesis
    proof (cases quote)
      case None
      then show ?thesis
        using less.prems one [of "depth + 1" None] one [of "depth - 1" None] one [of depth None] one [of depth "Some c"] Cons
        by (simp split: if_split_asm)
    next
      case (Some q)
      then show ?thesis
        using less.prems one [of depth "if c = q then None else Some q"] two [of depth "Some q"] Cons
        by (cases t) (simp_all split: if_split_asm)
    qed
  qed
qed

function collectFlowMapDuplicates :: "string \<Rightarrow> string list" where
  "collectFlowMapDuplicates [] = []"
| "collectFlowMapDuplicates (c # s) =
     (if is_quote c then collectFlowMapDuplicates (skipQuoted c s)
      else if c = CHR ''{'' then (case matchingBrace 1 None s of
        None \<Rightarrow> []
      | Some (body, rest) \<Rightarrow> seen_twice {} (depthZeroKeys body) @ collectFlowMapDuplicates body @ collectFlowMapDuplicates rest)
      else collectFlowMapDuplicates s)"
  by pat_completeness auto
termination
  by (relation "measure length") (auto simp: less_Suc_eq_le skipQuoted_length dest: matchingBrace_length)

section \<open>The lines of a text\<close>

text \<open>\<open>split(/\r?\n/)\<close>.\<close>

fun split_lines :: "string \<Rightarrow> string list" where
  "split_lines [] = [[]]"
| "split_lines (c # s) =
     (if c = CHR 0x0A then [] # split_lines s
      else if c = CHR 0x0D \<and> s \<noteq> [] \<and> hd s = CHR 0x0A then split_lines s
      else (case split_lines s of [] \<Rightarrow> [[c]] | l # ls \<Rightarrow> (c # l) # ls))"

record duplicate_key =
  dk_line :: nat
  dk_column :: nat
  dk_key :: string

text \<open>The open mappings, the innermost first: indentation and keys.\<close>

type_synonym mappings = "(int \<times> string set) list"

definition empty_mappings :: mappings where
  "empty_mappings = [(- 1, {})]"

fun pop_deeper :: "int \<Rightarrow> mappings \<Rightarrow> mappings" where
  "pop_deeper indent (m # n # ms) = (if indent < fst m then pop_deeper indent (n # ms) else m # n # ms)"
| "pop_deeper indent ms = ms"

definition open_mapping :: "int \<Rightarrow> mappings \<Rightarrow> mappings" where
  "open_mapping indent ms = (let st = pop_deeper indent ms in
     case st of [] \<Rightarrow> [(indent, {})] | m # _ \<Rightarrow> if fst m \<noteq> indent then (indent, {}) # st else st)"

text \<open>A mapping line: its key, the mapping it belongs to, and the flow mappings in it.\<close>

definition mapping_line :: "nat \<Rightarrow> nat \<Rightarrow> string \<Rightarrow> string \<Rightarrow> mappings \<Rightarrow> duplicate_key list \<times> mappings" where
  "mapping_line line_no indent key trimmed ms =
     (let dup = (\<lambda>k. \<lparr>dk_line = line_no, dk_column = indent + 1, dk_key = k\<rparr>) in
      case open_mapping (int indent) ms of
        [] \<Rightarrow> ([], [])
      | (d, ks) # st \<Rightarrow>
          if key \<in> ks then ([dup key], (d, ks) # st)
          else (map dup (collectFlowMapDuplicates trimmed), (d, insert key ks) # st))"

definition lock_line :: "nat \<Rightarrow> string \<Rightarrow> mappings \<Rightarrow> duplicate_key list \<times> mappings" where
  "lock_line line_no line ms =
     (let trimmed = dropWhile is_js_space line; indent = length line - length trimmed in
      if js_trim line = [] \<or> starts_with trimmed ''#'' then ([], ms)
      else if starts_with line [CHR 0x09] then ([\<lparr>dk_line = line_no, dk_column = 1, dk_key = ''(tab indentation)''\<rparr>], ms)
      else if trimmed = ''---'' then ([], empty_mappings)
      else if starts_with trimmed ''- '' then ([], ms)
      else (case splitMappingKey trimmed of
        None \<Rightarrow> ([], ms)
      | Some key \<Rightarrow> mapping_line line_no indent key trimmed ms))"

fun lock_lines :: "nat \<Rightarrow> string list \<Rightarrow> mappings \<Rightarrow> duplicate_key list" where
  "lock_lines line_no [] ms = []"
| "lock_lines line_no (l # ls) ms = (let (ds, ms') = lock_line line_no l ms in ds @ lock_lines (line_no + 1) ls ms')"

definition findDuplicateMappingKeys :: "string \<Rightarrow> duplicate_key list" where
  "findDuplicateMappingKeys s = lock_lines 1 (split_lines s) empty_mappings"

section \<open>validateLockfileText\<close>

definition is_line_end :: "char \<Rightarrow> bool" where
  "is_line_end c \<longleftrightarrow> c = CHR 0x0A \<or> c = CHR 0x0D"

text \<open>\<open>\s*$\<close> of a multi-line pattern at the start of \<open>s\<close>.\<close>

definition at_line_end :: "string \<Rightarrow> bool" where
  "at_line_end s = (let r = dropWhile (\<lambda>c. is_js_space c \<and> \<not> is_line_end c) s in r = [] \<or> is_line_end (hd r))"

text \<open>\<open>^\<close>: some line start where \<open>P\<close> holds of what follows.\<close>

fun some_line_start :: "(string \<Rightarrow> bool) \<Rightarrow> bool \<Rightarrow> string \<Rightarrow> bool" where
  "some_line_start P start [] = (start \<and> P [])"
| "some_line_start P start (c # s) = (start \<and> P (c # s) \<or> some_line_start P (is_line_end c) s)"

definition has_section :: "string \<Rightarrow> string \<Rightarrow> bool" where
  "has_section name = some_line_start (\<lambda>s. starts_with s name \<and> at_line_end (drop (length name) s)) True"

definition version_9 :: "string \<Rightarrow> bool" where
  "version_9 = some_line_start (\<lambda>s. starts_with s ''lockfileVersion:'' \<and>
     (let r = dropWhile is_js_space (drop 16 s) in
      5 \<le> length r \<and> is_quote (r ! 0) \<and> starts_with (tl r) ''9.0'' \<and> is_quote (r ! 4) \<and> at_line_end (drop 5 r))) True"

definition duplicate_message :: "duplicate_key \<Rightarrow> string" where
  "duplicate_message d =
     (let position = show_nat (dk_line d) @ '':'' @ show_nat (dk_column d) in
      if dk_key d = ''(tab indentation)'' then ''tab indentation at '' @ position @ ''; pnpm-lock.yaml must use spaces.''
      else ''duplicated mapping key '' @ json (JStr (dk_key d)) @ '' at '' @ position)"

definition validateLockfileText :: "string \<Rightarrow> string list" where
  "validateLockfileText s =
     (if version_9 s then []
      else [''expected lockfileVersion: '' @ [CHR 0x27] @ ''9.0'' @ [CHR 0x27] @ '' (packageManager pnpm@12.10.1).'']) @
     (if has_section ''importers:'' s \<and> has_section ''packages:'' s then []
      else [''expected top-level importers: and packages: sections.'']) @
     map duplicate_message (findDuplicateMappingKeys s)"

text \<open>\<open>readFile\<close> gives the text or what was thrown.\<close>

definition validateLockfileFile :: "(string \<Rightarrow> jsv + string) \<Rightarrow> string \<Rightarrow> string list" where
  "validateLockfileFile readFile filePath = (case readFile filePath of
     Inl error \<Rightarrow> [''unable to read '' @ filePath @ '': '' @
       (case error of JErr _ _ \<Rightarrow> js_String (jget error ''message'') | _ \<Rightarrow> js_String error)]
   | Inr t \<Rightarrow> validateLockfileText t)"

section \<open>The stack of mappings\<close>









section \<open>Block mappings with plain keys\<close>



fun join_lines :: "string list \<Rightarrow> string" where
  "join_lines [] = []"
| "join_lines [l] = l"
| "join_lines (l # ls) = l @ CHR 0x0A # join_lines ls"








section \<open>Every repetition is found, and nothing else\<close>

text \<open>The keys that were seen at an indentation, with no line less indented after them.\<close>

definition visible :: "(nat \<times> string) list \<Rightarrow> int \<Rightarrow> string set" where
  "visible es d = {k. \<exists>j < length es. int (fst (es ! j)) = d \<and> snd (es ! j) = k \<and> (\<forall>m. j < m \<longrightarrow> m < length es \<longrightarrow> d \<le> int (fst (es ! m)))}"


lemma visible_Nil [simp]: "visible [] d = {}"
  by (simp add: visible_def)






text \<open>Lines of a sequence are skipped, so the mappings of its elements count as one: a valid text that is reported.\<close>

lemma sequence_of_mappings_reported:
  "findDuplicateMappingKeys (join_lines [''a:'', ''  - x: 1'', ''    y: 2'', ''  - x: 3'', ''    y: 4'']) =
    [\<lparr>dk_line = 5, dk_column = 5, dk_key = ''y''\<rparr>]"
  by code_simp

end
