(* ===== verification/DurableObject.thy ===== *)
theory DurableObject
  imports CloudflareDo JsonParse
begin

text \<open>
  packages/cloudflare-do/src, both sides together: the client's operations against the Durable Object itself.  The fetch adapter brings
  the request to the object of the name and the response back; the object's clock is \<open>w_date\<close>.
\<close>

section \<open>The object (tslock-lock-durable-object.ts, do-lock-storage.ts)\<close>

definition createMemoryDoLockStorage :: do_storage where
  "createMemoryDoLockStorage = (\<lambda>_. None)"

text \<open>The storage adapter passes \<open>get\<close> and \<open>put\<close> on.\<close>

definition createDoStorageAdapter :: "do_storage \<Rightarrow> do_storage" where
  "createDoStorageAdapter storage = (\<lambda>key. storage key)"

definition TslockLockDurableObject_fetch :: "do_storage \<Rightarrow> string \<Rightarrow> string \<Rightarrow> jsnum \<Rightarrow> (nat \<times> jsv) \<times> do_storage" where
  "TslockLockDurableObject_fetch storage method body now =
     handleTslockLockRequest (createDoStorageAdapter storage) method (JSON_parse body) now"

text \<open>A response as the client sees it; \<open>ok\<close> is a status from 200 to 299.\<close>

definition response_value :: "nat \<times> jsv \<Rightarrow> jsv" where
  "response_value r = obj [(''ok'', JBool (200 \<le> fst r \<and> fst r < 300)), (''status'', JNum (Fin (of_nat (fst r)))), (''body'', snd r)]"

fun do_object :: "(do_req, do_storage) handler" where
  "do_object (DoFetch name body) w =
     (case TslockLockDurableObject_fetch (w_store w) ''POST'' body (w_date w) of (r, s) \<Rightarrow> (Inr (response_value r), w\<lparr>w_store := s\<rparr>))"
| "do_object (DoJson response) w = (Inr (jget response ''body''), w)"

section \<open>The protocol\<close>

text \<open>Whole milliseconds in the range of the numbers, and durations the server accepts.\<close>

definition whole :: "jsnum \<Rightarrow> bool" where
  "whole x \<longleftrightarrow> (case x of Fin r \<Rightarrow> r = of_int \<lfloor>r\<rfloor> \<and> \<bar>r\<bar> < 2 ^ 1024 - 2 ^ 970 | _ \<Rightarrow> False)"

definition sendable :: "LockConfiguration \<Rightarrow> bool" where
  "sendable c \<longleftrightarrow> whole (lockAtMostFor c) \<and> whole (lockAtLeastFor c) \<and> whole (createdAt c) \<and>
     js_le (Fin 0) (lockAtLeastFor c) \<and> js_le (lockAtLeastFor c) (lockAtMostFor c)"

definition sent_op :: "do_op \<Rightarrow> string \<Rightarrow> LockConfiguration \<Rightarrow> string \<Rightarrow> LockOp" where
  "sent_op kind host c token = \<lparr>op_op = kind, op_name = cfg_name c, op_lockAtMostFor = lockAtMostFor c,
     op_lockAtLeastFor = lockAtLeastFor c, op_createdAt = createdAt c, op_lockedBy = host, op_token = token\<rparr>"

fun op_string :: "do_op \<Rightarrow> string" where
  "op_string OpLock = ''lock''" | "op_string OpUnlock = ''unlock''" | "op_string OpExtend = ''extend''"

lemma op_of_string_op [simp]: "op_of_string (op_string k) = Some k"
  by (cases k) (simp_all add: op_of_string_def)

lemma whole_flat: "whole x \<Longrightarrow> flat_value (JNum x)"
  by (simp add: whole_def split: jsnum.splits)

lemma sent_parsed:
  assumes "sendable c"
  shows "JSON_parse (json (op_value (op_string k) host c token)) = Inr (op_value (op_string k) host c token)"
  unfolding op_value_def
  by (rule JSON_parse_json) (use assms in \<open>simp_all add: sendable_def whole_flat\<close>)

lemma sendable_durations: "sendable c \<Longrightarrow> durationsAreValid (lockAtMostFor c) (lockAtLeastFor c)"
  by (cases "lockAtMostFor c"; cases "lockAtLeastFor c") (auto simp: sendable_def whole_def durationsAreValid_def)

lemma parse_sent:
  "sendable c \<Longrightarrow> token \<noteq> [] \<Longrightarrow> parse_body (op_value (op_string k) host c token) = Some (sent_op k host c token)"
  by (simp add: parse_body_def op_value_def has_prop_def sendable_durations sent_op_def)

text \<open>A call of the client is the operation on the object's storage.\<close>

lemma run_do_call:
  assumes "sendable c" "token \<noteq> []"
  shows "run do_object (do_call name (op_value (op_string k) host c token) f) w =
    (case applyLockOp (w_store w) (sent_op k host c token) (w_date w) of
       (r, s) \<Rightarrow> run do_object (f (result_value r)) (w\<lparr>w_store := s\<rparr>))"
  by (simp add: do_call_def TslockLockDurableObject_fetch_def createDoStorageAdapter_def handleTslockLockRequest_def
      sent_parsed [OF assms(1)] parse_sent [OF assms] response_value_def truthy_def split: prod.splits)

lemmas op_strings = op_string.simps [symmetric]

definition do_record :: "string \<Rightarrow> string \<Rightarrow> LockConfiguration \<Rightarrow> rat \<Rightarrow> DoLockRecord" where
  "do_record host token c t = \<lparr>do_lockUntil = js_add (Fin t) (lockAtMostFor c), do_lockedAt = Fin t, do_lockedBy = host,
     do_token = Some token, do_lockAtLeastUntil = Some (js_add (Fin t) (lockAtLeastFor c))\<rparr>"

text \<open>\<open>lock\<close> of the client, in full.\<close>

lemma run_client_lock:
  assumes "sendable c" "token \<noteq> []" "w_date w = Fin t"
  shows "run do_object (CloudflareDo_lock host (Some token) c) w =
    (if (case w_store w (storageKeyForLock (cfg_name c)) of None \<Rightarrow> False | Some x \<Rightarrow> js_lt (Fin t) (do_lockUntil x)) \<or>
        lockAtMostFor c = Fin 0
     then (Inr None, w)
     else (Inr (Some (new_asl c token)), w\<lparr>w_store := (w_store w)(storageKeyForLock (cfg_name c) \<mapsto> do_record host token c t)\<rparr>))"
proof -
  obtain m l where ml: "lockAtMostFor c = Fin m" "lockAtLeastFor c = Fin l" "0 \<le> l" "l \<le> m"
    using assms(1) by (auto simp: sendable_def whole_def split: jsnum.splits)
  have w: "w\<lparr>w_store := w_store w\<rparr> = w" by simp
  show ?thesis
    using ml assms(2)
    by (auto simp: CloudflareDo_lock_def do_newToken_def op_strings(1) run_do_call [OF assms(1,2)] assms(3) applyLockOp_def
        apply_lock_def sent_op_def strictFutureDeadline_def do_record_def result_value_def truthy_def Let_def
        simp del: op_string.simps split: option.splits)
qed


text \<open>\<open>unlock\<close> of the client by the owner: the record ends now, or when the minimum time is over.\<close>

lemma run_client_unlock:
  assumes "sendable c" "token \<noteq> []" "w_date w = Fin u" "w_store w (storageKeyForLock (cfg_name c)) = Some (do_record h token c t)"
    "lockAtLeastFor c = Fin l"
  shows "run do_object (CloudflareDoLock_doUnlock host (new_asl c token)) w =
    (Inr (), w\<lparr>w_store := (w_store w)(storageKeyForLock (cfg_name c) \<mapsto>
       (do_record h token c t)\<lparr>do_lockUntil := Fin (max u (t + l))\<rparr>)\<rparr>)"
  using assms
  by (auto simp: CloudflareDoLock_doUnlock_def CloudflareDo_unlock_def op_strings(2) run_do_call [OF assms(1,2)] applyLockOp_def
      apply_unlock_def sent_op_def do_record_def do_owns_def storedLeastUntil_def new_asl_def js_max_def max_def Let_def
      simp del: op_string.simps)

text \<open>The object at a later time, with the storage it has then.\<close>

definition later :: "do_storage world \<Rightarrow> rat \<Rightarrow> do_storage world" where
  "later w t = w\<lparr>w_date := Fin t\<rparr>"

text \<open>
  C38: Client and Durable Object together: once a client locked at t1 and released at t2, another client gets the lock at t3
  exactly when both the release and the minimum time of the first are over.
\<close>

theorem DurableObject_lock_at_least:
  assumes "sendable c" "sendable c'" "cfg_name c' = cfg_name c" "token \<noteq> []" "token' \<noteq> []"
    and "lockAtLeastFor c = Fin l" "lockAtMostFor c' \<noteq> Fin 0"
    and "run do_object (CloudflareDo_lock host (Some token) c) (later w t1) = (Inr (Some lk), w1)"
    and "run do_object (CloudflareDoLock_doUnlock host lk) (later w1 t2) = (r, w2)"
    and "run do_object (CloudflareDo_lock host' (Some token') c') (later w2 t3) = (r', w3)"
  shows "r = Inr () \<and> r' = Inr (if t2 \<le> t3 \<and> t1 + l \<le> t3 then Some (new_asl c' token') else None)"
proof -
  have w1: "lk = new_asl c token" "w_store w1 (storageKeyForLock (cfg_name c)) = Some (do_record host token c t1)"
    using assms(8) by (auto simp: run_client_lock [OF assms(1,4)] later_def split: if_splits)
  have "r = Inr ()" and w2: "w_store w2 (storageKeyForLock (cfg_name c)) =
      Some ((do_record host token c t1)\<lparr>do_lockUntil := Fin (max t2 (t1 + l))\<rparr>)"
    using assms(9) w1 run_client_unlock [OF assms(1,4), where w = "later w1 t2" and u = t2 and h = host and t = t1 and l = l] assms(6)
    by (auto simp: later_def)
  then show ?thesis
    using assms(3,7,10) by (auto simp: run_client_lock [OF assms(2,5)] later_def max_def split: if_splits)
qed

definition do_config :: "rat \<Rightarrow> rat \<Rightarrow> LockConfiguration" where
  "do_config most least = \<lparr>cfg_name = ''job'', lockAtMostFor = Fin most, lockAtLeastFor = Fin least, createdAt = Fin 0\<rparr>"


theorem DurableObject_lock_at_least_witness:
  "fst (run do_object (CloudflareDo_lock ''b'' (Some ''k'') (do_config 50 0))
     (later (snd (run do_object (CloudflareDoLock_doUnlock ''a'' (new_asl (do_config 100 10) ''j''))
        (later (snd (run do_object (CloudflareDo_lock ''a'' (Some ''j'') (do_config 100 10))
           \<lparr>w_date = Fin 0, w_clock = None, w_store = createMemoryDoLockStorage\<rparr>)) 3))) 9)) = Inr None"
proof -
  let ?w = "\<lparr>w_date = Fin 0, w_clock = None, w_store = createMemoryDoLockStorage\<rparr>"
  have s: "sendable (do_config 100 10)" "sendable (do_config 50 0)"
    by (simp_all add: do_config_def sendable_def whole_def)
  have w0: "later ?w 0 = ?w" by (simp add: later_def)
  obtain w1 where w1: "run do_object (CloudflareDo_lock ''a'' (Some ''j'') (do_config 100 10)) (later ?w 0) =
      (Inr (Some (new_asl (do_config 100 10) ''j'')), w1)"
    unfolding w0 by (simp add: run_client_lock [OF s(1), where t = 0] createMemoryDoLockStorage_def) (simp add: do_config_def)
  obtain r w2 where w2: "run do_object (CloudflareDoLock_doUnlock ''a'' (new_asl (do_config 100 10) ''j'')) (later w1 3) = (r, w2)"
    by fastforce
  obtain r' w3 where w3: "run do_object (CloudflareDo_lock ''b'' (Some ''k'') (do_config 50 0)) (later w2 9) = (r', w3)"
    by fastforce
  have "r' = Inr (if (3 :: rat) \<le> 9 \<and> 0 + 10 \<le> (9 :: rat) then Some (new_asl (do_config 50 0) ''k'') else None)"
    by (rule DurableObject_lock_at_least [OF s _ _ _ _ _ w1 w2 w3, THEN conjunct2]) (simp_all add: do_config_def)
  then show ?thesis using w1 [unfolded w0] w2 w3 by simp
qed

end
