(* ===== verification/WorkerPool.thy ===== *)
theory WorkerPool
  imports Prelude
begin

text \<open>
  \<open>mapPool\<close> of scripts/check-exports.mjs: a bounded number of workers share one counter of the next item and fill one array of results.
  A worker runs from one \<open>await\<close> to the next without interruption; the calls of \<open>fn\<close> may settle in any order.
\<close>

text \<open>
  \<open>awaiting\<close>: the item of each worker that is waiting for \<open>fn\<close>.  \<open>failure\<close>: the first rejection, with which \<open>Promise.all\<close> settles; the
  other workers go on.
\<close>

record 'b pool =
  next_item :: nat
  results :: "'b option list"
  awaiting :: "nat list"
  failure :: "jsv option"

text \<open>The loop from its head to the next \<open>await\<close>.\<close>

definition worker_loop :: "nat \<Rightarrow> 'b pool \<Rightarrow> 'b pool" where
  "worker_loop n p =
     (if next_item p < n then p\<lparr>next_item := next_item p + 1, awaiting := awaiting p @ [next_item p]\<rparr> else p)"

text \<open>\<open>fn(items[index])\<close> settled.\<close>

definition worker_resume :: "nat \<Rightarrow> nat \<Rightarrow> jsv + 'b \<Rightarrow> 'b pool \<Rightarrow> 'b pool" where
  "worker_resume n index r p = (let q = p\<lparr>awaiting := remove1 index (awaiting p)\<rparr> in
     case r of
       Inl e \<Rightarrow> q\<lparr>failure := (case failure q of None \<Rightarrow> Some e | Some x \<Rightarrow> Some x)\<rparr>
     | Inr b \<Rightarrow> worker_loop n (q\<lparr>results := (results q)[index := Some b]\<rparr>))"

definition mapPool_start :: "nat \<Rightarrow> nat \<Rightarrow> 'b pool" where
  "mapPool_start n limit =
     (worker_loop n ^^ min limit n) \<lparr>next_item = 0, results = replicate n None, awaiting = [], failure = None\<rparr>"

text \<open>What the promise of \<open>mapPool\<close> settled with, if it did; a result that was never assigned is a hole of the array.\<close>

definition mapPool_result :: "'b pool \<Rightarrow> (jsv + 'b option list) option" where
  "mapPool_result p = (case failure p of
     Some e \<Rightarrow> Some (Inl e)
   | None \<Rightarrow> if awaiting p = [] then Some (Inr (results p)) else None)"

text \<open>\<open>fn x r\<close>: the call for the item \<open>x\<close> may settle with \<open>r\<close>.\<close>

inductive pool_step :: "('a \<Rightarrow> jsv + 'b \<Rightarrow> bool) \<Rightarrow> 'a list \<Rightarrow> 'b pool \<Rightarrow> 'b pool \<Rightarrow> bool" for fn items where
  settle: "i \<in> set (awaiting p) \<Longrightarrow> fn (items ! i) r \<Longrightarrow> pool_step fn items p (worker_resume (length items) i r p)"

inductive_cases pool_stepE: "pool_step fn items p q"

section \<open>The invariant\<close>

definition pool_inv :: "('a \<Rightarrow> jsv + 'b \<Rightarrow> bool) \<Rightarrow> 'a list \<Rightarrow> 'b pool \<Rightarrow> bool" where
  "pool_inv fn items p \<longleftrightarrow> distinct (awaiting p) \<and> (\<forall>i \<in> set (awaiting p). i < next_item p) \<and> next_item p \<le> length items \<and>
     length (results p) = length items \<and>
     (\<forall>i < length items. \<forall>b. results p ! i = Some b \<longrightarrow> fn (items ! i) (Inr b)) \<and>
     (failure p = None \<longrightarrow> (\<forall>i < next_item p. i \<notin> set (awaiting p) \<longrightarrow> results p ! i \<noteq> None)) \<and>
     (\<forall>e. failure p = Some e \<longrightarrow> (\<exists>x \<in> set items. fn x (Inl e)))"

text \<open>What is left to settle, and the workers.\<close>

definition pool_work :: "'a list \<Rightarrow> 'b pool \<Rightarrow> nat" where
  "pool_work items p = length items - next_item p + length (awaiting p)"

lemma worker_loop_inv: "pool_inv fn items p \<Longrightarrow> pool_inv fn items (worker_loop (length items) p)"
  by (auto simp: pool_inv_def worker_loop_def less_Suc_eq)

lemma worker_loop_work: "pool_work items (worker_loop (length items) p) = pool_work items p"
  by (cases "next_item p < length items") (simp_all add: pool_work_def worker_loop_def)

lemma worker_loop_failure [simp]: "failure (worker_loop n p) = failure p"
  by (simp add: worker_loop_def)

lemma worker_loop_count:
  "length (awaiting (worker_loop n p)) = (if next_item p < n then Suc (length (awaiting p)) else length (awaiting p))"
  "next_item (worker_loop n p) = (if next_item p < n then Suc (next_item p) else next_item p)"
  by (simp_all add: worker_loop_def)

lemma resume_inv:
  assumes "pool_inv fn items p" "i \<in> set (awaiting p)" "fn (items ! i) r"
  shows "pool_inv fn items (worker_resume (length items) i r p)"
proof -
  let ?q = "p\<lparr>awaiting := remove1 i (awaiting p)\<rparr>"
  have i: "i < next_item p" "next_item p \<le> length items" "distinct (awaiting p)"
    using assms(1,2) by (simp_all add: pool_inv_def)
  have s: "set (remove1 i (awaiting p)) = set (awaiting p) - {i}" by (rule set_remove1_eq [OF i(3)])
  show ?thesis
  proof (cases r)
    case (Inl e)
    have "\<exists>x \<in> set items. fn x (Inl e)" using assms(3) i Inl by (auto intro!: bexI [of _ "items ! i"])
    then show ?thesis
      using assms(1) Inl s by (cases "failure p") (simp_all add: pool_inv_def worker_resume_def distinct_remove1)
  next
    case (Inr b)
    have "pool_inv fn items (?q\<lparr>results := (results p)[i := Some b]\<rparr>)"
      using assms(1,3) i Inr s by (simp add: pool_inv_def distinct_remove1 nth_list_update)
    then show ?thesis using worker_loop_inv Inr by (simp add: worker_resume_def)
  qed
qed

lemma resume_work:
  assumes "pool_inv fn items p" "i \<in> set (awaiting p)"
  shows "Suc (pool_work items (worker_resume (length items) i r p)) = pool_work items p"
proof -
  have "0 < length (awaiting p)" using assms(2) by (cases "awaiting p") auto
  then show ?thesis
    using assms by (cases r) (simp_all add: worker_resume_def worker_loop_work, simp_all add: pool_work_def length_remove1)
qed

text \<open>While no call has failed and items are left, every worker is busy.\<close>

definition pool_busy :: "nat \<Rightarrow> 'a list \<Rightarrow> 'b pool \<Rightarrow> bool" where
  "pool_busy limit items p \<longleftrightarrow> length (awaiting p) \<le> limit \<and>
     (failure p = None \<and> next_item p < length items \<longrightarrow> length (awaiting p) = limit)"

lemma resume_busy:
  assumes "pool_busy limit items p" "i \<in> set (awaiting p)"
  shows "pool_busy limit items (worker_resume (length items) i r p)"
proof -
  have "0 < length (awaiting p)" using assms(2) by (cases "awaiting p") auto
  then show ?thesis
    using assms by (cases r) (auto simp: worker_resume_def pool_busy_def worker_loop_count length_remove1 split: option.splits)
qed

lemma start_inv:
  fixes items :: "'a list" and fn :: "'a \<Rightarrow> jsv + 'b \<Rightarrow> bool"
  shows "pool_inv fn items (mapPool_start (length items) limit) \<and> pool_work items (mapPool_start (length items) limit :: 'b pool) = length items \<and>
    pool_busy (min limit (length items)) items (mapPool_start (length items) limit :: 'b pool) \<and>
    failure (mapPool_start (length items) limit :: 'b pool) = None"
proof -
  let ?p0 = "\<lparr>next_item = 0, results = replicate (length items) None, awaiting = [], failure = None\<rparr> :: 'b pool"
  have "pool_inv fn items ((worker_loop (length items) ^^ k) ?p0) \<and>
      pool_work items ((worker_loop (length items) ^^ k) ?p0) = length items \<and>
      length (awaiting ((worker_loop (length items) ^^ k) ?p0)) = k \<and> next_item ((worker_loop (length items) ^^ k) ?p0) = k \<and>
      failure ((worker_loop (length items) ^^ k) ?p0) = None" if "k \<le> length items" for k
    using that
  proof (induction k)
    case 0
    then show ?case by (simp add: pool_inv_def pool_work_def)
  next
    case (Suc k)
    then show ?case by (simp add: worker_loop_inv worker_loop_work worker_loop_count)
  qed
  moreover define k where "k = min limit (length items)"
  ultimately show ?thesis
    by (simp add: mapPool_start_def pool_busy_def flip: k_def) (simp add: k_def)
qed

lemma pool_reach:
  assumes "(pool_step fn items ^^ k) (mapPool_start (length items) limit) p"
  shows "pool_inv fn items p \<and> pool_busy (min limit (length items)) items p \<and> k + pool_work items p = length items"
  using assms
proof (induction k arbitrary: p)
  case 0
  then have p: "p = mapPool_start (length items) limit" by simp
  show ?case unfolding p using start_inv [of fn items limit] by simp
next
  case (Suc k)
  then obtain q where q: "(pool_step fn items ^^ k) (mapPool_start (length items) limit) q" "pool_step fn items q p" by auto
  from q(2) obtain i r where i: "i \<in> set (awaiting q)" "fn (items ! i) r" "p = worker_resume (length items) i r q"
    by (rule pool_stepE)
  show ?case
    using Suc.IH [OF q(1)] resume_inv [where fn = fn and items = items, OF _ i(1,2)] resume_busy [OF _ i(1)]
      resume_work [where fn = fn and r = r, OF _ i(1)] unfolding i(3) by (metis add_Suc add_Suc_right)
qed

section \<open>Properties\<close>

text \<open>
  C39: mapPool with at least one worker, whatever the order in which the calls settle: at most limit calls are under way, every
  run ends after at most one settling per item, and when it ends without a rejection there is a result for every item, in the order of
  the items; a rejection is that of some item.  While it has not ended some call is under way.
\<close>

theorem mapPool_correct:
  assumes "(pool_step fn items ^^ k) (mapPool_start (length items) limit) p" "0 < limit"
  shows "length (awaiting p) \<le> limit \<and> k \<le> length items \<and>
    (case mapPool_result p of
       None \<Rightarrow> awaiting p \<noteq> [] \<and> k < length items
     | Some (Inr rs) \<Rightarrow> k = length items \<and> list_all2 (\<lambda>x r. \<exists>b. r = Some b \<and> fn x (Inr b)) items rs
     | Some (Inl e) \<Rightarrow> \<exists>x \<in> set items. fn x (Inl e))"
proof -
  have i: "pool_inv fn items p" and b: "pool_busy (min limit (length items)) items p" and w: "k + pool_work items p = length items"
    using pool_reach [OF assms(1)] by simp_all
  have finished: "k = length items \<and> list_all2 (\<lambda>x r. \<exists>b. r = Some b \<and> fn x (Inr b)) items (results p)"
    if f: "failure p = None" "awaiting p = []"
  proof -
    have n: "next_item p = length items" using b f i assms(2) by (cases items) (auto simp: pool_busy_def pool_inv_def)
    then have "results p ! j \<noteq> None" if "j < length items" for j using i f that by (simp add: pool_inv_def)
    then have "\<exists>b. results p ! j = Some b \<and> fn (items ! j) (Inr b)" if "j < length items" for j
      using i that unfolding pool_inv_def by blast
    moreover have "length (results p) = length items" using i by (simp add: pool_inv_def)
    ultimately show ?thesis using w n f(2) by (simp add: list_all2_conv_all_nth pool_work_def)
  qed
  have "0 < pool_work items p" if "awaiting p \<noteq> []" using that by (simp add: pool_work_def)
  then show ?thesis
    using finished i b w by (auto simp: mapPool_result_def pool_busy_def pool_inv_def split: option.splits)
qed

definition pool_demo :: "nat pool" where
  "pool_demo = worker_resume 3 2 (Inr 31) (worker_resume 3 0 (Inr 11) (worker_resume 3 1 (Inr 21) (mapPool_start 3 2)))"

text \<open>Three items, two workers, the second call settles first.\<close>

theorem mapPool_correct_witness:
  "list_all2 (\<lambda>x r. r = Some (x + 1)) [10, 20, 30] (results pool_demo)"
proof -
  let ?fn = "\<lambda>(x :: nat) r. r = Inr (x + 1)" and ?items = "[10, 20, 30] :: nat list"
  let ?p0 = "mapPool_start 3 2 :: nat pool"
  let ?p1 = "worker_resume 3 1 (Inr 21) ?p0"
  let ?p2 = "worker_resume 3 0 (Inr 11) ?p1"
  have a: "1 \<in> set (awaiting ?p0)" "0 \<in> set (awaiting ?p1)" "2 \<in> set (awaiting ?p2)" by code_simp+
  have n: "length ?items = 3" by simp
  have "pool_step ?fn ?items ?p0 ?p1" using pool_step.settle [of 1 ?p0 ?fn ?items "Inr 21"] a(1) unfolding n by (simp del: One_nat_def)
  moreover have "pool_step ?fn ?items ?p1 ?p2" using pool_step.settle [of 0 ?p1 ?fn ?items "Inr 11"] a(2) unfolding n by simp
  moreover have "pool_step ?fn ?items ?p2 pool_demo"
    using pool_step.settle [of 2 ?p2 ?fn ?items "Inr 31"] a(3) unfolding n pool_demo_def by simp
  ultimately have "(pool_step ?fn ?items ^^ 3) (mapPool_start (length ?items) 2) pool_demo"
    unfolding n by (auto simp: numeral_3_eq_3 simp del: One_nat_def)
  moreover have "mapPool_result pool_demo = Some (Inr (results pool_demo))" by code_simp
  ultimately show ?thesis using mapPool_correct [where fn = ?fn and items = ?items and limit = 2 and k = 3 and p = pool_demo] by simp
qed


end
