(* ===== verification/ExportsCheck.thy ===== *)
theory ExportsCheck
  imports WorkerPool Lockfile JsonParse "HOL-Library.List_Lexorder" "HOL-Library.Char_ord" "HOL-Library.Multiset"
begin

text \<open>
  scripts/check-exports.mjs: the shape of the manifests, the imports of the built declaration files, and the run of the two linters.
  The file system is a tree of directories; the linters' outcomes and \<open>isBuiltin\<close> are arguments.  Keys of an object are in the order of the
  text (no key of a manifest is an array index).
\<close>

section \<open>The shape of a manifest\<close>

definition rootEntry :: jsv where
  "rootEntry = obj
     [(''import'', obj [(''types'', JStr ''./dist/index.d.ts''), (''default'', JStr ''./dist/index.js'')]),
      (''require'', obj [(''types'', JStr ''./dist/index.d.cts''), (''default'', JStr ''./dist/index.cjs'')])]"

definition is_array :: "jsv \<Rightarrow> bool" where
  "is_array v \<longleftrightarrow> (case v of JArr _ \<Rightarrow> True | _ \<Rightarrow> False)"

text \<open>\<open>Object.keys(v)\<close> with the values.\<close>

definition js_entries :: "jsv \<Rightarrow> (string \<times> jsv) list" where
  "js_entries v = (case v of JArr xs \<Rightarrow> zip (map show_nat [0..<length xs]) xs | _ \<Rightarrow> own_props v)"

lemma size_entry: "(k, x) \<in> set (js_entries v) \<Longrightarrow> size x < size v"
proof -
  have p: "(k, x) \<in> set ps \<Longrightarrow> size x < Suc (size_list (size_prod (\<lambda>_. 0) size) ps)" for ps :: "(string \<times> jsv) list"
    by (induction ps) auto
  have a: "x \<in> set xs \<Longrightarrow> size x < Suc (size_list size xs)" for xs :: "jsv list"
    by (induction xs) auto
  show "(k, x) \<in> set (js_entries v) \<Longrightarrow> size x < size v"
    by (cases v) (auto simp: js_entries_def own_props_def dest!: p a set_zip_rightD)
qed

function orderedEqual :: "jsv \<Rightarrow> jsv \<Rightarrow> bool" where
  "orderedEqual actual expected =
     (if \<not> is_object expected then strict_eq actual expected
      else if \<not> is_object actual \<or> is_array actual then False
      else if length (js_entries actual) \<noteq> length (js_entries expected) then False
      else list_all (\<lambda>e. fst (fst e) = fst (snd e) \<and> orderedEqual (jget actual (fst (snd e))) (snd (snd e)))
             (zip (js_entries actual) (js_entries expected)))"
  by pat_completeness auto

termination
  by (relation "measure (size \<circ> snd)") (auto dest!: set_zip_rightD size_entry)

declare orderedEqual.simps [simp del]

definition package_name :: "jsv \<Rightarrow> string" where
  "package_name packageJson = (case jget packageJson ''name'' of JStr s \<Rightarrow> s | _ \<Rightarrow> ''<unknown>'')"

definition packageExportProblems :: "jsv \<Rightarrow> string list" where
  "packageExportProblems packageJson =
     (let name = package_name packageJson;
          problem = (\<lambda>ok s. if ok then [] else [name @ s]);
          problems =
            problem (strict_eq (jget packageJson ''main'') (JStr ''./dist/index.cjs'')) '': main must stay ./dist/index.cjs'' @
            problem (strict_eq (jget packageJson ''module'') (JStr ''./dist/index.js'')) '': module must stay ./dist/index.js'' @
            problem (strict_eq (jget packageJson ''types'') (JStr ''./dist/index.d.ts'')) '': top-level types must stay ./dist/index.d.ts'';
          exportsField = jget packageJson ''exports''
      in if \<not> truthy exportsField \<or> \<not> is_object exportsField \<or> is_array exportsField
         then problems @ [name @ '': exports must be an object'']
         else problems @
           problem (orderedEqual (jget exportsField ''.'') rootEntry)
             ('': exports['' @ json_string ''.'' @ ''] must nest import types at ./dist/index.d.ts and require types at ./dist/index.d.cts'') @
           problem (strict_eq (jget exportsField ''./package.json'') (JStr ''./package.json''))
             ('': exports['' @ json_string ''./package.json'' @ ''] must stay '' @ json_string ''./package.json'') @
           concat (map (\<lambda>(key, _). if key = ''.'' \<or> key = ''./package.json'' then []
               else [name @ '': unexpected export '' @ json_string key @ '' needs the same import/require types split''])
             (js_entries exportsField)))"

section \<open>Values that came from JSON text\<close>

fun parsed :: "jsv \<Rightarrow> bool" where
  "parsed (JObj c ps) \<longleftrightarrow> c = ''Object'' \<and> distinct (map fst ps) \<and> (\<forall>(k, v) \<in> set ps. parsed v)"
| "parsed (JArr xs) \<longleftrightarrow> (\<forall>x \<in> set xs. parsed x)"
| "parsed (JNum x) \<longleftrightarrow> js_isFinite x"
| "parsed (JBool b) \<longleftrightarrow> True"
| "parsed JNull \<longleftrightarrow> True"
| "parsed (JStr s) \<longleftrightarrow> True"
| "parsed v \<longleftrightarrow> False"

lemma strict_eq_parsed: "parsed e \<Longrightarrow> \<not> is_object e \<Longrightarrow> strict_eq a e \<longleftrightarrow> a = e"
  by (cases e; cases a) (auto simp: strict_eq_def js_eq_def split: jsnum.splits elim!: js_isFiniteE [THEN exE])

lemma same_entries:
  assumes "length ps = length qs" "distinct (map fst qs)"
    and "\<And>i. i < length qs \<Longrightarrow> fst (ps ! i) = fst (qs ! i) \<and> map_of ps (fst (qs ! i)) = Some (snd (qs ! i))"
  shows "ps = qs"
proof (rule nth_equalityI [OF assms(1)])
  fix i assume i: "i < length ps"
  have "map fst ps = map fst qs" using assms(1,3) by (simp add: list_eq_iff_nth_eq)
  then have "map_of ps (fst (ps ! i)) = Some (snd (ps ! i))" using i assms(2) by (intro map_of_is_SomeI) auto
  then show "ps ! i = qs ! i" using i assms(1) assms(3) [of i] by (auto intro: prod_eqI)
qed

lemma orderedEqual_atom: "\<not> is_object e \<Longrightarrow> orderedEqual a e \<longleftrightarrow> strict_eq a e"
  by (subst orderedEqual.simps) simp

lemma orderedEqual_obj:
  "orderedEqual (JObj d ps) (JObj c qs) \<longleftrightarrow> length ps = length qs \<and>
    (\<forall>i < length qs. fst (ps ! i) = fst (qs ! i) \<and> orderedEqual (jget (JObj d ps) (fst (qs ! i))) (snd (qs ! i)))"
  by (subst orderedEqual.simps) (auto simp: js_entries_def is_array_def list_all_length)

text \<open>Objects with the given keys in the given order, without arrays.\<close>

fun plain_shape :: "jsv \<Rightarrow> bool" where
  "plain_shape (JObj c ps) \<longleftrightarrow> (\<forall>(k, v) \<in> set ps. plain_shape v)"
| "plain_shape (JArr xs) \<longleftrightarrow> False"
| "plain_shape v \<longleftrightarrow> True"

lemma orderedEqual_refl: "parsed e \<Longrightarrow> plain_shape e \<Longrightarrow> orderedEqual e e"
proof (induction "size e" arbitrary: e rule: less_induct)
  case less
  show ?case
  proof (cases e)
    case (JObj c ps)
    have "orderedEqual (jget e (fst (ps ! i))) (snd (ps ! i))" if i: "i < length ps" for i
    proof -
      have m: "(fst (ps ! i), snd (ps ! i)) \<in> set ps" using i by simp
      then have "map_of ps (fst (ps ! i)) = Some (snd (ps ! i))" using less.prems(1) JObj by (intro map_of_is_SomeI) auto
      then have "jget e (fst (ps ! i)) = snd (ps ! i)" using JObj by (simp add: jget_obj)
      moreover have "size (snd (ps ! i)) < size e" using m JObj by (intro size_entry [of "fst (ps ! i)"]) (simp add: js_entries_def)
      moreover have "parsed (snd (ps ! i))" "plain_shape (snd (ps ! i))" using less.prems m JObj by auto
      ultimately show ?thesis using less.hyps by simp
    qed
    then show ?thesis using JObj by (simp add: orderedEqual_obj)
  qed (use less.prems in \<open>auto simp: orderedEqual_atom strict_eq_parsed elim!: js_isFiniteE [THEN exE]\<close>)
qed

text \<open>On values from JSON text \<open>orderedEqual\<close> is equality, keys in the same order.\<close>

lemma orderedEqual_iff: "parsed a \<Longrightarrow> parsed e \<Longrightarrow> plain_shape e \<Longrightarrow> orderedEqual a e \<longleftrightarrow> a = e"
proof (induction "size e" arbitrary: a e rule: less_induct)
  case less
  show ?case
  proof (cases e)
    case e: (JObj c qs)
    show ?thesis
    proof
      assume eq: "orderedEqual a e"
      then obtain d ps where a: "a = JObj d ps"
        using less.prems(1) e by (cases a) (simp_all add: orderedEqual.simps [of _ "JObj c qs"] is_array_def)
      have len: "length ps = length qs" using eq a e by (simp add: orderedEqual_obj)
      have entry: "fst (ps ! i) = fst (qs ! i) \<and> map_of ps (fst (qs ! i)) = Some (snd (qs ! i))" if i: "i < length qs" for i
      proof -
        have k: "fst (ps ! i) = fst (qs ! i)" and o1: "orderedEqual (jget a (fst (qs ! i))) (snd (qs ! i))"
          using eq a e i by (simp_all add: orderedEqual_obj)
        have v: "map_of ps (fst (qs ! i)) = Some (snd (ps ! i))"
          using k len i less.prems(1) a by (intro map_of_is_SomeI) (auto simp flip: k)
        have m: "(fst (qs ! i), snd (qs ! i)) \<in> set qs" "(fst (ps ! i), snd (ps ! i)) \<in> set ps" using i len by simp_all
        have "snd (ps ! i) = snd (qs ! i)"
        proof (rule less.hyps [THEN iffD1])
          show "size (snd (qs ! i)) < size e" using m e by (intro size_entry [of "fst (qs ! i)"]) (simp add: js_entries_def)
          show "parsed (snd (ps ! i))" "parsed (snd (qs ! i))" "plain_shape (snd (qs ! i))" using less.prems m a e by auto
          show "orderedEqual (snd (ps ! i)) (snd (qs ! i))" using o1 v a by (simp add: jget_obj)
        qed
        then show ?thesis using k v by simp
      qed
      have "ps = qs" using less.prems(2) e by (intro same_entries len entry) simp_all
      then show "a = e" using a e less.prems by simp
    next
      assume "a = e"
      then show "orderedEqual a e" using orderedEqual_refl less.prems by simp
    qed
  qed (use less.prems in \<open>simp_all add: orderedEqual_atom strict_eq_parsed\<close>)
qed

lemma two_entries:
  assumes "distinct (map fst es)" "\<forall>k \<in> fst ` set es. k = a \<or> k = b" "map_of es a = Some x" "map_of es b = Some y" "a \<noteq> b"
  shows "es = [(a, x), (b, y)] \<or> es = [(b, y), (a, x)]"
proof -
  have "set (map fst es) = {a, b}" using assms(2,3,4) by (auto dest!: map_of_SomeD intro: rev_image_eqI)
  then have "length es = 2" using distinct_card [OF assms(1)] assms(5) by simp
  then obtain p q where "es = [p, q]" by (auto simp: numeral_2_eq_2 length_Suc_conv)
  then show ?thesis using assms by (cases p; cases q) (auto split: if_splits)
qed

lemma packageExportProblems_Nil:
  "packageExportProblems p = [] \<longleftrightarrow>
    jget p ''main'' = JStr ''./dist/index.cjs'' \<and> jget p ''module'' = JStr ''./dist/index.js'' \<and> jget p ''types'' = JStr ''./dist/index.d.ts'' \<and>
    (let e = jget p ''exports'' in truthy e \<and> is_object e \<and> \<not> is_array e \<and> orderedEqual (jget e ''.'') rootEntry \<and>
      strict_eq (jget e ''./package.json'') (JStr ''./package.json'') \<and>
      (\<forall>(k, _) \<in> set (js_entries e). k = ''.'' \<or> k = ''./package.json''))"
proof -
  have "concat (map (\<lambda>(key, _). if A key then [] else [f key]) es) = [] \<longleftrightarrow> (\<forall>(k, _) \<in> set es. A k)"
    for es :: "(string \<times> jsv) list" and A and f :: "string \<Rightarrow> string"
    by (auto split: if_splits)
  then show ?thesis
    by (simp add: packageExportProblems_def Let_def strict_eq_JStr)
qed

text \<open>
  The check of a manifest: it has no problems exactly when main, module and types are the built files and exports has
  the two entries with the nested conditions in their order, and nothing else.
\<close>

theorem packageExportProblems_none:
  assumes "parsed packageJson"
  shows "packageExportProblems packageJson = [] \<longleftrightarrow>
    jget packageJson ''main'' = JStr ''./dist/index.cjs'' \<and> jget packageJson ''module'' = JStr ''./dist/index.js'' \<and>
    jget packageJson ''types'' = JStr ''./dist/index.d.ts'' \<and>
    (\<exists>es. jget packageJson ''exports'' = obj es \<and>
       (es = [(''.'', rootEntry), (''./package.json'', JStr ''./package.json'')] \<or>
        es = [(''./package.json'', JStr ''./package.json''), (''.'', rootEntry)]))"
    (is "_ \<longleftrightarrow> _ \<and> _ \<and> _ \<and> ?exports")
proof -
  let ?e = "jget packageJson ''exports''"
  have root: "parsed rootEntry" "plain_shape rootEntry" by (simp_all add: rootEntry_def)
  have e: "?e = JUndef \<or> parsed ?e" using assms by (cases packageJson) (auto simp: jget_def dest: map_of_SomeD split: option.splits)
  have ok: "(truthy ?e \<and> is_object ?e \<and> \<not> is_array ?e \<and> orderedEqual (jget ?e ''.'') rootEntry \<and>
      strict_eq (jget ?e ''./package.json'') (JStr ''./package.json'') \<and>
      (\<forall>(k, _) \<in> set (js_entries ?e). k = ''.'' \<or> k = ''./package.json'')) \<longleftrightarrow> ?exports" (is "?ok \<longleftrightarrow> _") if p: "parsed ?e"
  proof
    assume ok: ?ok
    then obtain es where es: "?e = obj es" "distinct (map fst es)" using p by (cases ?e) (auto simp: is_array_def)
    have keys: "\<forall>k \<in> fst ` set es. k = ''.'' \<or> k = ''./package.json''" using ok es(1) by (auto simp: js_entries_def)
    have d: "map_of es ''.'' = Some v \<and> v = rootEntry" if "map_of es ''.'' = Some v" for v
      using ok es p that root orderedEqual_iff [of v rootEntry] by (auto simp: jget_obj dest: map_of_SomeD)
    have "\<not> orderedEqual JUndef rootEntry" by (subst orderedEqual.simps) (simp add: rootEntry_def)
    then have r: "map_of es ''.'' = Some rootEntry"
      using ok es(1) d by (cases "map_of es ''.''") (auto simp: jget_obj)
    have j: "map_of es ''./package.json'' = Some (JStr ''./package.json'')"
      using ok es(1) by (cases "map_of es ''./package.json''") (auto simp: jget_obj strict_eq_JStr)
    show ?exports using es(1) two_entries [OF es(2) keys r j] by simp
  next
    assume ?exports
    then show ?ok
      using orderedEqual_refl [OF root] by (elim exE conjE disjE) (simp_all add: js_entries_def is_array_def truthy_def)
  qed
  show ?thesis
  proof (cases "parsed ?e")
    case True
    show ?thesis unfolding packageExportProblems_Nil Let_def ok [OF True] ..
  next
    case False
    then have "?e = JUndef" using e by simp
    then show ?thesis unfolding packageExportProblems_Nil Let_def by simp
  qed
qed

definition good_manifest :: jsv where
  "good_manifest = obj
     [(''name'', JStr ''@tslock/core''), (''main'', JStr ''./dist/index.cjs''), (''module'', JStr ''./dist/index.js''),
      (''types'', JStr ''./dist/index.d.ts''), (''exports'', obj [(''.'', rootEntry), (''./package.json'', JStr ''./package.json'')])]"

theorem packageExportProblems_none_witness: "packageExportProblems good_manifest = []"
proof -
  have "parsed good_manifest" by (simp add: good_manifest_def rootEntry_def)
  from packageExportProblems_none [OF this] show ?thesis by (simp add: good_manifest_def)
qed

section \<open>The imports of a source text\<close>

text \<open>A JavaScript word character, and \<open>\b\<close> before one.\<close>

definition is_word :: "char \<Rightarrow> bool" where
  "is_word c \<longleftrightarrow> (let n = (of_char c :: nat) in 48 \<le> n \<and> n \<le> 57 \<or> 65 \<le> n \<and> n \<le> 90 \<or> n = 95 \<or> 97 \<le> n \<and> n \<le> 122)"

text \<open>The text after the first \<open>*/\<close>.\<close>

fun after_comment :: "string \<Rightarrow> string option" where
  "after_comment [] = None"
| "after_comment (c # s) = (if starts_with (c # s) ''*/'' then Some (tl s) else after_comment s)"

lemma after_comment_length: "after_comment s = Some r \<Longrightarrow> length r < length s"
  by (induction s) (auto split: if_splits)

text \<open>\<open>source.replace(/\/\*[\s\S]*?\*\//g, '')\<close>.\<close>

function strip_blocks :: "string \<Rightarrow> string" where
  "strip_blocks [] = []"
| "strip_blocks (c # s) =
     (case (if starts_with (c # s) ''/*'' then after_comment (tl s) else None) of
        Some r \<Rightarrow> strip_blocks r
      | None \<Rightarrow> c # strip_blocks s)"
  by pat_completeness auto

termination
proof (relation "measure length")
  fix c s r assume "(if starts_with (c # s) ''/*'' then after_comment (tl s) else None) = Some r"
  then have "length r < length (tl s)" by (auto split: if_splits dest: after_comment_length)
  then show "(r, c # s) \<in> measure length" by simp
qed simp_all

text \<open>
  \<open>.replace(/(^|[^:])\/\/.*$/gm, '$1')\<close>: a comment at the start of a line, or after a character that is not a colon; \<open>start\<close> says that the
  text begins a line.
\<close>

abbreviation rest_of_line :: "string \<Rightarrow> string" where
  "rest_of_line \<equiv> dropWhile (\<lambda>c. \<not> is_line_end c)"

function strip_lines :: "bool \<Rightarrow> string \<Rightarrow> string" where
  "strip_lines start [] = []"
| "strip_lines start (c # s) =
     (if start \<and> starts_with (c # s) ''//'' then strip_lines False (rest_of_line s)
      else if c \<noteq> CHR '':'' \<and> starts_with s ''//'' then c # strip_lines False (rest_of_line s)
      else c # strip_lines (is_line_end c) s)"
  by pat_completeness auto

termination
  by (relation "measure (length \<circ> snd)") (auto simp: less_Suc_eq_le length_dropWhile_le)

text \<open>\<open>['"]([^'"]+)['"]\<close> at the start of the text: the capture and what follows.\<close>

definition quoted :: "string \<Rightarrow> (string \<times> string) option" where
  "quoted s = (case s of
     [] \<Rightarrow> None
   | q # r \<Rightarrow> (let t = takeWhile (\<lambda>c. \<not> is_quote c) r; u = dropWhile (\<lambda>c. \<not> is_quote c) r in
       if is_quote q \<and> t \<noteq> [] \<and> u \<noteq> [] then Some (t, tl u) else None))"

abbreviation skip_space :: "string \<Rightarrow> string" where
  "skip_space \<equiv> dropWhile is_js_space"

text \<open>\<open>word\s+['"]...['"]\<close> and \<open>word\s*\(\s*['"]...['"]\s*\)\<close>.\<close>

definition spaced :: "string \<Rightarrow> string \<Rightarrow> (string \<times> string) option" where
  "spaced word s = (let r = drop (length word) s in
     if starts_with s word \<and> r \<noteq> [] \<and> is_js_space (hd r) then quoted (skip_space r) else None)"

definition called :: "string \<Rightarrow> string \<Rightarrow> (string \<times> string) option" where
  "called word s = (let r = skip_space (drop (length word) s) in
     if starts_with s word \<and> starts_with r ''('' then
       (case quoted (skip_space (tl r)) of
          Some (t, u) \<Rightarrow> if starts_with (skip_space u) '')'' then Some (t, tl (skip_space u)) else None
        | None \<Rightarrow> None)
     else None)"

text \<open>\<open>stripped.matchAll(pattern)\<close> for a pattern that starts with \<open>\b\<close>; \<open>word\<close>: the character before the text is a word character.\<close>

fun match_all :: "(string \<Rightarrow> (string \<times> string) option) \<Rightarrow> bool \<Rightarrow> string \<Rightarrow> nat \<Rightarrow> string list" where
  "match_all p word [] skip = []"
| "match_all p word (c # s) (Suc skip) = match_all p (is_word c) s skip"
| "match_all p word (c # s) 0 =
     (case (if word then None else p (c # s)) of
        Some (t, r) \<Rightarrow> t # match_all p (is_word c) s (length s - length r)
      | None \<Rightarrow> match_all p (is_word c) s 0)"

definition importedSpecifiers :: "string \<Rightarrow> string list" where
  "importedSpecifiers source = (let stripped = strip_lines True (strip_blocks source) in
     concat (map (\<lambda>p. match_all p False stripped 0)
       [spaced ''from'', spaced ''import'', called ''import'', called ''require'']))"


section \<open>The built packages\<close>

text \<open>A directory tree.  \<open>dist\<close> is a directory where it exists.\<close>

datatype dirent =
    Directory (de_name: string) (de_entries: "dirent list")
  | RegularFile (de_name: string) (de_text: string)
  | OtherEntry (de_name: string)

record package =
  pk_directory :: string
  pk_entries :: "dirent list"
  pk_json :: jsv

definition path_join :: "string \<Rightarrow> string \<Rightarrow> string" where
  "path_join directory name = directory @ ''/'' @ name"

definition dist_entries :: "package \<Rightarrow> dirent list option" where
  "dist_entries p = (case filter (\<lambda>e. de_name e = ''dist'') (pk_entries p) of Directory _ es # _ \<Rightarrow> Some es | _ \<Rightarrow> None)"

text \<open>\<open>split('/')\<close>: the part before the first slash and the part before the next one, if there is one.\<close>

definition barePackageName :: "(string \<Rightarrow> bool) \<Rightarrow> string \<Rightarrow> string option" where
  "barePackageName isBuiltin specifier =
     (let part = takeWhile (\<lambda>c. c \<noteq> CHR ''/''); rest = (\<lambda>s. tl (dropWhile (\<lambda>c. c \<noteq> CHR ''/'') s)) in
      if starts_with specifier ''.'' \<or> starts_with specifier ''/'' \<or> isBuiltin specifier then None
      else if starts_with specifier ''@'' then
        (let name = part (rest specifier) in
         if name = [] then Some specifier else Some (part specifier @ ''/'' @ name))
      else (if part specifier = [] then None else Some (part specifier)))"

text \<open>The declaration files under a directory with their texts, sorted by path at each level.\<close>

fun declarationFiles :: "string \<Rightarrow> dirent list \<Rightarrow> (string \<times> string) list"
  and entry_files :: "string \<Rightarrow> dirent \<Rightarrow> (string \<times> string) list" where
  "declarationFiles directory es = sort_key fst (concat (map (entry_files directory) es))"
| "entry_files directory (Directory name es) = declarationFiles (path_join directory name) es"
| "entry_files directory (RegularFile name t) =
     (if ends_with name ''.d.ts'' \<or> ends_with name ''.d.cts'' then [(path_join directory name, t)] else [])"
| "entry_files directory (OtherEntry name) = []"

definition relative :: "string \<Rightarrow> string \<Rightarrow> string" where
  "relative directory path = drop (length directory + 1) path"

definition declared_packages :: "jsv \<Rightarrow> string set" where
  "declared_packages packageJson =
     set (map fst (js_entries (nullish (jget packageJson ''dependencies'') (obj [])))) \<union>
     set (map fst (js_entries (nullish (jget packageJson ''peerDependencies'') (obj []))))"

definition import_problem :: "(string \<Rightarrow> bool) \<Rightarrow> package \<Rightarrow> string \<Rightarrow> string \<Rightarrow> string list" where
  "import_problem isBuiltin p relativePath specifier = (case barePackageName isBuiltin specifier of
     None \<Rightarrow> []
   | Some dependency \<Rightarrow> if dependency \<in> declared_packages (pk_json p) then []
       else [package_name (pk_json p) @ '': '' @ relativePath @ '' imports '' @ [CHR 0x27] @ specifier @ [CHR 0x27] @
             '', which is not declared in dependencies or peerDependencies''])"

definition declarationImportProblems :: "(string \<Rightarrow> bool) \<Rightarrow> package \<Rightarrow> string list" where
  "declarationImportProblems isBuiltin p = (let name = package_name (pk_json p) in
     case dist_entries p of
       None \<Rightarrow> [name @ '': dist is missing, so declaration imports cannot be checked'']
     | Some es \<Rightarrow> (let files = declarationFiles (path_join (pk_directory p) ''dist'') es in
         if files = [] then [name @ '': dist has no declaration files'']
         else concat (map (\<lambda>(file, source).
           concat (map (import_problem isBuiltin p (relative (pk_directory p) file)) (importedSpecifiers source))) files)))"

definition SQL_DRIVER_SPECIFIER_test :: "string \<Rightarrow> bool" where
  "SQL_DRIVER_SPECIFIER_test s = list_ex (\<lambda>driver. s = driver \<or>
     starts_with s (driver @ ''/'') \<and> list_all (\<lambda>c. \<not> is_line_end c) (drop (length driver + 1) s)) [''pg'', ''mysql2'', ''mssql'']"

definition sqlDriverImportProblems :: "package \<Rightarrow> string list" where
  "sqlDriverImportProblems p =
     (let dist = dist_entries p; present = (\<lambda>name. case dist of None \<Rightarrow> False | Some es \<Rightarrow> name \<in> de_name ` set es) in
      concat (map (\<lambda>name. if present name then [] else [''@tslock/sql: missing dist/'' @ name]) [''index.d.ts'', ''index.d.cts'']) @
      (case dist of None \<Rightarrow> []
       | Some es \<Rightarrow> concat (map (\<lambda>(file, source).
           concat (map (\<lambda>specifier. if SQL_DRIVER_SPECIFIER_test specifier
               then [''@tslock/sql: '' @ relative (pk_directory p) file @ '' imports '' @ [CHR 0x27] @ specifier @ [CHR 0x27]] else [])
             (importedSpecifiers source)))
           (declarationFiles (path_join (pk_directory p) ''dist'') es))))"

definition workspacePackageExportProblems :: "package list \<Rightarrow> string list" where
  "workspacePackageExportProblems ps = concat (map (\<lambda>p. packageExportProblems (pk_json p)) ps)"

definition workspaceDeclarationImportProblems :: "(string \<Rightarrow> bool) \<Rightarrow> package list \<Rightarrow> string list" where
  "workspaceDeclarationImportProblems isBuiltin ps = concat (map (\<lambda>p. declarationImportProblems isBuiltin p @
     (if strict_eq (jget (pk_json p) ''name'') (JStr ''@tslock/sql'') then sqlDriverImportProblems p else [])) ps)"

text \<open>The packages of the workspace: the directories with a manifest, sorted; a manifest that does not parse is an exception.\<close>

definition workspacePackageDirectories :: "string \<Rightarrow> dirent list \<Rightarrow> (string \<times> dirent list) list" where
  "workspacePackageDirectories packagesRoot es = sort_key fst (map (\<lambda>e. (path_join packagesRoot (de_name e), de_entries e))
     (filter (\<lambda>e. case e of Directory _ cs \<Rightarrow> ''package.json'' \<in> de_name ` set cs | _ \<Rightarrow> False) es))"

definition manifest_text :: "dirent list \<Rightarrow> string" where
  "manifest_text es = (case filter (\<lambda>e. de_name e = ''package.json'') es of RegularFile _ t # _ \<Rightarrow> t | _ \<Rightarrow> [])"

fun scan_packages :: "(string \<times> dirent list) list \<Rightarrow> jsv + package list" where
  "scan_packages [] = Inr []"
| "scan_packages ((directory, es) # ds) = (case JSON_parse (manifest_text es) of
     Inl e \<Rightarrow> Inl e
   | Inr packageJson \<Rightarrow> (case scan_packages ds of
       Inl e \<Rightarrow> Inl e
     | Inr ps \<Rightarrow> Inr (\<lparr>pk_directory = directory, pk_entries = es, pk_json = packageJson\<rparr> # ps)))"

definition scannedWorkspacePackages :: "string \<Rightarrow> dirent list \<Rightarrow> jsv + package list" where
  "scannedWorkspacePackages packagesRoot es = scan_packages (workspacePackageDirectories packagesRoot es)"

section \<open>The linters and the command\<close>

text \<open>Outcome of a child process.\<close>

record process_result =
  pr_code :: int
  pr_output :: string

text \<open>The callback of \<open>lintBuiltPackages\<close> for one package, from the outcomes of its two processes.\<close>

definition lint_failures :: "jsv \<Rightarrow> process_result \<Rightarrow> process_result \<Rightarrow> string list" where
  "lint_failures packageJson publint attw = (let name = js_String (jget packageJson ''name'') in
     (if pr_code publint \<noteq> 0 then [name @ '': publint --strict failed'' @ [CHR 0x0A] @ pr_output publint] else []) @
     (if pr_code attw \<noteq> 0 then [name @ '': attw --pack failed'' @ [CHR 0x0A] @ pr_output attw] else []))"

text \<open>\<open>results.flat()\<close> of a pool that has ended; holes are skipped.\<close>

definition lintBuiltPackages_result :: "bool \<Rightarrow> string list pool \<Rightarrow> (jsv + string list) option" where
  "lintBuiltPackages_result tools_installed pool =
     (if \<not> tools_installed
      then Some (Inr [''publint and @arethetypeswrong/cli must be installed (pnpm install) before check:exports''])
      else map_option (map_sum id (\<lambda>rs. concat (map (\<lambda>r. case r of None \<Rightarrow> [] | Some fs \<Rightarrow> fs) rs))) (mapPool_result pool))"

text \<open>Exit code and the message of \<open>main\<close>.\<close>

definition check_exports_main :: "string list \<Rightarrow> string list \<Rightarrow> nat \<Rightarrow> nat \<times> string" where
  "check_exports_main shapeProblems toolProblems n =
     (if shapeProblems \<noteq> [] then (1, join [CHR 0x0A] shapeProblems)
      else if toolProblems \<noteq> [] then (1, join [CHR 0x0A, CHR 0x0A] toolProblems)
      else (0, ''publint --strict, attw --pack, and declaration import checks passed for '' @ show_nat n @ '' packages.''))"


section \<open>What the import check finds\<close>

lemma import_problem_Nil: "import_problem isBuiltin p f s = [] \<longleftrightarrow>
    (\<forall>d. barePackageName isBuiltin s = Some d \<longrightarrow> d \<in> declared_packages (pk_json p))"
  by (auto simp: import_problem_def split: option.splits)

lemma declarationImportProblems_none:
  "declarationImportProblems isBuiltin p = [] \<longleftrightarrow>
    (\<exists>es. dist_entries p = Some es \<and> declarationFiles (path_join (pk_directory p) ''dist'') es \<noteq> [] \<and>
      (\<forall>(f, source) \<in> set (declarationFiles (path_join (pk_directory p) ''dist'') es). \<forall>s \<in> set (importedSpecifiers source).
         \<forall>d. barePackageName isBuiltin s = Some d \<longrightarrow> d \<in> declared_packages (pk_json p)))"
  by (auto simp: declarationImportProblems_def Let_def import_problem_Nil case_prod_beta split: option.splits)

text \<open>The files found are those of the tree, each once, whatever their depth.\<close>

fun files_below :: "string \<Rightarrow> dirent \<Rightarrow> (string \<times> string) list" where
  "files_below directory (Directory name es) = concat (map (files_below (path_join directory name)) es)"
| "files_below directory (RegularFile name t) = [(path_join directory name, t)]"
| "files_below directory (OtherEntry name) = []"

definition is_declaration :: "string \<times> string \<Rightarrow> bool" where
  "is_declaration f \<longleftrightarrow> ends_with (fst f) ''.d.ts'' \<or> ends_with (fst f) ''.d.cts''"

lemma starts_with_before: "c \<notin> set u \<Longrightarrow> starts_with (a @ c # b) u \<longleftrightarrow> starts_with a u"
proof (induction u arbitrary: a)
  case (Cons d u)
  then show ?case by (cases a) auto
qed simp

lemma declaration_path: "t \<noteq> [] \<Longrightarrow> CHR ''/'' \<notin> set t \<Longrightarrow> ends_with (path_join d n) t \<longleftrightarrow> ends_with n t"
proof -
  assume t: "t \<noteq> []" "CHR ''/'' \<notin> set t"
  have "starts_with (rev n @ CHR ''/'' # rev d) u \<longleftrightarrow> starts_with (rev n) u" if "CHR ''/'' \<notin> set u" for u
    using starts_with_before [OF that] .
  then show ?thesis using t by (simp add: ends_with_def path_join_def)
qed

lemma declarationFiles_mset:
  "mset (declarationFiles d es) = mset (filter is_declaration (concat (map (files_below d) es)))"
  "mset (entry_files d e) = mset (filter is_declaration (files_below d e))"
proof (induction d es and d e rule: declarationFiles_entry_files.induct)
  case (1 directory es)
  have "mset (concat (map (entry_files directory) xs)) = mset (filter is_declaration (concat (map (files_below directory) xs)))"
    if "set xs \<subseteq> set es" for xs
    using that 1 by (induction xs) auto
  then show ?case by simp
qed (auto simp: is_declaration_def declaration_path)


lemma declarationFiles_set: "set (declarationFiles d es) = {f \<in> set (concat (map (files_below d) es)). is_declaration f}"
proof -
  have "set_mset (mset (declarationFiles d es)) = set_mset (mset (filter is_declaration (concat (map (files_below d) es))))"
    unfolding declarationFiles_mset ..
  then show ?thesis by auto
qed

text \<open>
  A built package passes the import check exactly when dist has a declaration file at some depth and every bare package
  named by an import of any such file is a dependency or a peer.
\<close>

theorem declarationImports_complete:
  "declarationImportProblems isBuiltin p = [] \<longleftrightarrow>
    (\<exists>es fs. dist_entries p = Some es \<and>
      fs = {f \<in> set (concat (map (files_below (path_join (pk_directory p) ''dist'')) es)). is_declaration f} \<and> fs \<noteq> {} \<and>
      (\<forall>(f, source) \<in> fs. \<forall>s \<in> set (importedSpecifiers source). \<forall>d. barePackageName isBuiltin s = Some d \<longrightarrow>
         d \<in> declared_packages (pk_json p)))"
  unfolding declarationImportProblems_none declarationFiles_set [symmetric] set_empty by blast

lemma specifiers_demo:
  "importedSpecifiers (join [CHR 0x0A] [''import { A } from '' @ [CHR 0x27] @ ''a'' @ [CHR 0x27] @ '';'',
      ''// import '' @ [CHR 0x27] @ ''b'' @ [CHR 0x27],
      ''declare const x: import('' @ [CHR 0x22] @ ''@c/d'' @ [CHR 0x22] @ '').E; /* from '' @ [CHR 0x27] @ ''f'' @ [CHR 0x27] @ '' */'']) =
    [''a'', ''@c/d'']"
  by code_simp

end
