(* ===== verification/PackedPeers.thy ===== *)
theory PackedPeers
  imports ExportsCheck
begin

text \<open>
  scripts/check-packed-peers.mjs: the ranges of the workspace's own packages in the manifests that are published.  Packing and reading
  the archive are arguments.
\<close>

section \<open>Ranges of one manifest\<close>

text \<open>\<open>/^\^\d+\.\d+\.\d+$/\<close>: \<open>number_dot\<close> reads \<open>\d+\.\<close>.\<close>

definition number_dot :: "string \<Rightarrow> string option" where
  "number_dot s = (case dropWhile is_digit s of
     [] \<Rightarrow> None | c # r \<Rightarrow> if takeWhile is_digit s \<noteq> [] \<and> c = CHR ''.'' then Some r else None)"

definition PUBLISHED_TSLOCK_RANGE_test :: "string \<Rightarrow> bool" where
  "PUBLISHED_TSLOCK_RANGE_test s = (starts_with s ''^'' \<and> (case number_dot (tl s) of
     None \<Rightarrow> False
   | Some r \<Rightarrow> (case number_dot r of None \<Rightarrow> False | Some q \<Rightarrow> q \<noteq> [] \<and> list_all is_digit q)))"

definition packed_entry_problem :: "string \<Rightarrow> string \<Rightarrow> string \<times> jsv \<Rightarrow> string list" where
  "packed_entry_problem packageName section_name = (\<lambda>(dependency, range_value).
     (let problem = packageName @ '': '' @ section_name @ ''.'' @ dependency @ '' is '' in
      if is_string range_value \<and> starts_with (str_of range_value) ''workspace:'' then [problem @ str_of range_value]
      else if \<not> starts_with dependency ''@tslock/'' then []
      else if \<not> is_string range_value \<or> \<not> PUBLISHED_TSLOCK_RANGE_test (str_of range_value)
      then [problem @ js_String range_value] else []))"

definition packedInternalRangeProblems :: "string \<Rightarrow> jsv \<Rightarrow> string list" where
  "packedInternalRangeProblems packageName packedPackageJson =
     concat (map (\<lambda>section_name. let entries = jget packedPackageJson section_name in
       if \<not> truthy entries \<or> \<not> is_object entries then []
       else concat (map (packed_entry_problem packageName section_name) (js_entries entries)))
       [''dependencies'', ''peerDependencies''])"

section \<open>The packages\<close>

definition error_detail :: "jsv \<Rightarrow> string" where
  "error_detail error = (case error of
     JErr c ps \<Rightarrow> (case jget error ''stderr'' of JStr s \<Rightarrow> js_trim s | _ \<Rightarrow> js_String (jget error ''message''))
   | _ \<Rightarrow> js_String error)"

text \<open>
  \<open>pack directory\<close>: the names in the destination after packing; \<open>extract directory archive\<close>: the manifest in it.  \<open>manifest\<close> is the text
  of the package's own manifest, if it can be read.
\<close>

definition packed_failures ::
  "(string \<Rightarrow> jsv + string list) \<Rightarrow> (string \<Rightarrow> string \<Rightarrow> jsv + string) \<Rightarrow> string \<Rightarrow> string \<Rightarrow> string list" where
  "packed_failures pack extract directory name =
     (let failed = (\<lambda>error. [name @ '': '' @ error_detail error]) in
      case pack directory of
        Inl error \<Rightarrow> failed error
      | Inr names \<Rightarrow> (let archives = filter (\<lambda>n. ends_with n ''.tgz'') names in
          if length archives \<noteq> 1 then [name @ '': expected one packed archive, found '' @ show_nat (length archives)]
          else (case extract directory (hd archives) of
            Inl error \<Rightarrow> failed error
          | Inr packedManifest \<Rightarrow> (case JSON_parse packedManifest of
              Inl error \<Rightarrow> failed error
            | Inr packedPackageJson \<Rightarrow> packedInternalRangeProblems name packedPackageJson))))"

fun checkPackedPackages ::
  "(string \<Rightarrow> jsv + string list) \<Rightarrow> (string \<Rightarrow> string \<Rightarrow> jsv + string) \<Rightarrow> (string \<times> string option) list \<Rightarrow> jsv + string list" where
  "checkPackedPackages pack extract [] = Inr []"
| "checkPackedPackages pack extract ((directory, manifest) # ps) =
     (let skip = checkPackedPackages pack extract ps in
      case manifest of None \<Rightarrow> skip
      | Some t \<Rightarrow> (case JSON_parse t of
          Inl _ \<Rightarrow> skip
        | Inr packageJson \<Rightarrow> (case prop_of packageJson ''name'' of
            Inl e \<Rightarrow> Inl e
          | Inr JUndef \<Rightarrow> skip
          | Inr JNull \<Rightarrow> skip
          | Inr (JStr name) \<Rightarrow>
              if \<not> starts_with name ''@tslock/'' then skip
              else map_sum id (\<lambda>failures. packed_failures pack extract directory name @ failures) skip
          | Inr _ \<Rightarrow> Inl (TypeError ''packageJson.name?.startsWith is not a function''))))"

text \<open>Exit code and message.\<close>

definition check_packed_main :: "string list \<Rightarrow> nat \<times> string" where
  "check_packed_main failures =
     (if failures \<noteq> [] then (1, join [CHR 0x0A] failures)
      else (0, ''Packed @tslock dependency and peer ranges are caret versions for all @tslock/* packages.''))"

section \<open>What passes\<close>

definition caret_version :: "string \<Rightarrow> bool" where
  "caret_version s \<longleftrightarrow> (\<exists>a b c. s = CHR ''^'' # a @ CHR ''.'' # b @ CHR ''.'' # c \<and>
     a \<noteq> [] \<and> b \<noteq> [] \<and> c \<noteq> [] \<and> list_all is_digit (a @ b @ c))"

lemma dot_not_digit [simp]: "\<not> is_digit CHR ''.''"
  by (simp add: is_digit_def)

lemma number_dot_iff: "number_dot s = Some r \<longleftrightarrow> (\<exists>a. s = a @ CHR ''.'' # r \<and> a \<noteq> [] \<and> list_all is_digit a)"
proof
  assume n: "number_dot s = Some r"
  then have "dropWhile is_digit s = CHR ''.'' # r" "takeWhile is_digit s \<noteq> []"
    by (auto simp: number_dot_def split: list.splits if_splits)
  then have "s = takeWhile is_digit s @ CHR ''.'' # r" "takeWhile is_digit s \<noteq> []" by (metis takeWhile_dropWhile_id)+
  then show "\<exists>a. s = a @ CHR ''.'' # r \<and> a \<noteq> [] \<and> list_all is_digit a"
    by (intro exI [of _ "takeWhile is_digit s"]) (auto simp: list_all_iff dest: set_takeWhileD)
next
  assume "\<exists>a. s = a @ CHR ''.'' # r \<and> a \<noteq> [] \<and> list_all is_digit a"
  then obtain a where a: "s = a @ CHR ''.'' # r" "a \<noteq> []" "\<forall>c \<in> set a. is_digit c" by (auto simp: list_all_iff)
  then have "takeWhile is_digit s = a" "dropWhile is_digit s = CHR ''.'' # r" by (simp_all add: takeWhile_append dropWhile_append)
  then show "number_dot s = Some r" using a(2) by (simp add: number_dot_def)
qed

lemma published_iff: "PUBLISHED_TSLOCK_RANGE_test s \<longleftrightarrow> caret_version s"
proof
  assume "PUBLISHED_TSLOCK_RANGE_test s"
  then obtain r q where "starts_with s ''^''" "number_dot (tl s) = Some r" "number_dot r = Some q" "q \<noteq> []" "list_all is_digit q"
    by (auto simp: PUBLISHED_TSLOCK_RANGE_test_def split: option.splits)
  moreover from this have "s = CHR ''^'' # tl s" by (cases s) auto
  ultimately show "caret_version s" unfolding number_dot_iff caret_version_def by fastforce
next
  assume "caret_version s"
  then obtain a b c where s: "s = CHR ''^'' # a @ CHR ''.'' # b @ CHR ''.'' # c" "a \<noteq> []" "b \<noteq> []" "c \<noteq> []"
    "list_all is_digit a" "list_all is_digit b" "list_all is_digit c" by (auto simp: caret_version_def)
  have "number_dot (tl s) = Some (b @ CHR ''.'' # c)" "number_dot (b @ CHR ''.'' # c) = Some c"
    unfolding number_dot_iff using s by auto
  then show "PUBLISHED_TSLOCK_RANGE_test s" using s by (simp add: PUBLISHED_TSLOCK_RANGE_test_def)
qed

text \<open>
  A packed manifest passes exactly when no dependency or peer has a range of the workspace protocol and those on the workspace's own
  packages have caret versions.
\<close>

theorem packedInternalRangeProblems_none:
  "packedInternalRangeProblems name (obj ps) = [] \<longleftrightarrow>
    (\<forall>s \<in> {''dependencies'', ''peerDependencies''}. let entries = jget (obj ps) s in truthy entries \<and> is_object entries \<longrightarrow>
      (\<forall>(d, r) \<in> set (js_entries entries). \<not> (\<exists>t. r = JStr (''workspace:'' @ t)) \<and>
         (starts_with d ''@tslock/'' \<longrightarrow> (\<exists>v. r = JStr v \<and> caret_version v))))"
proof -
  have e: "packed_entry_problem name s (d, r) = [] \<longleftrightarrow>
      \<not> (\<exists>t. r = JStr (''workspace:'' @ t)) \<and> (starts_with d ''@tslock/'' \<longrightarrow> (\<exists>v. r = JStr v \<and> caret_version v))" for s d r
  proof (cases r)
    case (JStr v)
    have "starts_with v ''workspace:'' \<longleftrightarrow> (\<exists>t. v = ''workspace:'' @ t)" by (rule starts_with_iff)
    then show ?thesis using JStr by (auto simp: packed_entry_problem_def Let_def published_iff is_string_def str_of_def)
  qed (auto simp: packed_entry_problem_def Let_def is_string_def)
  show ?thesis by (auto simp: packedInternalRangeProblems_def Let_def e case_prod_beta)
qed

end
