(* ===== verification/SignedCommit.thy ===== *)
theory SignedCommit
  imports Effects Json
begin

text \<open>
  scripts/create-signed-commit.mjs: from the changes git reports to the request for a signed commit and the reading of its answer.  git,
  the file system and \<open>fetch\<close> are arguments or requests; contents are bytes, one character each.
\<close>

section \<open>The changes of the working tree\<close>

definition NUL :: char where
  "NUL = CHR 0x00"

text \<open>\<open>text.split('\0')\<close>.\<close>

fun split_nul :: "string \<Rightarrow> string list" where
  "split_nul [] = [[]]"
| "split_nul (c # s) = (if c = NUL then [] # split_nul s
     else (case split_nul s of [] \<Rightarrow> [[c]] | w # ws \<Rightarrow> (c # w) # ws))"

definition js_Error :: "string \<Rightarrow> jsv" where
  "js_Error msg = mk_error ''Error'' msg"

definition malformed :: jsv where
  "malformed = js_Error ''Malformed git diff --name-status -z output''"

definition SUPPORTED_STATUSES :: "string set" where
  "SUPPORTED_STATUSES = {''A'', ''M''}"

text \<open>The loop over pairs of status and path, with the two lists built so far.\<close>

fun name_status_loop :: "string list \<Rightarrow> string list \<Rightarrow> string list \<Rightarrow> jsv + string list \<times> string list" where
  "name_status_loop [] additions deletions = Inr (additions, deletions)"
| "name_status_loop [status] additions deletions = Inl malformed"
| "name_status_loop (status # path # parts) additions deletions =
     (if path = [] then Inl malformed
      else if status = ''D'' then name_status_loop parts additions (deletions @ [path])
      else if status \<in> SUPPORTED_STATUSES then name_status_loop parts (additions @ [path]) deletions
      else Inl (js_Error (''Unsupported git status '' @ [CHR 0x22] @ status @ [CHR 0x22] @ '' for '' @ path)))"

definition parseNameStatusZ :: "string \<Rightarrow> jsv + string list \<times> string list" where
  "parseNameStatusZ t =
     (let parts = split_nul t; parts = (if last parts = [] then butlast parts else parts) in
      if length parts mod 2 \<noteq> 0 then Inl malformed else name_status_loop parts [] [])"

text \<open>\<open>Buffer.toString('base64')\<close>.\<close>

definition base64_char :: "nat \<Rightarrow> char" where
  "base64_char n = (if n < 26 then char_of (65 + n) else if n < 52 then char_of (71 + n)
     else if n < 62 then char_of (n - 4) else if n = 62 then CHR ''+'' else CHR ''/'')"

fun base64 :: "string \<Rightarrow> string" where
  "base64 [] = []"
| "base64 [a] = (let n = of_char a * 16 in [base64_char (n div 64), base64_char (n mod 64), CHR ''='', CHR ''=''])"
| "base64 [a, b] = (let n = (of_char a * 256 + of_char b) * 4 in
     [base64_char (n div 4096), base64_char (n div 64 mod 64), base64_char (n mod 64), CHR ''=''])"
| "base64 (a # b # c # s) = (let n = (of_char a * 256 + of_char b) * 256 + of_char c in
     [base64_char (n div 262144), base64_char (n div 4096 mod 64), base64_char (n div 64 mod 64), base64_char (n mod 64)] @ base64 s)"

record file_changes =
  fc_additions :: "(string \<times> string) list"
  fc_deletions :: "string list"

fun read_all :: "(string \<Rightarrow> jsv + string) \<Rightarrow> string \<Rightarrow> string list \<Rightarrow> jsv + (string \<times> string) list" where
  "read_all readFile repoRoot [] = Inr []"
| "read_all readFile repoRoot (path # paths) = (case readFile (repoRoot @ ''/'' @ path) of
     Inl e \<Rightarrow> Inl e
   | Inr bytes \<Rightarrow> (case read_all readFile repoRoot paths of Inl e \<Rightarrow> Inl e | Inr r \<Rightarrow> Inr ((path, base64 bytes) # r)))"

text \<open>\<open>git directory arguments\<close>: the output of \<open>execFileSync('git', arguments)\<close> in the directory, or what it throws.\<close>

type_synonym git_command = "string option \<Rightarrow> string list \<Rightarrow> jsv + string"

definition collectWorkingTreeChanges :: "git_command \<Rightarrow> (string \<Rightarrow> jsv + string) \<Rightarrow> string \<Rightarrow> jsv + file_changes" where
  "collectWorkingTreeChanges git readFile repoRoot =
     (case git (Some repoRoot) [''diff'', ''--name-status'', ''--no-renames'', ''-z'', ''HEAD''] of
        Inl e \<Rightarrow> Inl e
      | Inr nameStatus \<Rightarrow> (case parseNameStatusZ nameStatus of
          Inl e \<Rightarrow> Inl e
        | Inr (additions, deletions) \<Rightarrow> (case git (Some repoRoot) [''ls-files'', ''-o'', ''--exclude-standard'', ''-z''] of
            Inl e \<Rightarrow> Inl e
          | Inr untracked \<Rightarrow>
              (let new_paths = filter (\<lambda>path. path \<notin> set additions) (filter (\<lambda>path. path \<noteq> []) (split_nul untracked)) in
               case read_all readFile repoRoot (additions @ new_paths) of
                 Inl e \<Rightarrow> Inl e
               | Inr as \<Rightarrow> Inr \<lparr>fc_additions = as, fc_deletions = deletions\<rparr>))))"

section \<open>The request\<close>

definition buildCreateCommitOnBranchInput ::
  "string \<Rightarrow> string \<Rightarrow> string \<Rightarrow> string \<Rightarrow> string option \<Rightarrow> file_changes \<Rightarrow> jsv + jsv" where
  "buildCreateCommitOnBranchInput repository branch expectedHeadOid headline body fileChanges =
     (if fc_additions fileChanges = [] \<and> fc_deletions fileChanges = []
      then Inl (js_Error ''No version changes to commit; aborting.'')
      else if CHR 0x0A \<in> set headline then Inl (js_Error ''Commit headline must be a single line'')
      else Inr (obj
        [(''branch'', obj [(''repositoryNameWithOwner'', JStr repository), (''branchName'', JStr branch)]),
         (''message'', obj ((''headline'', JStr headline) #
            (case body of Some b \<Rightarrow> if b = [] then [] else [(''body'', JStr b)] | None \<Rightarrow> []))),
         (''expectedHeadOid'', JStr expectedHeadOid),
         (''fileChanges'', obj (
            (if fc_additions fileChanges = [] then []
             else [(''additions'', JArr (map (\<lambda>(path, contents). obj [(''path'', JStr path), (''contents'', JStr contents)])
                     (fc_additions fileChanges)))]) @
            (if fc_deletions fileChanges = [] then []
             else [(''deletions'', JArr (map (\<lambda>path. obj [(''path'', JStr path)]) (fc_deletions fileChanges)))])))]))"

definition MUTATION :: string where
  "MUTATION = join [CHR 0x0A]
     [''mutation($input: CreateCommitOnBranchInput!) {'',
      ''  createCommitOnBranch(input: $input) {'',
      ''    commit {'',
      ''      oid'',
      ''      signature { isValid state }'',
      ''    }'',
      ''  }'',
      ''}'']"

text \<open>\<open>GhFetch endpoint authorization body\<close> is the POST (its other headers are constants), \<open>GhJson\<close> is \<open>response.json()\<close>.\<close>

datatype gh_req =
    GhFetch string string string
  | GhJson jsv

definition MAX_PAYLOAD_BYTES :: nat where
  "MAX_PAYLOAD_BYTES = 8000000"

text \<open>\<open>Buffer.byteLength(s)\<close>.\<close>

definition byteLength :: "string \<Rightarrow> nat" where
  "byteLength s = utf8_length (code_points s)"

text \<open>Whether \<open>errors?.length\<close> is truthy.\<close>

definition has_length :: "jsv \<Rightarrow> bool" where
  "has_length errors = (case errors of JArr xs \<Rightarrow> xs \<noteq> [] | JStr s \<Rightarrow> s \<noteq> [] | _ \<Rightarrow> truthy (jget errors ''length''))"

text \<open>An element of an array under \<open>join\<close>.\<close>

definition join_element :: "jsv \<Rightarrow> string" where
  "join_element v = (if v = JUndef \<or> v = JNull then [] else js_String v)"

fun error_messages :: "jsv list \<Rightarrow> jsv + string list" where
  "error_messages [] = Inr []"
| "error_messages (e # es) = (case prop_of e ''message'' of
     Inl x \<Rightarrow> Inl x
   | Inr m \<Rightarrow> (case error_messages es of Inl x \<Rightarrow> Inl x | Inr ms \<Rightarrow> Inr (join_element m # ms)))"

definition failure_message :: "jsv \<Rightarrow> jsv \<Rightarrow> jsv + string" where
  "failure_message response errors =
     (let status = js_String (jget response ''status'') @ '' '' @ js_String (jget response ''statusText'') in
      case errors of
        JArr es \<Rightarrow> map_sum id (\<lambda>ms. let m = join [CHR 0x0A] ms in if m = [] then status else m) (error_messages es)
      | JUndef \<Rightarrow> Inr status
      | JNull \<Rightarrow> Inr status
      | _ \<Rightarrow> Inl (TypeError ''payload.errors?.map is not a function''))"

definition commit_oid :: "jsv \<Rightarrow> jsv + jsv" where
  "commit_oid commit = (let oid = jget commit ''oid''; signature = jget commit ''signature'' in
     if \<not> truthy oid \<or> \<not> strict_eq (jget signature ''isValid'') (JBool True)
     then Inl (js_Error (''Signed commit failed: oid='' @ js_String (nullish oid (JStr ''missing'')) @
       '' signature='' @ js_String (nullish (jget signature ''state'') (JStr ''missing''))))
     else Inr oid)"

definition postCreateCommitOnBranch :: "string \<Rightarrow> jsv \<Rightarrow> string \<Rightarrow> (gh_req, jsv) prog" where
  "postCreateCommitOnBranch endpoint input token =
     (if token = [] then Raise (js_Error ''GH_TOKEN is required to create a signed commit'')
      else (let body = json (obj [(''query'', JStr MUTATION), (''variables'', obj [(''input'', input)])]) in
        if MAX_PAYLOAD_BYTES < byteLength body
        then Raise (js_Error (''Signed commit payload is '' @ show_nat (byteLength body) @ '' bytes, above the GraphQL request limit''))
        else request (GhFetch endpoint (''Bearer '' @ token) body) (\<lambda>response.
          request (GhJson response) (\<lambda>payload.
            if \<not> truthy (jget response ''ok'')
            then sync (prop_of payload ''errors'') (\<lambda>errors.
              sync (failure_message response errors) (\<lambda>m. Raise (js_Error (''Signed commit failed: '' @ m))))
            else sync (prop_of payload ''errors'') (\<lambda>errors.
              if has_length errors
              then sync (failure_message response errors) (\<lambda>m. Raise (js_Error (''Signed commit failed: '' @ m)))
              else sync (commit_oid (jget (jget (jget payload ''data'') ''createCommitOnBranch'') ''commit'')) Ret)))))"

section \<open>The command line\<close>

text \<open>The value after the first occurrence of the flag.\<close>

definition arg_value :: "string list \<Rightarrow> string \<Rightarrow> string option" where
  "arg_value argv flag = (case dropWhile (\<lambda>a. a \<noteq> flag) argv of _ # v # _ \<Rightarrow> Some v | _ \<Rightarrow> None)"

definition usable_value :: "string \<Rightarrow> string option \<Rightarrow> jsv + string" where
  "usable_value flag v = (case v of
     Some s \<Rightarrow> if s = [] \<or> starts_with s ''--'' then Inl (js_Error (''Missing '' @ flag)) else Inr s
   | None \<Rightarrow> Inl (js_Error (''Missing '' @ flag)))"

definition readArg :: "string list \<Rightarrow> string \<Rightarrow> jsv + string" where
  "readArg argv flag = usable_value flag (arg_value argv flag)"

definition optionalArg :: "string list \<Rightarrow> string \<Rightarrow> jsv + string option" where
  "optionalArg argv flag = (if flag \<notin> set argv then Inr None else map_sum id Some (usable_value flag (arg_value argv flag)))"

text \<open>
  \<open>/github\.com[:/]([^/\s]+\/[^/\s]+?)(?:\.git)?$/\<close>: \<open>repository_here\<close> matches at the start of the text.
\<close>

definition name_char :: "char \<Rightarrow> bool" where
  "name_char c \<longleftrightarrow> c \<noteq> CHR ''/'' \<and> \<not> is_js_space c"

definition repository_here :: "string \<Rightarrow> string option" where
  "repository_here s =
     (let r = drop 10 s; owner = takeWhile name_char (tl r); rest = dropWhile name_char (tl r); name = tl rest in
      if starts_with s ''github.com'' \<and> r \<noteq> [] \<and> hd r \<in> {CHR '':'', CHR ''/''} \<and> owner \<noteq> [] \<and>
         rest \<noteq> [] \<and> hd rest = CHR ''/'' \<and> name \<noteq> [] \<and> list_all name_char name
      then Some (owner @ ''/'' @ (if ends_with name ''.git'' \<and> name \<noteq> ''.git'' then take (length name - 4) name else name))
      else None)"

fun repository_search :: "string \<Rightarrow> string option" where
  "repository_search [] = None"
| "repository_search (c # s) = (case repository_here (c # s) of Some r \<Rightarrow> Some r | None \<Rightarrow> repository_search s)"

definition repositoryNameFromRemoteUrl :: "string \<Rightarrow> jsv + string" where
  "repositoryNameFromRemoteUrl url = (case repository_search url of
     None \<Rightarrow> Inl (js_Error ''Cannot determine repository from origin'') | Some r \<Rightarrow> Inr r)"

text \<open>\<open>env\<close>: the variable \<open>GITHUB_REPOSITORY\<close>.\<close>

definition repositoryName :: "string option \<Rightarrow> git_command \<Rightarrow> jsv + string" where
  "repositoryName env git =
     (case env of
        Some (c # r) \<Rightarrow> Inr (c # r)
      | _ \<Rightarrow> (case git None [''remote'', ''get-url'', ''origin''] of
          Inl e \<Rightarrow> Inl e | Inr out \<Rightarrow> repositoryNameFromRemoteUrl (js_trim out)))"

text \<open>\<open>main\<close>, with the environment variables; the value is the line it prints.\<close>

definition first_set :: "string option \<Rightarrow> string option \<Rightarrow> string" where
  "first_set a b = (case a of Some (c # s) \<Rightarrow> c # s | _ \<Rightarrow> (case b of Some s \<Rightarrow> s | None \<Rightarrow> []))"

definition create_commit_main ::
  "string list \<Rightarrow> git_command \<Rightarrow> (string \<Rightarrow> jsv + string) \<Rightarrow> string option \<Rightarrow> string option \<Rightarrow> string option \<Rightarrow> (gh_req, string) prog" where
  "create_commit_main argv git readFile GITHUB_REPOSITORY GH_TOKEN GITHUB_TOKEN =
     sync (readArg argv ''--branch'') (\<lambda>branch.
     sync (readArg argv ''--headline'') (\<lambda>headline.
     sync (optionalArg argv ''--body'') (\<lambda>body.
     sync (map_sum id js_trim (git None [''rev-parse'', ''--show-toplevel''])) (\<lambda>repoRoot.
     sync (map_sum id js_trim (git (Some repoRoot) [''rev-parse'', ''HEAD''])) (\<lambda>expectedHeadOid.
     sync (collectWorkingTreeChanges git readFile repoRoot) (\<lambda>fileChanges.
     sync (repositoryName GITHUB_REPOSITORY git) (\<lambda>repository.
     sync (buildCreateCommitOnBranchInput repository branch expectedHeadOid headline body fileChanges) (\<lambda>input.
     await (postCreateCommitOnBranch ''https://api.github.com/graphql'' input (first_set GH_TOKEN GITHUB_TOKEN)) (\<lambda>oid.
       Ret (''Created signed commit '' @ js_String oid @ '' on '' @ branch))))))))))"

section \<open>What git prints and what is parsed\<close>

definition git_entry :: "string \<times> string \<Rightarrow> bool" where
  "git_entry e \<longleftrightarrow> fst e \<in> {''A'', ''M'', ''D''} \<and> snd e \<noteq> [] \<and> NUL \<notin> set (snd e)"

definition git_output :: "(string \<times> string) list \<Rightarrow> string" where
  "git_output es = concat (map (\<lambda>(status, path). status @ [NUL] @ path @ [NUL]) es)"

definition changed :: "(string \<times> string) list \<Rightarrow> string list" where
  "changed es = map snd (filter (\<lambda>e. fst e \<noteq> ''D'') es)"

definition deleted :: "(string \<times> string) list \<Rightarrow> string list" where
  "deleted es = map snd (filter (\<lambda>e. fst e = ''D'') es)"

text \<open>Splitting is the inverse of writing the parts with a NUL between them.\<close>

fun join_nul :: "string list \<Rightarrow> string" where
  "join_nul [] = []"
| "join_nul [p] = p"
| "join_nul (p # q # ps) = p @ NUL # join_nul (q # ps)"

lemma split_nul_not_Nil [simp]: "split_nul s \<noteq> []"
  by (cases s) (auto split: list.splits)

lemma join_split [simp]: "join_nul (split_nul s) = s"
proof (induction s)
  case (Cons c s)
  obtain w ws where "split_nul s = w # ws" by (cases "split_nul s") auto
  then show ?case using Cons by (cases ws) auto
qed simp

lemma split_parts: "p \<in> set (split_nul s) \<Longrightarrow> NUL \<notin> set p"
  by (induction s arbitrary: p) (auto split: if_splits list.splits)

lemma split_join_nul: "ps \<noteq> [] \<Longrightarrow> \<forall>p \<in> set ps. NUL \<notin> set p \<Longrightarrow> split_nul (join_nul ps) = ps"
proof (induction ps rule: join_nul.induct)
  case (2 p)
  then show ?case by (induction p) auto
next
  case (3 p q ps)
  have "split_nul (p @ NUL # s) = p # split_nul s" if "NUL \<notin> set p" for s using that by (induction p) auto
  then show ?case using 3 by simp
qed simp

lemma join_nul_snoc: "ps \<noteq> [] \<Longrightarrow> join_nul (ps @ [[]]) = join_nul ps @ [NUL]"
  by (induction ps rule: join_nul.induct) auto

definition parts_of :: "(string \<times> string) list \<Rightarrow> string list" where
  "parts_of es = concat (map (\<lambda>(status, path). [status, path]) es)"

lemma parts_of_simps [simp]: "parts_of [] = []" "parts_of ((s, p) # es) = s # p # parts_of es"
  by (simp_all add: parts_of_def)

lemma join_parts: "join_nul (parts_of es @ [[]]) = git_output es"
proof (induction es)
  case (Cons e es)
  then show ?case by (cases e; cases es; cases "hd es") (auto simp: git_output_def)
qed (simp add: git_output_def)

text \<open>The loop accepts exactly the lists of parts of entries.\<close>

lemma loop_accepts:
  "name_status_loop parts as ds = Inr (as', ds') \<longleftrightarrow>
    (\<exists>es. parts = parts_of es \<and> (\<forall>e \<in> set es. fst e \<in> {''A'', ''M'', ''D''} \<and> snd e \<noteq> []) \<and>
      as' = as @ changed es \<and> ds' = ds @ deleted es)"
proof (induction parts as ds rule: name_status_loop.induct)
  case (1 as ds)
  show ?case
  proof
    assume "name_status_loop [] as ds = Inr (as', ds')"
    then show "\<exists>es. [] = parts_of es \<and> (\<forall>e \<in> set es. fst e \<in> {''A'', ''M'', ''D''} \<and> snd e \<noteq> []) \<and>
      as' = as @ changed es \<and> ds' = ds @ deleted es"
      by (intro exI [of _ "[]"]) (simp add: changed_def deleted_def)
  next
    assume "\<exists>es. [] = parts_of es \<and> (\<forall>e \<in> set es. fst e \<in> {''A'', ''M'', ''D''} \<and> snd e \<noteq> []) \<and>
      as' = as @ changed es \<and> ds' = ds @ deleted es"
    then obtain es where "[] = parts_of es" "as' = as @ changed es" "ds' = ds @ deleted es" by blast
    moreover from this have "es = []" by (cases es) auto
    ultimately show "name_status_loop [] as ds = Inr (as', ds')" by (simp add: changed_def deleted_def)
  qed
next
  case (2 status as ds)
  have "[status] \<noteq> parts_of es" for es by (cases es) auto
  then show ?case by simp
next
  case (3 status path parts as ds)
  have c: "(\<exists>es. status # path # parts = parts_of es \<and> P es) \<longleftrightarrow> (\<exists>es. parts = parts_of es \<and> P ((status, path) # es))" for P
  proof
    assume "\<exists>es. status # path # parts = parts_of es \<and> P es"
    then obtain es where es: "status # path # parts = parts_of es" "P es" by blast
    then obtain e r where "es = e # r" by (cases es) auto
    then show "\<exists>es. parts = parts_of es \<and> P ((status, path) # es)" using es by (cases e) auto
  next
    assume "\<exists>es. parts = parts_of es \<and> P ((status, path) # es)"
    then obtain es where "parts = parts_of es \<and> P ((status, path) # es)" by blast
    then show "\<exists>es. status # path # parts = parts_of es \<and> P es" by (intro exI [of _ "(status, path) # es"]) simp
  qed
  show ?case
    unfolding c using 3 by (auto simp: SUPPORTED_STATUSES_def changed_def deleted_def)
qed

lemma length_parts: "length (parts_of es) = 2 * length es"
  by (induction es) auto

definition trailing :: "string list \<Rightarrow> string list" where
  "trailing ps = (if last ps = [] then butlast ps else ps)"

lemma parse_trailing: "parseNameStatusZ t = Inr (as, ds) \<longleftrightarrow>
    (\<exists>es. trailing (split_nul t) = parts_of es \<and> (\<forall>e \<in> set es. fst e \<in> {''A'', ''M'', ''D''} \<and> snd e \<noteq> []) \<and>
      as = changed es \<and> ds = deleted es)"
proof -
  have "parseNameStatusZ t = Inr (as, ds) \<longleftrightarrow>
      length (trailing (split_nul t)) mod 2 = 0 \<and> name_status_loop (trailing (split_nul t)) [] [] = Inr (as, ds)"
    by (simp add: parseNameStatusZ_def trailing_def Let_def)
  then show ?thesis unfolding loop_accepts by (auto simp: length_parts)
qed

lemma parts_member: "(s, p) \<in> set es \<Longrightarrow> p \<in> set (parts_of es)"
  by (induction es) auto

lemma trailing_parts:
  assumes "trailing (split_nul t) = parts_of es"
  shows "(t = git_output es \<or> t @ [NUL] = git_output es) \<and> (\<forall>e \<in> set es. NUL \<notin> set (snd e))"
proof -
  have n: "NUL \<notin> set p" if "p \<in> set (parts_of es)" for p
    using that [folded assms] split_parts [of p t] by (auto simp: trailing_def split: if_splits dest: in_set_butlastD)
  have "t = git_output es \<or> t @ [NUL] = git_output es"
  proof (cases "last (split_nul t) = []")
    case True
    then have "split_nul t = parts_of es @ [[]]"
      using assms append_butlast_last_id [OF split_nul_not_Nil [of t]] by (simp add: trailing_def)
    then show ?thesis using join_split [of t] join_parts by simp
  next
    case False
    then have p: "split_nul t = parts_of es" using assms by (simp add: trailing_def)
    then have "parts_of es \<noteq> []" by (metis split_nul_not_Nil)
    then show ?thesis using p join_split [of t] join_nul_snoc [of "parts_of es"] join_parts [of es] by simp
  qed
  then show ?thesis using n parts_member by force
qed

lemma parts_NUL: "\<forall>e \<in> set es. git_entry e \<Longrightarrow> p \<in> set (parts_of es) \<Longrightarrow> NUL \<notin> set p"
  by (induction es) (auto simp: git_entry_def NUL_def)

lemma last_parts: "\<forall>e \<in> set es. git_entry e \<Longrightarrow> es \<noteq> [] \<Longrightarrow> parts_of es \<noteq> [] \<and> last (parts_of es) \<noteq> []"
proof (induction es)
  case (Cons e es)
  then show ?case by (cases e; cases es; cases "hd es") (auto simp: git_entry_def)
qed simp

lemma trailing_output:
  assumes "\<forall>e \<in> set es. git_entry e" "t = git_output es \<or> t @ [NUL] = git_output es"
  shows "trailing (split_nul t) = parts_of es"
proof (cases "t = git_output es")
  case True
  have "split_nul t = parts_of es @ [[]]"
    unfolding True join_parts [symmetric] using parts_NUL [OF assms(1)] by (intro split_join_nul) auto
  then show ?thesis by (simp add: trailing_def)
next
  case False
  then have t: "t @ [NUL] = git_output es" using assms(2) by simp
  then have ne: "es \<noteq> []" by (auto simp: git_output_def)
  note l = last_parts [OF assms(1) ne]
  have "t = join_nul (parts_of es)" using t join_nul_snoc [of "parts_of es"] l join_parts [of es] by simp
  then have "split_nul t = parts_of es" using split_join_nul [of "parts_of es"] l parts_NUL [OF assms(1)] by simp
  then show ?thesis using l by (simp add: trailing_def)
qed

text \<open>
  C40: Reading git's list of changes: a text is accepted exactly when it is what git prints for some list of added, modified and
  deleted paths, with or without the last NUL, and the result is then the additions and the deletions of that list in their order.
\<close>

theorem parseNameStatusZ_iff:
  "parseNameStatusZ t = Inr (as, ds) \<longleftrightarrow>
    (\<exists>es. Ball (set es) git_entry \<and> (t = git_output es \<or> t @ [NUL] = git_output es) \<and> as = changed es \<and> ds = deleted es)"
proof
  assume "parseNameStatusZ t = Inr (as, ds)"
  then obtain es where es: "trailing (split_nul t) = parts_of es" "\<forall>e \<in> set es. fst e \<in> {''A'', ''M'', ''D''} \<and> snd e \<noteq> []"
    "as = changed es" "ds = deleted es"
    unfolding parse_trailing by blast
  have "t = git_output es \<or> t @ [NUL] = git_output es" "Ball (set es) git_entry"
    using trailing_parts [OF es(1)] es(2) by (auto simp: git_entry_def)
  with es(3,4) show "\<exists>es. Ball (set es) git_entry \<and> (t = git_output es \<or> t @ [NUL] = git_output es) \<and> as = changed es \<and> ds = deleted es"
    by blast
next
  assume "\<exists>es. Ball (set es) git_entry \<and> (t = git_output es \<or> t @ [NUL] = git_output es) \<and> as = changed es \<and> ds = deleted es"
  then obtain es where es: "\<forall>e \<in> set es. git_entry e" "t = git_output es \<or> t @ [NUL] = git_output es" "as = changed es" "ds = deleted es"
    by blast
  then show "parseNameStatusZ t = Inr (as, ds)"
    unfolding parse_trailing using trailing_output [OF es(1,2)] by (auto simp: git_entry_def)
qed

theorem parseNameStatusZ_iff_witness:
  "parseNameStatusZ (git_output [(''A'', ''x''), (''D'', ''y''), (''M'', ''z'')]) = Inr ([''x'', ''z''], [''y''])"
  unfolding parseNameStatusZ_iff
  by (rule exI [of _ "[(''A'', ''x''), (''D'', ''y''), (''M'', ''z'')]"]) (simp add: git_entry_def NUL_def changed_def deleted_def)

text \<open>No path is in both lists when git names every path once, and every changed file is sent with its contents.\<close>

lemma changed_deleted_disjoint: "distinct (map snd es) \<Longrightarrow> set (changed es) \<inter> set (deleted es) = {}"
  by (force simp: changed_def deleted_def distinct_map inj_on_def)

lemma read_all_contents: "read_all readFile repoRoot paths = Inr r \<Longrightarrow>
    map fst r = paths \<and> (\<forall>(path, contents) \<in> set r. \<exists>bytes. readFile (repoRoot @ ''/'' @ path) = Inr bytes \<and> contents = base64 bytes)"
  by (induction paths arbitrary: r) (auto split: sum.splits)

section \<open>The answer\<close>

text \<open>An id is only returned for an answer without errors whose commit has a valid signature.\<close>

lemma strict_eq_JBool: "strict_eq v (JBool b) \<longleftrightarrow> v = JBool b"
  by (cases v) (auto simp: strict_eq_def)

lemma post_returns_valid:
  assumes "run h (postCreateCommitOnBranch endpoint input token) w = (Inr oid, w')"
  shows "token \<noteq> [] \<and> (\<exists>body response payload w1. h (GhFetch endpoint (''Bearer '' @ token) body) w = (Inr response, w1) \<and>
      h (GhJson response) w1 = (Inr payload, w') \<and> byteLength body \<le> MAX_PAYLOAD_BYTES \<and> truthy (jget response ''ok'') \<and>
      \<not> has_length (jget payload ''errors'') \<and>
      (let commit = jget (jget (jget payload ''data'') ''createCommitOnBranch'') ''commit'' in
        oid = jget commit ''oid'' \<and> truthy oid \<and> jget (jget commit ''signature'') ''isValid'' = JBool True))"
proof -
  let ?body = "json (obj [(''query'', JStr MUTATION), (''variables'', obj [(''input'', input)])])"
  have start: "token \<noteq> []" "byteLength ?body \<le> MAX_PAYLOAD_BYTES"
    using assms by (auto simp: postCreateCommitOnBranch_def Let_def simp del: json.simps split: if_splits)
  obtain r w1 where r: "h (GhFetch endpoint (''Bearer '' @ token) ?body) w = (r, w1)" by fastforce
  obtain response where "r = Inr response"
    using assms start r by (cases r) (auto simp: postCreateCommitOnBranch_def Let_def simp del: json.simps)
  with r have r: "h (GhFetch endpoint (''Bearer '' @ token) ?body) w = (Inr response, w1)" by simp
  obtain q w2 where q: "h (GhJson response) w1 = (q, w2)" by fastforce
  obtain payload where "q = Inr payload"
    using assms start r q by (cases q) (auto simp: postCreateCommitOnBranch_def Let_def simp del: json.simps)
  with q have q: "h (GhJson response) w1 = (Inr payload, w2)" by simp
  have "w' = w2 \<and> truthy (jget response ''ok'') \<and> \<not> has_length (jget payload ''errors'') \<and>
      commit_oid (jget (jget (jget payload ''data'') ''createCommitOnBranch'') ''commit'') = Inr oid"
    using assms start r q
    by (auto simp: postCreateCommitOnBranch_def Let_def run_sync prop_of_def simp del: json.simps split: if_splits sum.splits)
  moreover from this have "let commit = jget (jget (jget payload ''data'') ''createCommitOnBranch'') ''commit'' in
      oid = jget commit ''oid'' \<and> truthy oid \<and> jget (jget commit ''signature'') ''isValid'' = JBool True"
    by (auto simp: commit_oid_def Let_def strict_eq_JBool split: if_splits)
  ultimately show ?thesis using start r q by blast
qed

text \<open>A pattern with an optional suffix: the name without \<open>.git\<close>.\<close>

lemma repository_urls:
  "repositoryNameFromRemoteUrl ''git@github.com:drmaas/tslock.git'' = Inr ''drmaas/tslock''"
  "repositoryNameFromRemoteUrl ''https://github.com/drmaas/tslock'' = Inr ''drmaas/tslock''"
  by code_simp+

end
