(* ===== verification/Conformance.thy ===== *)
theory Conformance
  imports InMemory Executor
begin

text \<open>
  packages/test-support/src: the suites every provider is tested with, as programs over the provider's operations, with the mocked clock
  (\<open>timeMode: 'mock'\<close>) or with sleeping.  \<open>exact_provider\<close> is a contract that says what each operation does to the deadline of its
  name; it is enough for the suites.  Expectations that fail throw an \<open>AssertionError\<close>; \<open>randomUUID\<close> is an argument.
\<close>

section \<open>Tests\<close>

type_synonym ('s, 'a) test = "'s world \<Rightarrow> (jsv + 'a) \<times> 's world"

definition tbind :: "('s, 'a) test \<Rightarrow> ('a \<Rightarrow> ('s, 'b) test) \<Rightarrow> ('s, 'b) test" where
  "tbind m f w = (case m w of (Inl e, w') \<Rightarrow> (Inl e, w') | (Inr a, w') \<Rightarrow> f a w')"

definition tpass :: "('s, unit) test" where
  "tpass w = (Inr (), w)"

definition effect :: "('s world \<Rightarrow> 's world) \<Rightarrow> ('s, unit) test" where
  "effect f w = (Inr (), f w)"

text \<open>\<open>expect(x).toBeDefined()\<close>, \<open>expect(x).toBeUndefined()\<close>.\<close>

definition expect_defined :: "'l option \<Rightarrow> ('s, 'l) test" where
  "expect_defined x w = (case x of None \<Rightarrow> (Inl (mk_error ''AssertionError'' ''expected undefined to be defined''), w) | Some l \<Rightarrow> (Inr l, w))"

definition expect_undefined :: "'l option \<Rightarrow> ('s, unit) test" where
  "expect_undefined x w = (case x of None \<Rightarrow> (Inr (), w) | Some l \<Rightarrow> (Inl (mk_error ''AssertionError'' ''expected a lock to be undefined''), w))"

text \<open>A provider under test: the handler of its requests, \<open>lock\<close>, and the two methods of its lock objects.\<close>

record ('q, 's, 'd) suite_provider =
  sp_handler :: "('q, 's) handler"
  sp_lock :: "LockConfiguration \<Rightarrow> ('q, 'd asl option) prog"
  sp_doUnlock :: "'d asl \<Rightarrow> ('q, unit) prog"
  sp_doExtend :: "'d asl \<Rightarrow> LockConfiguration \<Rightarrow> ('q, 'd asl option) prog"

definition t_lock :: "('q, 's, 'd) suite_provider \<Rightarrow> LockConfiguration \<Rightarrow> ('s, 'd asl option) test" where
  "t_lock p c = run (sp_handler p) (sp_lock p c)"

definition t_unlock :: "('q, 's, 'd) suite_provider \<Rightarrow> 'd asl \<Rightarrow> ('s, 'd asl) test" where
  "t_unlock p l = run (sp_handler p) (asl_unlock (sp_doUnlock p) l)"

definition t_extend :: "('q, 's, 'd) suite_provider \<Rightarrow> 'd asl \<Rightarrow> jsnum \<Rightarrow> jsnum \<Rightarrow> ('s, 'd asl option \<times> 'd asl) test" where
  "t_extend p l most least = run (sp_handler p) (asl_extend (sp_doExtend p) l most least)"

section \<open>Helpers (helpers.ts, lock-assert-helper.ts)\<close>

definition suite_config :: "string \<Rightarrow> DurationInput \<Rightarrow> DurationInput option \<Rightarrow> ('s, LockConfiguration) test" where
  "suite_config name lockAtMost lockAtLeast w =
     (case parseDuration lockAtMost of
        Inl e \<Rightarrow> (Inl e, w)
      | Inr most \<Rightarrow> (case (case lockAtLeast of None \<Rightarrow> Inr (Fin 0) | Some d \<Rightarrow> parseDuration d) of
          Inl e \<Rightarrow> (Inl e, w)
        | Inr least \<Rightarrow> (createLockConfig (JStr name) (DNumber most) (Some (DNumber least)) w, w)))"

definition uniqueLockName :: "string \<Rightarrow> string \<Rightarrow> string" where
  "uniqueLockName prefix uuid = prefix @ ''-'' @ uuid"

definition cleanupLock :: "('q, 's, 'd) suite_provider \<Rightarrow> string \<Rightarrow> 's world \<Rightarrow> 's world" where
  "cleanupLock p name w = snd
     (tbind (suite_config name (DString ''1s'') (Some (DNumber (Fin 0)))) (\<lambda>c.
      tbind (t_lock p c) (\<lambda>l. case l of None \<Rightarrow> tpass | Some k \<Rightarrow> tbind (t_unlock p k) (\<lambda>_. tpass))) w)"

definition TEST_LOCK_NAME :: string where
  "TEST_LOCK_NAME = ''__tslock_test_helper__''"

definition makeAllAssertsPass :: "bool \<Rightarrow> 'l ctx \<Rightarrow> 'l ctx" where
  "makeAllAssertsPass v ctx = ctx\<lparr>assert_stack :=
     (if v then TEST_LOCK_NAME # assert_stack ctx else drop 1 (assert_stack ctx))\<rparr>"

text \<open>\<open>advanceTime\<close>; \<open>sleep\<close> lets the given time pass.\<close>

datatype time_mode = Mock | Real

definition advanceTime :: "(jsnum \<Rightarrow> 's world \<Rightarrow> 's world) \<Rightarrow> jsnum \<Rightarrow> time_mode \<Rightarrow> jsnum \<Rightarrow> ('s, unit) test" where
  "advanceTime sleep ms mode base = effect (case mode of
     Mock \<Rightarrow> ClockProvider_setClock (js_add base ms) | Real \<Rightarrow> sleep ms)"

section \<open>The suites\<close>

text \<open>\<open>beforeEach\<close>: the clock is reset and the time read; each test has a name of its own.\<close>

definition before_each :: "(jsnum \<Rightarrow> ('s, unit) test) \<Rightarrow> ('s, unit) test" where
  "before_each t w = (let w' = ClockProvider_resetClock w in t (w_date w') w')"

definition shouldLockOnce :: "('q, 's, 'd) suite_provider \<Rightarrow> string \<Rightarrow> ('s, unit) test" where
  "shouldLockOnce p name =
     tbind (suite_config name (DString ''1m'') None) (\<lambda>c.
     tbind (t_lock p c) (\<lambda>x.
     tbind (expect_defined x) (\<lambda>l.
     tbind (t_unlock p l) (\<lambda>_. tpass))))"

definition shouldSkipIfLocked :: "('q, 's, 'd) suite_provider \<Rightarrow> string \<Rightarrow> ('s, unit) test" where
  "shouldSkipIfLocked p name =
     tbind (suite_config name (DString ''1m'') None) (\<lambda>c.
     tbind (t_lock p c) (\<lambda>x1.
     tbind (expect_defined x1) (\<lambda>lock1.
     tbind (suite_config name (DString ''1m'') None) (\<lambda>c2.
     tbind (t_lock p c2) (\<lambda>x2.
     tbind (expect_undefined x2) (\<lambda>_.
     tbind (t_unlock p lock1) (\<lambda>_. tpass)))))))"

definition shouldUnlock :: "('q, 's, 'd) suite_provider \<Rightarrow> string \<Rightarrow> ('s, unit) test" where
  "shouldUnlock p name =
     tbind (suite_config name (DString ''1m'') None) (\<lambda>c.
     tbind (t_lock p c) (\<lambda>x1.
     tbind (expect_defined x1) (\<lambda>lock1.
     tbind (t_unlock p lock1) (\<lambda>_.
     tbind (suite_config name (DString ''1m'') None) (\<lambda>c2.
     tbind (t_lock p c2) (\<lambda>x2.
     tbind (expect_defined x2) (\<lambda>lock2.
     tbind (t_unlock p lock2) (\<lambda>_. tpass))))))))"

definition shouldLockAtLeastFor ::
  "(jsnum \<Rightarrow> 's world \<Rightarrow> 's world) \<Rightarrow> time_mode \<Rightarrow> ('q, 's, 'd) suite_provider \<Rightarrow> string \<Rightarrow> jsnum \<Rightarrow> ('s, unit) test" where
  "shouldLockAtLeastFor sleep mode p name baseTime =
     tbind (suite_config name (DString ''10s'') (Some (DString ''5s''))) (\<lambda>c.
     tbind (t_lock p c) (\<lambda>x1.
     tbind (expect_defined x1) (\<lambda>lock1.
     tbind (t_unlock p lock1) (\<lambda>_.
     tbind (suite_config name (DString ''10s'') None) (\<lambda>c2.
     tbind (t_lock p c2) (\<lambda>x2.
     tbind (expect_undefined x2) (\<lambda>_.
     tbind (advanceTime sleep (Fin 6000) mode baseTime) (\<lambda>_.
     tbind (suite_config name (DString ''10s'') None) (\<lambda>c3.
     tbind (t_lock p c3) (\<lambda>x3.
     tbind (expect_defined x3) (\<lambda>lock3.
     tbind (t_unlock p lock3) (\<lambda>_. tpass))))))))))))"

definition shouldExtendLock ::
  "(jsnum \<Rightarrow> 's world \<Rightarrow> 's world) \<Rightarrow> time_mode \<Rightarrow> ('q, 's, 'd) suite_provider \<Rightarrow> string \<Rightarrow> jsnum \<Rightarrow> ('s, unit) test" where
  "shouldExtendLock sleep mode p name baseTime =
     tbind (suite_config name (DString ''10s'') None) (\<lambda>c.
     tbind (t_lock p c) (\<lambda>x.
     tbind (expect_defined x) (\<lambda>lock1.
     tbind (advanceTime sleep (Fin 6000) mode baseTime) (\<lambda>_.
     tbind (t_extend p lock1 (Fin 10000) (Fin 0)) (\<lambda>(y, _).
     tbind (expect_defined y) (\<lambda>extended.
     tbind (advanceTime sleep (case mode of Mock \<Rightarrow> Fin 14000 | Real \<Rightarrow> Fin 8000) mode baseTime) (\<lambda>_.
     tbind (suite_config name (DString ''10s'') None) (\<lambda>c2.
     tbind (t_lock p c2) (\<lambda>x2.
     tbind (expect_undefined x2) (\<lambda>_.
     tbind (t_unlock p extended) (\<lambda>_. tpass)))))))))))"

definition shouldNotExtendIfExpired ::
  "(jsnum \<Rightarrow> 's world \<Rightarrow> 's world) \<Rightarrow> time_mode \<Rightarrow> ('q, 's, 'd) suite_provider \<Rightarrow> string \<Rightarrow> jsnum \<Rightarrow> ('s, unit) test" where
  "shouldNotExtendIfExpired sleep mode p name baseTime =
     tbind (suite_config name (DString ''1s'') None) (\<lambda>c.
     tbind (t_lock p c) (\<lambda>x.
     tbind (expect_defined x) (\<lambda>lock1.
     tbind (advanceTime sleep (Fin 2000) mode baseTime) (\<lambda>_.
     tbind (t_extend p lock1 (Fin 10000) (Fin 0)) (\<lambda>(y, _).
     expect_undefined y)))))"

definition tcatch :: "('s, 'a) test \<Rightarrow> (jsv \<Rightarrow> ('s, 'a) test) \<Rightarrow> ('s, 'a) test" where
  "tcatch m f w = (case m w of (Inl e, w') \<Rightarrow> f e w' | r \<Rightarrow> r)"

definition expect_lock_exception :: "jsv \<Rightarrow> ('s, unit) test" where
  "expect_lock_exception e w =
     (if instanceof e ''LockException'' then Inr () else Inl (mk_error ''AssertionError'' ''expected a LockException''), w)"

definition shouldNotExtendIfNotExtensible :: "('q, 's, 'd) suite_provider \<Rightarrow> string \<Rightarrow> ('s, unit) test" where
  "shouldNotExtendIfNotExtensible p name =
     tbind (suite_config name (DString ''1m'') None) (\<lambda>c.
     tbind (t_lock p c) (\<lambda>x.
     tbind (expect_defined x) (\<lambda>l.
     tbind (tcatch (tbind (t_extend p l (Fin 60000) (Fin 0)) (\<lambda>(y, _). expect_undefined y)) expect_lock_exception) (\<lambda>_.
     tcatch (tbind (t_unlock p l) (\<lambda>_. tpass)) (\<lambda>_. tpass)))))"

text \<open>The tests of an extensible provider, by their names.\<close>

definition extensible_suite ::
  "(jsnum \<Rightarrow> 's world \<Rightarrow> 's world) \<Rightarrow> time_mode \<Rightarrow> ('q, 's, 'd) suite_provider \<Rightarrow> (string \<times> (string \<Rightarrow> ('s, unit) test)) list" where
  "extensible_suite sleep mode p =
     [(''shouldLockOnce'', \<lambda>name. before_each (\<lambda>_. shouldLockOnce p name)),
      (''shouldSkipIfLocked'', \<lambda>name. before_each (\<lambda>_. shouldSkipIfLocked p name)),
      (''shouldUnlock'', \<lambda>name. before_each (\<lambda>_. shouldUnlock p name)),
      (''shouldLockAtLeastFor'', \<lambda>name. before_each (shouldLockAtLeastFor sleep mode p name)),
      (''shouldExtendLock'', \<lambda>name. before_each (shouldExtendLock sleep mode p name)),
      (''shouldNotExtendIfExpired'', \<lambda>name. before_each (shouldNotExtendIfExpired sleep mode p name))]"

section \<open>Reasoning about tests\<close>

text \<open>The test gets past \<open>m\<close> with a value and a world of which \<open>Q\<close> holds.\<close>

definition wp :: "('s, 'a) test \<Rightarrow> ('a \<Rightarrow> 's world \<Rightarrow> bool) \<Rightarrow> 's world \<Rightarrow> bool" where
  "wp m Q w = (case m w of (Inl e, w') \<Rightarrow> False | (Inr a, w') \<Rightarrow> Q a w')"

lemma wp_simps [simp]:
  "wp (tbind m f) Q w = wp m (\<lambda>a. wp (f a) Q) w" "wp tpass Q w = Q () w" "wp (effect g) Q w = Q () (g w)"
  "wp (expect_defined x) R w = (\<exists>l. x = Some l \<and> R l w)" "wp (expect_undefined x) Q w = (x = None \<and> Q () w)"
  by (auto simp: wp_def tbind_def tpass_def effect_def expect_defined_def expect_undefined_def split: prod.splits sum.splits option.splits)

lemma wp_tcatch: "wp (tcatch m f) Q w = (case m w of (Inl e, w') \<Rightarrow> wp (f e) Q w' | (Inr a, w') \<Rightarrow> Q a w')"
  by (auto simp: wp_def tcatch_def split: prod.splits sum.splits)

lemma wp_unapplied:
  "wp (tbind m f) Q = wp m (\<lambda>a. wp (f a) Q)" "wp (effect g) Q = (\<lambda>w. Q () (g w))" "wp tpass Q = Q ()"
  "wp (expect_defined x) R = (\<lambda>w. \<exists>l. x = Some l \<and> R l w)" "wp (expect_undefined x) Q = (\<lambda>w. x = None \<and> Q () w)"
  by (simp_all add: fun_eq_iff)

definition valid_name :: "string \<Rightarrow> bool" where
  "valid_name name \<longleftrightarrow> name \<noteq> [] \<and> Utils_validateLockName (code_points name) = Inr ()"

lemma suite_durations:
  "parseDuration (DString ''1m'') = Inr (Fin 60000)" "parseDuration (DString ''10s'') = Inr (Fin 10000)"
  "parseDuration (DString ''5s'') = Inr (Fin 5000)" "parseDuration (DString ''1s'') = Inr (Fin 1000)"
  using parseDuration_digits [of "''1''" "''m''" 60000 "''1m''"] parseDuration_digits [of "''10''" "''s''" 1000 "''10s''"]
    parseDuration_digits [of "''5''" "''s''" 1000 "''5s''"] parseDuration_digits [of "''1''" "''s''" 1000 "''1s''"]
  by (simp_all add: is_digit_def unit_of_def UNIT_MULTIPLIERS_def js_trim_def is_js_space_def
      digits_nat_def digit_val_def Number_of_nat_def Number_times_def)

definition cfg_at :: "string \<Rightarrow> rat \<Rightarrow> rat \<Rightarrow> rat \<Rightarrow> LockConfiguration" where
  "cfg_at name most least t = \<lparr>cfg_name = name, lockAtMostFor = Fin most, lockAtLeastFor = Fin least, createdAt = Fin t\<rparr>"

lemma cfg_at_simps [simp]:
  "cfg_name (cfg_at n m l t) = n" "lockAtMostUntil (cfg_at n m l t) = Fin (t + m)" "lockAtLeastUntil (cfg_at n m l t) = Fin (t + l)"
  "extended_config (cfg_at n m l t) (Fin m') (Fin l') (Fin t') = cfg_at n m' l' t'"
  by (simp_all add: cfg_at_def lockAtMostUntil_def lockAtLeastUntil_def extended_config_def)

lemma wp_config:
  assumes "valid_name name" "ClockProvider_now w = Fin t" "parseDuration lockAtMost = Inr (Fin m)"
    "(case lockAtLeast of None \<Rightarrow> Inr (Fin 0) | Some d \<Rightarrow> parseDuration d) = Inr (Fin l)" "0 \<le> l" "l \<le> m"
  shows "wp (suite_config name lockAtMost lockAtLeast) Q w = Q (cfg_at name m l t) w"
proof -
  have "parseDuration (DNumber (Fin m)) = Inr (Fin m)" "parseDuration (DNumber (Fin l)) = Inr (Fin l)"
    using assms(5,6) by (simp_all add: parseDuration_number)
  then show ?thesis
    using assms by (simp add: wp_def suite_config_def createLockConfig_def valid_name_def cfg_at_def)
qed

text \<open>A provider that leaves \<open>doExtend\<close> to the base class passes the test for providers that are not extensible.\<close>

lemma not_extensible_passes:
  assumes "valid_name n" "ClockProvider_now w = Fin t" "sp_doExtend p = asl_doExtend" "asl_valid l"
    and "run (sp_handler p) (sp_lock p (cfg_at n 60000 0 t)) w = (Inr (Some l), w1)"
  shows "fst (shouldNotExtendIfNotExtensible p n w) = Inr ()"
proof -
  have lock: "wp (t_lock p (cfg_at n 60000 0 t)) Q w = Q (Some l) w1" for Q
    using assms(5) by (simp add: wp_def t_lock_def)
  have e: "tbind (t_extend p l (Fin 60000) (Fin 0)) f w1 = (Inl (LockException ''Extend not supported by this provider''), w1)" for f
    using assms(3,4) by (simp add: tbind_def t_extend_def run_asl_extend asl_doExtend_def)
  have x: "wp (expect_lock_exception (LockException m)) Q v = Q () v" for m Q v
    by (simp add: wp_def expect_lock_exception_def LockException_def)
  have "wp (shouldNotExtendIfNotExtensible p n) (\<lambda>_ _. True) w"
    by (simp add: shouldNotExtendIfNotExtensible_def wp_config [OF assms(1,2)] suite_durations lock wp_tcatch e x split: prod.split sum.split)
  then show ?thesis by (auto simp: wp_def split: prod.splits sum.splits)
qed

section \<open>The contract\<close>

definition freed :: "rat option \<Rightarrow> rat \<Rightarrow> bool" where
  "freed d t \<longleftrightarrow> (case d of None \<Rightarrow> True | Some u \<Rightarrow> u \<le> t)"

definition same_clock :: "'s world \<Rightarrow> 's world \<Rightarrow> bool" where
  "same_clock w w' \<longleftrightarrow> w_date w' = w_date w \<and> w_clock w' = w_clock w"

lemma same_clock_now: "same_clock w w' \<Longrightarrow> ClockProvider_now w' = ClockProvider_now w"
  by (simp add: same_clock_def ClockProvider_now_def split: option.split)

locale exact_provider =
  fixes p :: "('q, 's, 'd) suite_provider"
    and deadline :: "'s \<Rightarrow> deadlines"
    and inv :: "'s \<Rightarrow> bool"
    and okl :: "'d asl \<Rightarrow> bool"
    and okn :: "string \<Rightarrow> bool"
  assumes lock_exact: "run (sp_handler p) (sp_lock p c) w = (r, w') \<Longrightarrow> inv (w_store w) \<Longrightarrow> ClockProvider_now w = Fin t \<Longrightarrow>
      okn (cfg_name c) \<Longrightarrow> lockAtMostUntil c = Fin u \<Longrightarrow> lockAtLeastUntil c = Fin v \<Longrightarrow>
      inv (w_store w') \<and> same_clock w w' \<and>
      (if freed (deadline (w_store w) (cfg_name c)) t
       then \<exists>l. r = Inr (Some l) \<and> okl l \<and> asl_valid l \<and> asl_config l = c \<and> deadline (w_store w') (cfg_name c) = Some u
       else r = Inr None \<and> deadline (w_store w') (cfg_name c) = deadline (w_store w) (cfg_name c))"
    and unlock_exact: "run (sp_handler p) (sp_doUnlock p l) w = (r', w') \<Longrightarrow> okl l \<Longrightarrow> inv (w_store w) \<Longrightarrow> ClockProvider_now w = Fin t \<Longrightarrow>
      okn (cfg_name (asl_config l)) \<Longrightarrow> lockAtMostUntil (asl_config l) = Fin u \<Longrightarrow> lockAtLeastUntil (asl_config l) = Fin v \<Longrightarrow>
      deadline (w_store w) (cfg_name (asl_config l)) = Some u \<Longrightarrow>
      r' = Inr () \<and> inv (w_store w') \<and> same_clock w w' \<and>
      (\<forall>s \<ge> t. freed (deadline (w_store w') (cfg_name (asl_config l))) s \<longleftrightarrow> v \<le> s)"
    and extend_exact: "run (sp_handler p) (sp_doExtend p l c) w = (r, w') \<Longrightarrow> okl l \<Longrightarrow> inv (w_store w) \<Longrightarrow> ClockProvider_now w = Fin t \<Longrightarrow>
      okn (cfg_name c) \<Longrightarrow> cfg_name c = cfg_name (asl_config l) \<Longrightarrow> lockAtMostUntil c = Fin u' \<Longrightarrow> lockAtLeastUntil c = Fin v' \<Longrightarrow>
      lockAtMostUntil (asl_config l) = Fin u \<Longrightarrow> deadline (w_store w) (cfg_name c) = Some u \<Longrightarrow>
      inv (w_store w') \<and> same_clock w w' \<and>
      (if t < u
       then \<exists>k. r = Inr (Some k) \<and> okl k \<and> asl_valid k \<and> asl_config k = c \<and> deadline (w_store w') (cfg_name c) = Some u'
       else r = Inr None)"
begin

definition st :: "string \<Rightarrow> rat \<Rightarrow> rat option \<Rightarrow> 's world \<Rightarrow> bool" where
  "st n t d w \<longleftrightarrow> okn n \<and> inv (w_store w) \<and> ClockProvider_now w = Fin t \<and> deadline (w_store w) n = d"

definition holds :: "LockConfiguration \<Rightarrow> 'd asl \<Rightarrow> bool" where
  "holds c l \<longleftrightarrow> okl l \<and> asl_valid l \<and> asl_config l = c"

lemma st_now: "st n t d w \<Longrightarrow> ClockProvider_now w = Fin t"
  by (simp add: st_def)

lemma wp_lock:
  assumes "st n t d w" "freed d t" "\<And>l w'. st n t (Some (t + m)) w' \<Longrightarrow> holds (cfg_at n m k t) l \<Longrightarrow> Q (Some l) w'"
  shows "wp (t_lock p (cfg_at n m k t)) Q w"
proof -
  obtain r w' where r: "run (sp_handler p) (sp_lock p (cfg_at n m k t)) w = (r, w')" by fastforce
  from lock_exact [OF r, of t "t + m" "t + k"] assms(1,2)
  obtain l where "r = Inr (Some l)" "holds (cfg_at n m k t) l" "st n t (Some (t + m)) w'"
    by (auto simp: st_def holds_def dest: same_clock_now)
  then show ?thesis using assms(3) r by (simp add: wp_def t_lock_def)
qed

lemma wp_lock_held:
  assumes "st n t d w" "\<not> freed d t" "\<And>w'. st n t d w' \<Longrightarrow> Q None w'"
  shows "wp (t_lock p (cfg_at n m k t)) Q w"
proof -
  obtain r w' where r: "run (sp_handler p) (sp_lock p (cfg_at n m k t)) w = (r, w')" by fastforce
  from lock_exact [OF r, of t "t + m" "t + k"] assms(1,2) have "r = Inr None" "st n t d w'"
    by (auto simp: st_def dest: same_clock_now)
  then show ?thesis using assms(3) r by (simp add: wp_def t_lock_def)
qed

lemma wp_unlock:
  assumes "st n t (Some (s + m)) w" "holds (cfg_at n m k s) l"
    and "\<And>d l' w'. st n t d w' \<Longrightarrow> \<forall>x \<ge> t. freed d x \<longleftrightarrow> s + k \<le> x \<Longrightarrow> Q l' w'"
  shows "wp (t_unlock p l) Q w"
proof -
  obtain r w' where r: "run (sp_handler p) (sp_doUnlock p l) w = (r, w')" by fastforce
  from unlock_exact [OF r, of t "s + m" "s + k"] assms(1,2)
  have "r = Inr ()" "st n t (deadline (w_store w') n) w'" "\<forall>x \<ge> t. freed (deadline (w_store w') n) x \<longleftrightarrow> s + k \<le> x"
    by (auto simp: st_def holds_def dest: same_clock_now)
  then show ?thesis using assms(2,3) r by (simp add: wp_def t_unlock_def run_asl_unlock holds_def)
qed

lemma wp_extend:
  assumes "st n t (Some (s + m)) w" "holds (cfg_at n m k s) l" "t < s + m"
    and "\<And>l1 l2 w'. st n t (Some (t + m')) w' \<Longrightarrow> holds (cfg_at n m' k' t) l1 \<Longrightarrow> Q (Some l1, l2) w'"
  shows "wp (t_extend p l (Fin m') (Fin k')) Q w"
proof -
  obtain r w' where r: "run (sp_handler p) (sp_doExtend p l (cfg_at n m' k' t)) w = (r, w')" by fastforce
  have c: "okl l" "inv (w_store w)" "ClockProvider_now w = Fin t" "okn n" "asl_config l = cfg_at n m k s" "deadline (w_store w) n = Some (s + m)"
    using assms(1,2) by (simp_all add: st_def holds_def)
  from extend_exact [OF r c(1-3), of "t + m'" "t + k'" "s + m"] c assms(3)
  obtain l1 where "r = Inr (Some l1)" "holds (cfg_at n m' k' t) l1" "st n t (Some (t + m')) w'"
    by (auto simp: st_def holds_def dest: same_clock_now)
  then show ?thesis using assms(1,2,4) r by (simp add: wp_def t_extend_def run_asl_extend holds_def st_now)
qed

lemma wp_extend_expired:
  assumes "st n t (Some (s + m)) w" "holds (cfg_at n m k s) l" "s + m \<le> t" "\<And>l2 w'. Q (None, l2) w'"
  shows "wp (t_extend p l (Fin m') (Fin k')) Q w"
proof -
  obtain r w' where r: "run (sp_handler p) (sp_doExtend p l (cfg_at n m' k' t)) w = (r, w')" by fastforce
  have c: "okl l" "inv (w_store w)" "ClockProvider_now w = Fin t" "okn n" "asl_config l = cfg_at n m k s" "deadline (w_store w) n = Some (s + m)"
    using assms(1,2) by (simp_all add: st_def holds_def)
  from extend_exact [OF r c(1-3), of "t + m'" "t + k'" "s + m"] c assms(3)
  have "r = Inr None" by simp
  then show ?thesis using assms(1,2,4) r by (simp add: wp_def t_extend_def run_asl_extend holds_def st_now)
qed

lemma st_setClock: "st n t d w \<Longrightarrow> st n (of_int b) d (ClockProvider_setClock (Fin (of_int b)) w)"
  by (simp add: st_def ClockProvider_setClock_def ClockProvider_now_def)

text \<open>The tests, from a world in which the name is free.\<close>

lemma wp_cfg:
  assumes "valid_name n" "st n t d w"
  shows "wp (suite_config n (DString ''1m'') None) Q w = Q (cfg_at n 60000 0 t) w"
    "wp (suite_config n (DString ''10s'') None) Q w = Q (cfg_at n 10000 0 t) w"
    "wp (suite_config n (DString ''1s'') None) Q w = Q (cfg_at n 1000 0 t) w"
    "wp (suite_config n (DString ''10s'') (Some (DString ''5s''))) Q w = Q (cfg_at n 10000 5000 t) w"
  by (rule wp_config [OF assms(1) st_now [OF assms(2)]]; simp add: suite_durations)+

lemma shouldLockOnce_passes:
  assumes n: "valid_name n" and s: "st n t d w" "freed d t"
  shows "wp (shouldLockOnce p n) (\<lambda>_ _. True) w"
  unfolding shouldLockOnce_def wp_simps wp_cfg [OF n s(1)]
  by (rule wp_lock [OF s]) (auto intro: wp_unlock)

lemma shouldSkipIfLocked_passes:
  assumes n: "valid_name n" and s: "st n t d w" "freed d t"
  shows "wp (shouldSkipIfLocked p n) (\<lambda>_ _. True) w"
  unfolding shouldSkipIfLocked_def wp_simps wp_cfg [OF n s(1)]
proof (rule wp_lock [OF s], intro exI conjI, rule refl)
  fix l w1 assume s1: "st n t (Some (t + 60000)) w1" and l: "holds (cfg_at n 60000 0 t) l"
  show "wp (suite_config n (DString ''1m'') None)
     (\<lambda>c. wp (t_lock p c) (\<lambda>x w. x = None \<and> wp (t_unlock p l) (\<lambda>_ w. True) w)) w1"
    unfolding wp_cfg [OF n s1]
    by (rule wp_lock_held [OF s1]) (auto simp: freed_def intro: wp_unlock [OF _ l])
qed

lemma shouldUnlock_passes:
  assumes n: "valid_name n" and s: "st n t d w" "freed d t"
  shows "wp (shouldUnlock p n) (\<lambda>_ _. True) w"
  unfolding shouldUnlock_def wp_simps wp_cfg [OF n s(1)]
proof (rule wp_lock [OF s], intro exI conjI, rule refl, rule wp_unlock, assumption, assumption)
  fix l' d' w2 assume s2: "st n t d' w2" and f: "\<forall>x \<ge> t. freed d' x \<longleftrightarrow> t + 0 \<le> x"
  show "wp (suite_config n (DString ''1m'') None)
     (\<lambda>c. wp (t_lock p c) (\<lambda>x w. \<exists>l. x = Some l \<and> wp (t_unlock p l) (\<lambda>_ w. True) w)) w2"
    unfolding wp_cfg [OF n s2]
    by (rule wp_lock [OF s2]) (use f in \<open>auto intro: wp_unlock\<close>)
qed

lemma st_advance: "st n t d w \<Longrightarrow> wp (advanceTime sleep (Fin (of_int ms)) Mock (Fin (of_int b))) Q w =
    Q () (ClockProvider_setClock (Fin (of_int (b + ms))) w)"
  by (simp add: advanceTime_def)

lemma st_after: "st n t d w \<Longrightarrow> st n (of_int (b + ms)) d (ClockProvider_setClock (Fin (of_int (b + ms))) w)"
  by (rule st_setClock)

lemma shouldLockAtLeastFor_passes:
  assumes n: "valid_name n" and s: "st n (of_int b) d w" "freed d (of_int b)"
  shows "wp (shouldLockAtLeastFor sleep Mock p n (Fin (of_int b))) (\<lambda>_ _. True) w"
  unfolding shouldLockAtLeastFor_def wp_simps wp_cfg [OF n s(1)]
proof (rule wp_lock [OF s], intro exI conjI, rule refl, rule wp_unlock, assumption, assumption)
  let ?rest = "\<lambda>w. wp (suite_config n (DString ''10s'') None)
     (\<lambda>c. wp (t_lock p c) (\<lambda>x w. \<exists>l. x = Some l \<and> wp (t_unlock p l) (\<lambda>_ w. True) w)) w"
  fix d' w2 assume s2: "st n (of_int b) d' w2" and f: "\<forall>x \<ge> of_int b. freed d' x \<longleftrightarrow> of_int b + 5000 \<le> x"
  have free1: "\<not> freed d' (of_int b)" and free2: "freed d' (of_int (b + 6000))" using f by auto
  have rest: "?rest (ClockProvider_setClock (Fin (of_int (b + 6000))) w3)" if s3: "st n (of_int b) d' w3" for w3
    unfolding wp_cfg [OF n st_after [OF s3]]
    by (rule wp_lock [OF st_after [OF s3] free2]) (intro exI conjI, rule refl, rule wp_unlock, assumption, assumption, rule TrueI)
  show "wp (suite_config n (DString ''10s'') None)
     (\<lambda>c. wp (t_lock p c) (\<lambda>x w. x = None \<and> wp (advanceTime sleep (Fin 6000) Mock (Fin (of_int b))) (\<lambda>_. ?rest) w)) w2"
    unfolding wp_cfg [OF n s2]
    by (rule wp_lock_held [OF s2 free1]) (use rest in \<open>simp add: advanceTime_def\<close>)
qed

lemma shouldExtendLock_passes:
  assumes n: "valid_name n" and s: "st n (of_int b) d w" "freed d (of_int b)"
  shows "wp (shouldExtendLock sleep Mock p n (Fin (of_int b))) (\<lambda>_ _. True) w"
  unfolding shouldExtendLock_def wp_simps wp_cfg [OF n s(1)]
proof (rule wp_lock [OF s], intro exI conjI, rule refl)
  let ?later = "\<lambda>l w. wp (suite_config n (DString ''10s'') None)
     (\<lambda>c. wp (t_lock p c) (\<lambda>x w. x = None \<and> wp (t_unlock p l) (\<lambda>_ w. True) w)) w"
  fix l w1 assume s1: "st n (of_int b) (Some (of_int b + 10000)) w1" and l: "holds (cfg_at n 10000 0 (of_int b)) l"
  let ?w2 = "ClockProvider_setClock (Fin (of_int (b + 6000))) w1"
  have late: "?later k (ClockProvider_setClock (Fin (of_int (b + 14000))) w3)"
    if s3: "st n (of_int (b + 6000)) (Some (of_int (b + 6000) + 10000)) w3" and k: "holds (cfg_at n 10000 0 (of_int (b + 6000))) k" for w3 k
    unfolding wp_cfg [OF n st_after [OF s3]]
  proof (rule wp_lock_held [OF st_after [OF s3]], goal_cases)
    case (2 w4)
    then show ?case by (intro conjI refl wp_unlock [OF _ k] TrueI)
  qed (simp add: freed_def)
  have "wp (t_extend p l (Fin 10000) (Fin 0)) (\<lambda>(y, _) w. \<exists>k. y = Some k \<and>
      wp (advanceTime sleep (Fin 14000) Mock (Fin (of_int b))) (\<lambda>_. ?later k) w) ?w2"
    by (rule wp_extend [OF st_after [OF s1] l]) (use late in \<open>auto simp: advanceTime_def\<close>)
  then show "wp (advanceTime sleep (Fin 6000) Mock (Fin (of_int b)))
     (\<lambda>_. wp (t_extend p l (Fin 10000) (Fin 0))
       (\<lambda>a. wp (case a of (y, _) \<Rightarrow> tbind (expect_defined y) (\<lambda>extended.
          tbind (advanceTime sleep (case Mock of Mock \<Rightarrow> Fin 14000 | Real \<Rightarrow> Fin 8000) Mock (Fin (of_int b))) (\<lambda>_.
          tbind (suite_config n (DString ''10s'') None) (\<lambda>c2. tbind (t_lock p c2) (\<lambda>x2.
          tbind (expect_undefined x2) (\<lambda>_. tbind (t_unlock p extended) (\<lambda>_. tpass))))))) (\<lambda>_ _. True))) w1"
    by (simp add: advanceTime_def case_prod_beta' wp_unapplied)
qed

lemma shouldNotExtendIfExpired_passes:
  assumes n: "valid_name n" and s: "st n (of_int b) d w" "freed d (of_int b)"
  shows "wp (shouldNotExtendIfExpired sleep Mock p n (Fin (of_int b))) (\<lambda>_ _. True) w"
  unfolding shouldNotExtendIfExpired_def wp_simps wp_cfg [OF n s(1)]
proof (rule wp_lock [OF s], intro exI conjI, rule refl)
  fix l w1 assume s1: "st n (of_int b) (Some (of_int b + 1000)) w1" and l: "holds (cfg_at n 1000 0 (of_int b)) l"
  have "wp (t_extend p l (Fin 10000) (Fin 0)) (\<lambda>a. wp (case a of (y, _) \<Rightarrow> expect_undefined y) (\<lambda>_ _. True))
      (ClockProvider_setClock (Fin (of_int (b + 2000))) w1)"
    by (rule wp_extend_expired [OF st_after [OF s1] l]) simp_all
  then show "wp (advanceTime sleep (Fin 2000) Mock (Fin (of_int b)))
     (\<lambda>_. wp (t_extend p l (Fin 10000) (Fin 0)) (\<lambda>a. wp (case a of (y, _) \<Rightarrow> expect_undefined y) (\<lambda>_ _. True))) w1"
    by (simp add: advanceTime_def)
qed

text \<open>Every test of the suite passes.\<close>

lemma suite_passes:
  assumes n: "valid_name n" "okn n" and i: "inv (w_store w)" "w_date w = Fin (of_int b)" "freed (deadline (w_store w) n) (of_int b)"
    and t: "(test_name, t) \<in> set (extensible_suite sleep Mock p)"
  shows "fst (t n w) = Inr ()"
proof -
  let ?w = "ClockProvider_resetClock w"
  have s: "st n (of_int b) (deadline (w_store ?w) n) ?w" "freed (deadline (w_store ?w) n) (of_int b)" "w_date ?w = Fin (of_int b)"
    using i n by (simp_all add: st_def ClockProvider_resetClock_def ClockProvider_now_def)
  note passes = shouldLockOnce_passes [OF n(1) s(1,2)] shouldSkipIfLocked_passes [OF n(1) s(1,2)] shouldUnlock_passes [OF n(1) s(1,2)]
    shouldLockAtLeastFor_passes [OF n(1) s(1,2), of sleep] shouldExtendLock_passes [OF n(1) s(1,2), of sleep]
    shouldNotExtendIfExpired_passes [OF n(1) s(1,2), of sleep]
  have "wp (t n) (\<lambda>_ _. True) w"
    using t passes s(3) by (auto simp: extensible_suite_def before_each_def wp_def Let_def)
  then show ?thesis by (auto simp: wp_def split: prod.splits sum.splits)
qed

end

section \<open>The in-memory provider\<close>

definition im_suite_provider :: "(im_req, im_locks, unit) suite_provider" where
  "im_suite_provider = \<lparr>sp_handler = im_handler, sp_lock = InMemoryLockProvider_lock, sp_doUnlock = InMemoryLock_doUnlock,
     sp_doExtend = InMemoryLock_doExtend\<rparr>"

lemma im_same_clock [simp]: "same_clock w (im_set n x w)" "same_clock w (im_delete n w)" "same_clock w w"
  "same_clock w (im_set n x (im_delete m w))"
  by (simp_all add: same_clock_def im_set_def im_delete_def)

interpretation im_exact: exact_provider im_suite_provider im_deadline im_inv "\<lambda>l. True" "\<lambda>n. True"
proof (unfold_locales, goal_cases)
  case (1 c w r w' t u v)
  then show ?case
    using im_inv_cases [OF 1(2), of "cfg_name c"]
    by (auto simp: im_suite_provider_def run_InMemory_lock InMemory_lock_body_def InMemory_isLocked_def freed_def
        split: if_splits)
next
  case (2 l w r' w' t u v)
  have "entry_is (w_store w (cfg_name (asl_config l))) (lockAtMostUntil (asl_config l))"
    using im_inv_cases [OF 2(3), of "cfg_name (asl_config l)"] 2 by (auto simp: entry_is_def)
  then show ?case using 2 by (auto simp: im_suite_provider_def run_InMemory_unlock InMemoryLock_unlock_body_def freed_def)
next
  case (3 l c w r w' t u' v' u)
  have "w_store w (cfg_name (asl_config l)) = Some (Fin u)"
    using im_inv_cases [OF 3(3), of "cfg_name (asl_config l)"] 3 by auto
  then show ?case
    using 3 by (auto simp: im_suite_provider_def run_InMemory_extend InMemoryLock_extend_body_def entry_is_def Let_def split: if_splits)
qed

text \<open>
  C7: The shared test suite for extensible providers with the mocked clock passes on the in-memory provider: whatever finite
  deadlines it holds, every test with a fresh valid name runs to its end with no failed expectation.
\<close>

theorem InMemory_passes_suite:
  assumes "valid_name n" "im_inv (w_store w)" "w_date w = Fin (of_int b)" "w_store w n = None"
    and "(test_name, t) \<in> set (extensible_suite sleep Mock im_suite_provider)"
  shows "fst (t n w) = Inr ()"
  using im_exact.suite_passes [OF assms(1) _ assms(2,3) _ assms(5)] assms(4) by (simp add: freed_def im_deadline_def)

theorem InMemory_passes_suite_witness:
  "fst (before_each (shouldExtendLock (\<lambda>_ w. w) Mock im_suite_provider ''lock-1'') im_world0) = Inr ()"
proof -
  have "valid_name ''lock-1''"
    by (simp add: valid_name_def Utils_validateLockName_def code_points_def is_control_def CONTROL_CHARACTERS_def utf8_length_def
        MAX_LOCK_NAME_BYTES_def)
  then show ?thesis
    by (rule InMemory_passes_suite [where t = "\<lambda>n. before_each (shouldExtendLock (\<lambda>_ w. w) Mock im_suite_provider n)" and
          b = 0 and test_name = "''shouldExtendLock''" and sleep = "\<lambda>_ w. w"])
      (simp_all add: im_world0_def im_inv_def extensible_suite_def)
qed

end
