(* ===== verification/ConformanceStorage.thy ===== *)
theory ConformanceStorage
  imports Conformance Couchbase
begin

text \<open>
  packages/test-support/src/storage-based-integration-tests.ts: the tests of providers over a storage accessor, with a second handle
  on the same storage, and the Couchbase provider over a collection in memory under all tests.
\<close>

section \<open>The suite\<close>

definition t_insert :: "('q, 's, 'd) suite_provider \<Rightarrow> (LockConfiguration \<Rightarrow> ('q, bool) prog) \<Rightarrow> LockConfiguration \<Rightarrow> ('s, bool) test" where
  "t_insert p insertRecord c = run (sp_handler p) (insertRecord c)"

definition expect_false :: "bool \<Rightarrow> ('s, unit) test" where
  "expect_false b w = (if b then Inl (mk_error ''AssertionError'' ''expected true to be false'') else Inr (), w)"

text \<open>The part of a test under \<open>if (accessor)\<close>.\<close>

definition expect_taken ::
  "('q, 's, 'd) suite_provider \<Rightarrow> (LockConfiguration \<Rightarrow> ('q, bool) prog) option \<Rightarrow> string \<Rightarrow> ('s, unit) test" where
  "expect_taken p accessor name = (case accessor of
     None \<Rightarrow> tpass
   | Some insertRecord \<Rightarrow>
       tbind (suite_config name (DString ''1m'') None) (\<lambda>c.
       tbind (t_insert p insertRecord c) (\<lambda>inserted. expect_false inserted)))"

definition shouldCreateLockRecord ::
  "('q, 's, 'd) suite_provider \<Rightarrow> (LockConfiguration \<Rightarrow> ('q, bool) prog) option \<Rightarrow> string \<Rightarrow> ('s, unit) test" where
  "shouldCreateLockRecord p accessor name =
     tbind (suite_config name (DString ''1m'') None) (\<lambda>c.
     tbind (t_lock p c) (\<lambda>x.
     tbind (expect_defined x) (\<lambda>l.
     tbind (t_unlock p l) (\<lambda>_.
     expect_taken p accessor name))))"

definition shouldNotCreateDuplicateRecord ::
  "('q, 's, 'd) suite_provider \<Rightarrow> (LockConfiguration \<Rightarrow> ('q, bool) prog) option \<Rightarrow> string \<Rightarrow> ('s, unit) test" where
  "shouldNotCreateDuplicateRecord p accessor name =
     tbind (suite_config name (DString ''1m'') None) (\<lambda>c.
     tbind (t_lock p c) (\<lambda>x.
     tbind (expect_defined x) (\<lambda>l.
     tbind (expect_taken p accessor name) (\<lambda>_.
     tbind (t_unlock p l) (\<lambda>_. tpass)))))"

definition shouldUpdateRecordIfExpired ::
  "(jsnum \<Rightarrow> 's world \<Rightarrow> 's world) \<Rightarrow> time_mode \<Rightarrow> ('q, 's, 'd) suite_provider \<Rightarrow> string \<Rightarrow> jsnum \<Rightarrow> ('s, unit) test" where
  "shouldUpdateRecordIfExpired sleep mode p name baseTime =
     tbind (suite_config name (DString ''1s'') None) (\<lambda>c.
     tbind (t_lock p c) (\<lambda>x1.
     tbind (expect_defined x1) (\<lambda>lock1.
     tbind (t_unlock p lock1) (\<lambda>_.
     tbind (advanceTime sleep (Fin 2000) mode baseTime) (\<lambda>_.
     tbind (suite_config name (DString ''1m'') None) (\<lambda>c2.
     tbind (t_lock p c2) (\<lambda>x2.
     tbind (expect_defined x2) (\<lambda>lock2.
     tbind (t_unlock p lock2) (\<lambda>_. tpass)))))))))"

definition storage_suite ::
  "(jsnum \<Rightarrow> 's world \<Rightarrow> 's world) \<Rightarrow> time_mode \<Rightarrow> ('q, 's, 'd) suite_provider \<Rightarrow> (LockConfiguration \<Rightarrow> ('q, bool) prog) option \<Rightarrow>
   (string \<times> (string \<Rightarrow> ('s, unit) test)) list" where
  "storage_suite sleep mode p accessor = extensible_suite sleep mode p @
     [(''shouldCreateLockRecord'', \<lambda>name. before_each (\<lambda>_. shouldCreateLockRecord p accessor name)),
      (''shouldNotCreateDuplicateRecord'', \<lambda>name. before_each (\<lambda>_. shouldNotCreateDuplicateRecord p accessor name)),
      (''shouldUpdateRecordIfExpired'', \<lambda>name. before_each (shouldUpdateRecordIfExpired sleep mode p name))]"

section \<open>The contract\<close>

text \<open>Besides the exact effect on deadlines: records stay after \<open>unlock\<close>, and a name with a record cannot be inserted.\<close>

locale exact_storage_provider = exact_provider p deadline inv okl okn
  for p :: "('q, 's, 'd) suite_provider" and deadline and inv and okl and okn +
  fixes insertRecord :: "LockConfiguration \<Rightarrow> ('q, bool) prog"
  assumes unlock_keeps: "run (sp_handler p) (sp_doUnlock p l) w = (r', w') \<Longrightarrow> okl l \<Longrightarrow> inv (w_store w) \<Longrightarrow> ClockProvider_now w = Fin t \<Longrightarrow>
      okn (cfg_name (asl_config l)) \<Longrightarrow> lockAtMostUntil (asl_config l) = Fin u \<Longrightarrow> lockAtLeastUntil (asl_config l) = Fin v \<Longrightarrow>
      deadline (w_store w) (cfg_name (asl_config l)) = Some u \<Longrightarrow> deadline (w_store w') (cfg_name (asl_config l)) \<noteq> None"
    and insert_taken: "run (sp_handler p) (insertRecord c) w = (r, w') \<Longrightarrow> inv (w_store w) \<Longrightarrow> okn (cfg_name c) \<Longrightarrow>
      deadline (w_store w) (cfg_name c) \<noteq> None \<Longrightarrow> r = Inr False \<and> w' = w"
begin

lemma wp_unlock_kept:
  assumes "st n t (Some (s + m)) w" "holds (cfg_at n m k s) l"
    and "\<And>u l' w'. st n t (Some u) w' \<Longrightarrow> \<forall>x \<ge> t. u \<le> x \<longleftrightarrow> s + k \<le> x \<Longrightarrow> Q l' w'"
  shows "wp (t_unlock p l) Q w"
proof -
  obtain r w' where r: "run (sp_handler p) (sp_doUnlock p l) w = (r, w')" by fastforce
  have c: "okl l" "inv (w_store w)" "ClockProvider_now w = Fin t" "okn n" "asl_config l = cfg_at n m k s" "deadline (w_store w) n = Some (s + m)"
    using assms(1,2) by (simp_all add: st_def holds_def)
  from unlock_keeps [OF r c(1-3), of "s + m" "s + k"] c obtain u where u: "deadline (w_store w') n = Some u" by auto
  from unlock_exact [OF r c(1-3), of "s + m" "s + k"] c u
  have "r = Inr ()" "st n t (Some u) w'" "\<forall>x \<ge> t. u \<le> x \<longleftrightarrow> s + k \<le> x"
    by (auto simp: st_def freed_def dest: same_clock_now)
  then show ?thesis using assms(2,3) r by (simp add: wp_def t_unlock_def run_asl_unlock holds_def)
qed

lemma wp_taken:
  assumes "valid_name n" "st n t (Some u) w" "Q () w"
  shows "wp (expect_taken p (Some insertRecord) n) Q w"
proof -
  obtain r w' where r: "run (sp_handler p) (insertRecord (cfg_at n 60000 0 t)) w = (r, w')" by fastforce
  have "r = Inr False \<and> w' = w" using insert_taken [OF r] assms(2) by (simp add: st_def)
  then have "wp (t_insert p insertRecord (cfg_at n 60000 0 t)) R w = R False w" for R
    using r by (simp add: wp_def t_insert_def)
  then show ?thesis using assms(3) by (simp add: expect_taken_def wp_cfg [OF assms(1,2)] wp_def [of "expect_false False"] expect_false_def)
qed

lemma shouldCreateLockRecord_passes:
  assumes n: "valid_name n" and s: "st n t d w" "freed d t"
  shows "wp (shouldCreateLockRecord p (Some insertRecord) n) (\<lambda>_ _. True) w"
  unfolding shouldCreateLockRecord_def wp_simps wp_cfg [OF n s(1)]
  by (rule wp_lock [OF s]) (intro exI conjI, rule refl, rule wp_unlock_kept, assumption, assumption, rule wp_taken [OF n], assumption, rule TrueI)

lemma shouldNotCreateDuplicateRecord_passes:
  assumes n: "valid_name n" and s: "st n t d w" "freed d t"
  shows "wp (shouldNotCreateDuplicateRecord p (Some insertRecord) n) (\<lambda>_ _. True) w"
  unfolding shouldNotCreateDuplicateRecord_def wp_simps wp_cfg [OF n s(1)]
  by (rule wp_lock [OF s])
    (intro exI conjI, rule refl, rule wp_taken [OF n], assumption, rule wp_unlock, assumption, assumption, rule TrueI)

lemma shouldUpdateRecordIfExpired_passes:
  assumes n: "valid_name n" and s: "st n (of_int b) d w" "freed d (of_int b)"
  shows "wp (shouldUpdateRecordIfExpired sleep Mock p n (Fin (of_int b))) (\<lambda>_ _. True) w"
  unfolding shouldUpdateRecordIfExpired_def wp_simps wp_cfg [OF n s(1)]
proof (rule wp_lock [OF s], intro exI conjI, rule refl, rule wp_unlock, assumption, assumption)
  let ?rest = "\<lambda>w. wp (suite_config n (DString ''1m'') None)
     (\<lambda>c. wp (t_lock p c) (\<lambda>x w. \<exists>l. x = Some l \<and> wp (t_unlock p l) (\<lambda>_ w. True) w)) w"
  fix d' w2 assume s2: "st n (of_int b) d' w2" and f: "\<forall>x \<ge> of_int b. freed d' x \<longleftrightarrow> of_int b + 0 \<le> x"
  have free2: "freed d' (of_int (b + 2000))" using f by simp
  have "?rest (ClockProvider_setClock (Fin (of_int (b + 2000))) w2)"
    unfolding wp_cfg [OF n st_after [OF s2]]
    by (rule wp_lock [OF st_after [OF s2] free2]) (intro exI conjI, rule refl, rule wp_unlock, assumption, assumption, rule TrueI)
  then show "wp (advanceTime sleep (Fin 2000) Mock (Fin (of_int b))) (\<lambda>_. ?rest) w2"
    by (simp add: advanceTime_def)
qed

lemma storage_suite_passes:
  assumes n: "valid_name n" "okn n" and i: "inv (w_store w)" "w_date w = Fin (of_int b)" "freed (deadline (w_store w) n) (of_int b)"
    and t: "(test_name, t) \<in> set (storage_suite sleep Mock p (Some insertRecord))"
  shows "fst (t n w) = Inr ()"
proof (cases "(test_name, t) \<in> set (extensible_suite sleep Mock p)")
  case True
  then show ?thesis using suite_passes [OF n i] by blast
next
  case False
  let ?w = "ClockProvider_resetClock w"
  have s: "st n (of_int b) (deadline (w_store ?w) n) ?w" "freed (deadline (w_store ?w) n) (of_int b)" "w_date ?w = Fin (of_int b)"
    using i n by (simp_all add: st_def ClockProvider_resetClock_def ClockProvider_now_def)
  note passes = shouldCreateLockRecord_passes [OF n(1) s(1,2)] shouldNotCreateDuplicateRecord_passes [OF n(1) s(1,2)]
    shouldUpdateRecordIfExpired_passes [OF n(1) s(1,2), of sleep]
  have "wp (t n) (\<lambda>_ _. True) w"
    using t False passes s(3) by (auto simp: storage_suite_def before_each_def wp_def Let_def)
  then show ?thesis by (auto simp: wp_def split: prod.splits sum.splits)
qed

end

section \<open>Couchbase under the suite\<close>

definition cb_suite_provider :: "string \<Rightarrow> (couchbase_req storage_req, couchbase_store storage_state, unit) suite_provider" where
  "cb_suite_provider host = \<lparr>sp_handler = storage_handler couchbase_store_handler, sp_lock = CouchbaseLockProvider_lock host cb_opts,
     sp_doUnlock = StorageLock_doUnlock (CouchbaseStorageAccessor host cb_opts),
     sp_doExtend = StorageLock_doExtend (CouchbaseStorageAccessor host cb_opts)\<rparr>"

text \<open>The accessor of the tests: on the same collection, outside the provider's registry.\<close>

definition cb_suite_insert :: "string \<Rightarrow> LockConfiguration \<Rightarrow> (couchbase_req storage_req, bool) prog" where
  "cb_suite_insert host c = lift (Couchbase_insertRecord host cb_opts c)"

definition cbs_id :: "string \<Rightarrow> string" where
  "cbs_id n = ''shedlock:'' @ n"

definition cbs_deadline :: "couchbase_store storage_state \<Rightarrow> deadlines" where
  "cbs_deadline s n = (case fst (backend s) (cbs_id n) of
     None \<Rightarrow> None | Some (d, _) \<Rightarrow> (case jget d ''lockUntil'' of JNum (Fin u) \<Rightarrow> Some u | _ \<Rightarrow> None))"

text \<open>Every document of a name is one of this host with a finite deadline, and the registry only holds names with documents.\<close>

definition cbs_record :: "string \<Rightarrow> (jsv \<times> jsv) option \<Rightarrow> bool" where
  "cbs_record host e \<longleftrightarrow> (case e of None \<Rightarrow> False
     | Some (d, _) \<Rightarrow> (\<exists>u. jget d ''lockUntil'' = JNum (Fin u)) \<and> jget d ''lockedBy'' = JStr host)"

definition cbs_inv :: "string \<Rightarrow> couchbase_store storage_state \<Rightarrow> bool" where
  "cbs_inv host s \<longleftrightarrow> (\<forall>n. (fst (backend s) (cbs_id n) \<noteq> None \<or> n \<in> registry s) \<longrightarrow> cbs_record host (fst (backend s) (cbs_id n)))"

definition cbs_ok :: "string \<Rightarrow> bool" where
  "cbs_ok n \<longleftrightarrow> utf8_length (code_points (cbs_id n)) \<le> MAX_DOCUMENT_ID_LENGTH"

lemma cbs_docId: "cbs_ok n \<Longrightarrow> Couchbase_docId cb_opts n = Inr (cbs_id n)"
  by (simp add: cbs_ok_def Couchbase_docId_def buildDocumentId_def opt_or_def cbs_id_def Let_def)

lemma cbs_id_inj [simp]: "cbs_id m = cbs_id n \<longleftrightarrow> m = n"
  by (simp add: cbs_id_def)

lemma cbs_lockedBy [simp]: "Couchbase_lockedBy host cb_opts = host"
  by (simp add: Couchbase_lockedBy_def cb_opts_def Couchbase_resolveOptions_def opt_or_def)

lemma cbs_document:
  "jget (Couchbase_document host cb_opts c now) ''lockUntil'' = JNum (lockAtMostUntil c)"
  "jget (Couchbase_document host cb_opts c now) ''lockedBy'' = JStr host"
  by (simp_all add: Couchbase_document_def)

lemma jget_spread: "jget (obj (spread (own_props d) [(k, v)])) j = (if j = k then v else jget d j)"
  by (cases d) (simp_all add: spread_def jget_obj own_props_def, simp_all add: jget_def)

text \<open>A name has a document with a deadline, or none and is not registered.\<close>

lemma cbs_cases:
  assumes "cbs_inv host s"
  obtains "fst (backend s) (cbs_id n) = None" "n \<notin> registry s" "cbs_deadline s n = None"
  | d c u where "fst (backend s) (cbs_id n) = Some (d, c)" "jget d ''lockUntil'' = JNum (Fin u)" "jget d ''lockedBy'' = JStr host"
      "cbs_deadline s n = Some u"
proof (cases "fst (backend s) (cbs_id n)")
  case None
  then have "n \<notin> registry s" using assms unfolding cbs_inv_def cbs_record_def by fastforce
  with None that(1) show thesis by (simp add: cbs_deadline_def)
next
  case (Some e)
  then have "cbs_record host (Some e)" using assms unfolding cbs_inv_def by (metis option.discI)
  then show thesis using Some that(2) by (cases e) (auto simp: cbs_record_def cbs_deadline_def)
qed

lemma cbs_write:
  assumes "cbs_inv host s" "fst (backend s') = (fst (backend s))(cbs_id n \<mapsto> (d, c))" "registry s' \<subseteq> insert n (registry s)"
    "jget d ''lockUntil'' = JNum (Fin u)" "jget d ''lockedBy'' = JStr host"
  shows "cbs_inv host s' \<and> cbs_deadline s' n = Some u"
proof -
  have "cbs_record host (fst (backend s') (cbs_id m))" if "fst (backend s') (cbs_id m) \<noteq> None \<or> m \<in> registry s'" for m
  proof (cases "m = n")
    case True
    then show ?thesis using assms(2,4,5) by (simp add: cbs_record_def)
  next
    case False
    then have "fst (backend s) (cbs_id m) \<noteq> None \<or> m \<in> registry s" using that assms(2,3) by auto
    then have "cbs_record host (fst (backend s) (cbs_id m))" using assms(1) unfolding cbs_inv_def by blast
    then show ?thesis using False assms(2) by simp
  qed
  then show ?thesis using assms(2,4) by (simp add: cbs_inv_def cbs_deadline_def)
qed

lemma cbs_registered: "cbs_inv host s \<Longrightarrow> fst (backend s) (cbs_id n) \<noteq> None \<Longrightarrow> cbs_inv host (addRecord n s)"
  by (auto simp: cbs_inv_def)

text \<open>The operations on a document, one case each.\<close>

lemma cbs_insert_new:
  assumes "cbs_ok (cfg_name c)" "ClockProvider_now w = Fin t" "fst (w_store w) (cbs_id (cfg_name c)) = None"
  shows "run couchbase_store_handler (Couchbase_insertRecord host cb_opts c) w =
    (Inr True, w\<lparr>w_store := ((fst (w_store w))(cbs_id (cfg_name c) \<mapsto>
       (Couchbase_document host cb_opts c (Fin t), JNum (Fin (of_nat (snd (w_store w)))))), Suc (snd (w_store w)))\<rparr>)"
  using assms by (simp add: Couchbase_insertRecord_def cbs_docId)

lemma cbs_insert_old:
  assumes "cbs_ok (cfg_name c)" "fst (w_store w) (cbs_id (cfg_name c)) \<noteq> None"
  shows "run couchbase_store_handler (Couchbase_insertRecord host cb_opts c) w = (Inr False, w)"
  using assms by (auto simp: Couchbase_insertRecord_def cbs_docId cb_error_def)

lemma cbs_update:
  assumes "cbs_ok (cfg_name c)" "ClockProvider_now w = Fin t" "fst (w_store w) (cbs_id (cfg_name c)) = Some (d, x)"
    "jget d ''lockUntil'' = JNum (Fin u)"
  shows "run couchbase_store_handler (Couchbase_updateRecord host cb_opts c) w =
    (if t < u then (Inr False, w)
     else (Inr True, w\<lparr>w_store := ((fst (w_store w))(cbs_id (cfg_name c) \<mapsto>
       (Couchbase_document host cb_opts c (Fin t), JNum (Fin (of_nat (snd (w_store w)))))), Suc (snd (w_store w)))\<rparr>))"
  using assms by (simp add: Couchbase_updateRecord_def cbs_docId Let_def)

lemma cbs_unlock:
  assumes "cbs_ok (cfg_name c)" "ClockProvider_now w = Fin t" "fst (w_store w) (cbs_id (cfg_name c)) = Some (d, x)"
    "jget d ''lockUntil'' = JNum (Fin u)" "jget d ''lockedBy'' = JStr host"
  shows "run couchbase_store_handler (Couchbase_unlock host cb_opts c) w =
    (if \<not> js_eq (Fin u) (lockAtMostUntil c) then (Inr (), w)
     else (Inr (), w\<lparr>w_store := ((fst (w_store w))(cbs_id (cfg_name c) \<mapsto>
       (obj (spread (own_props d) [(''lockUntil'', JNum (unlockTime (Fin t) c))]), JNum (Fin (of_nat (snd (w_store w)))))),
       Suc (snd (w_store w)))\<rparr>))"
  using assms by (simp add: Couchbase_unlock_def cbs_docId Let_def)

lemma cbs_extend:
  assumes "cbs_ok (cfg_name c)" "ClockProvider_now w = Fin t" "fst (w_store w) (cbs_id (cfg_name c)) = Some (d, x)"
    "jget d ''lockUntil'' = JNum (Fin u)" "jget d ''lockedBy'' = JStr host"
  shows "run couchbase_store_handler (Couchbase_extend host cb_opts c (Some (Fin u))) w =
    (if u \<le> t then (Inr False, w)
     else (Inr True, w\<lparr>w_store := ((fst (w_store w))(cbs_id (cfg_name c) \<mapsto>
       (obj (spread (own_props d) [(''lockUntil'', JNum (lockAtMostUntil c))]), JNum (Fin (of_nat (snd (w_store w)))))),
       Suc (snd (w_store w)))\<rparr>))"
  using assms by (simp add: Couchbase_extend_def cbs_docId Let_def)


lemma same_clock_store [simp]: "same_clock w (w\<lparr>w_store := s\<rparr>)" "same_clock w w"
  by (simp_all add: same_clock_def)

lemma same_clock_with [simp]: "same_clock w (with_backend w v\<lparr>w_store := s\<rparr>) = same_clock (backend_world w) v"
  "same_clock w (with_backend w v) = same_clock (backend_world w) v"
  by (simp_all add: same_clock_def with_backend_def backend_world_def)

lemma backend_now: "ClockProvider_now w = Fin t \<Longrightarrow> ClockProvider_now (backend_world w) = Fin t"
  by simp

lemma cbs_lock:
  assumes r: "run (storage_handler couchbase_store_handler) (CouchbaseLockProvider_lock host cb_opts c) w = (r, w')"
    and i: "cbs_inv host (w_store w)" and t: "ClockProvider_now w = Fin t" and k: "cbs_ok (cfg_name c)" and u: "lockAtMostUntil c = Fin u"
  shows "cbs_inv host (w_store w') \<and> same_clock w w' \<and>
    (if freed (cbs_deadline (w_store w) (cfg_name c)) t
     then r = Inr (Some (new_asl c ())) \<and> cbs_deadline (w_store w') (cfg_name c) = Some u
     else r = Inr None \<and> cbs_deadline (w_store w') (cfg_name c) = cbs_deadline (w_store w) (cfg_name c))"
  using i
proof (cases rule: cbs_cases [where n = "cfg_name c"])
  case 1
  then have "r = Inr (Some (new_asl c ()))" "same_clock w w'" and s: "fst (backend (w_store w')) = (fst (backend (w_store w)))(cbs_id (cfg_name c) \<mapsto>
      (Couchbase_document host cb_opts c (Fin t), JNum (Fin (of_nat (snd (backend (w_store w)))))))"
      "registry (w_store w') = insert (cfg_name c) (registry (w_store w))"
    using r cbs_insert_new [OF k backend_now [OF t], of host]
    by (auto simp: CouchbaseLockProvider_lock_def run_StorageBased_lock CouchbaseStorageAccessor_def Let_def)
  then show ?thesis using cbs_write [OF i s(1)] 1(3) u by (simp add: cbs_document freed_def)
next
  case (2 d x v)
  have upd: "run (storage_handler couchbase_store_handler) (StorageBased_update (CouchbaseStorageAccessor host cb_opts) c) w1 =
      (if t < v then (Inr None, w1)
       else (Inr (Some (new_asl c ())), with_backend w1 ((backend_world w1)\<lparr>w_store := ((fst (backend (w_store w1)))(cbs_id (cfg_name c) \<mapsto>
         (Couchbase_document host cb_opts c (Fin t), JNum (Fin (of_nat (snd (backend (w_store w1))))))), Suc (snd (backend (w_store w1))))\<rparr>)))"
    if "backend (w_store w1) = backend (w_store w)" "ClockProvider_now w1 = Fin t" for w1
    using cbs_update [OF k backend_now [OF that(2)], of d x v host] 2(1,2) that(1)
    by (simp add: run_StorageBased_update CouchbaseStorageAccessor_def)
  let ?w1 = "if cfg_name c \<in> registry (w_store w) then w else w\<lparr>w_store := addRecord (cfg_name c) (w_store w)\<rparr>"
  have b1: "backend (w_store ?w1) = backend (w_store w)" and n1: "ClockProvider_now ?w1 = Fin t" and s1: "same_clock w ?w1"
    and i1: "cbs_inv host (w_store ?w1)"
    using t i 2(1) cbs_registered [OF i, of "cfg_name c"] by simp_all
  have "run (storage_handler couchbase_store_handler) (StorageBased_update (CouchbaseStorageAccessor host cb_opts) c) ?w1 = (r, w')"
    using r cbs_insert_old [OF k, of "backend_world w" host] 2(1)
    by (auto simp: CouchbaseLockProvider_lock_def run_StorageBased_lock CouchbaseStorageAccessor_def Let_def split: if_splits)
  then have r1: "(r, w') = (if t < v then (Inr None, ?w1)
       else (Inr (Some (new_asl c ())), with_backend ?w1 ((backend_world ?w1)\<lparr>w_store := ((fst (backend (w_store ?w1)))(cbs_id (cfg_name c) \<mapsto>
         (Couchbase_document host cb_opts c (Fin t), JNum (Fin (of_nat (snd (backend (w_store ?w1))))))), Suc (snd (backend (w_store ?w1))))\<rparr>)))"
    using upd [OF b1 n1] by simp
  have d1: "cbs_deadline (w_store ?w1) (cfg_name c) = Some v" using 2(4) b1 by (simp add: cbs_deadline_def)
  show ?thesis
  proof (cases "t < v")
    case True
    then have "r = Inr None" "w' = ?w1" using r1 by simp_all
    then show ?thesis using True s1 i1 d1 2(4) by (simp add: freed_def del: if_split)
  next
    case False
    then have "r = Inr (Some (new_asl c ()))" and w': "fst (backend (w_store w')) = (fst (backend (w_store ?w1)))(cbs_id (cfg_name c) \<mapsto>
         (Couchbase_document host cb_opts c (Fin t), JNum (Fin (of_nat (snd (backend (w_store ?w1)))))))"
      "registry (w_store w') = registry (w_store ?w1)" "same_clock ?w1 w'"
      using r1 by (simp_all del: if_split)
    moreover have "same_clock w w'" using s1 w'(3) by (simp add: same_clock_def)
    ultimately show ?thesis using cbs_write [OF i1 w'(1)] False 2(4) u by (auto simp: freed_def cbs_document)
  qed
qed

text \<open>A held name: the document whose deadline is known, before \<open>unlock\<close> and \<open>extend\<close>.\<close>

lemma cbs_held:
  assumes "cbs_inv host s" "cbs_deadline s n = Some u"
  obtains d c where "fst (backend s) (cbs_id n) = Some (d, c)" "jget d ''lockUntil'' = JNum (Fin u)" "jget d ''lockedBy'' = JStr host"
  using assms(2) that by (cases rule: cbs_cases [OF assms(1), of n]) auto

lemma cbs_doUnlock:
  assumes r: "run (storage_handler couchbase_store_handler) (StorageLock_doUnlock (CouchbaseStorageAccessor host cb_opts) l) w = (r, w')"
    and i: "cbs_inv host (w_store w)" and t: "ClockProvider_now w = Fin t" and k: "cbs_ok (cfg_name (asl_config l))"
    and u: "lockAtMostUntil (asl_config l) = Fin u" and v: "lockAtLeastUntil (asl_config l) = Fin v"
    and d: "cbs_deadline (w_store w) (cfg_name (asl_config l)) = Some u"
  shows "r = Inr () \<and> cbs_inv host (w_store w') \<and> same_clock w w' \<and>
    cbs_deadline (w_store w') (cfg_name (asl_config l)) = Some (max t v)"
proof -
  obtain e x where e: "fst (backend (w_store w)) (cbs_id (cfg_name (asl_config l))) = Some (e, x)"
    "jget e ''lockUntil'' = JNum (Fin u)" "jget e ''lockedBy'' = JStr host"
    using cbs_held [OF i d] .
  let ?e = "obj (spread (own_props e) [(''lockUntil'', JNum (unlockTime (Fin t) (asl_config l)))])"
  have until: "unlockTime (Fin t) (asl_config l) = Fin (max t v)" using v by (simp add: unlockTime_def)
  have "r = Inr ()" "same_clock w w'"
    and s: "fst (backend (w_store w')) = (fst (backend (w_store w)))(cbs_id (cfg_name (asl_config l)) \<mapsto>
      (?e, JNum (Fin (of_nat (snd (backend (w_store w)))))))" "registry (w_store w') = registry (w_store w)"
    using r cbs_unlock [OF k backend_now [OF t], of e x u host] e u
    by (auto simp: run_StorageLock_doUnlock CouchbaseStorageAccessor_def)
  then show ?thesis using cbs_write [OF i s(1), of "max t v"] e(3) until by (auto simp: jget_spread)
qed

lemma cbs_doExtend:
  assumes r: "run (storage_handler couchbase_store_handler) (StorageLock_doExtend (CouchbaseStorageAccessor host cb_opts) l c) w = (r, w')"
    and i: "cbs_inv host (w_store w)" and t: "ClockProvider_now w = Fin t" and k: "cbs_ok (cfg_name c)"
    and u': "lockAtMostUntil c = Fin u'" and u: "lockAtMostUntil (asl_config l) = Fin u"
    and d: "cbs_deadline (w_store w) (cfg_name c) = Some u"
  shows "cbs_inv host (w_store w') \<and> same_clock w w' \<and>
    (if t < u then r = Inr (Some (new_asl c ())) \<and> cbs_deadline (w_store w') (cfg_name c) = Some u' else r = Inr None)"
proof -
  obtain e x where e: "fst (backend (w_store w)) (cbs_id (cfg_name c)) = Some (e, x)"
    "jget e ''lockUntil'' = JNum (Fin u)" "jget e ''lockedBy'' = JStr host"
    using cbs_held [OF i d] .
  let ?e = "obj (spread (own_props e) [(''lockUntil'', JNum (lockAtMostUntil c))])"
  note ext = cbs_extend [OF k backend_now [OF t], of e x u host]
  show ?thesis
  proof (cases "t < u")
    case True
    then have "r = Inr (Some (new_asl c ()))" "same_clock w w'"
      and s: "fst (backend (w_store w')) = (fst (backend (w_store w)))(cbs_id (cfg_name c) \<mapsto>
        (?e, JNum (Fin (of_nat (snd (backend (w_store w)))))))" "registry (w_store w') = registry (w_store w)"
      using r ext e u by (auto simp: run_StorageLock_doExtend CouchbaseStorageAccessor_def)
    then show ?thesis using cbs_write [OF i s(1), of u'] e(3) u' True by (auto simp: jget_spread)
  next
    case False
    then have "r = Inr None" "w' = with_backend w (backend_world w)"
      using r ext e u by (auto simp: run_StorageLock_doExtend CouchbaseStorageAccessor_def)
    then show ?thesis using i False by simp
  qed
qed

interpretation cb_exact: exact_storage_provider "cb_suite_provider host" cbs_deadline "cbs_inv host" "\<lambda>l. True" cbs_ok
  "cb_suite_insert host" for host
proof (unfold_locales, goal_cases)
  case (1 c w r w' t u v)
  then show ?case using cbs_lock [OF _ 1(2-5)] by (auto simp: cb_suite_provider_def split: if_splits)
next
  case (2 l w r' w' t u v)
  then show ?case using cbs_doUnlock [OF _ 2(3-8)] by (auto simp: cb_suite_provider_def freed_def)
next
  case (3 l c w r w' t u' v' u)
  then show ?case using cbs_doExtend [OF _ 3(3-5) 3(7) 3(9,10)] by (auto simp: cb_suite_provider_def split: if_splits)
next
  case (4 l w r' w' t u v)
  then show ?case using cbs_doUnlock [OF _ 4(3-8)] by (auto simp: cb_suite_provider_def)
next
  case (5 c w r w')
  then have "fst (backend (w_store w)) (cbs_id (cfg_name c)) \<noteq> None" by (auto simp: cbs_deadline_def split: option.splits)
  then have "run couchbase_store_handler (Couchbase_insertRecord host cb_opts c) (backend_world w) = (Inr False, backend_world w)"
    using cbs_insert_old [OF 5(3), of "backend_world w" host] by simp
  then show ?case using 5(1) by (simp add: cb_suite_provider_def cb_suite_insert_def run_lift)
qed

text \<open>
  The shared test suite of providers over a storage accessor passes on the Couchbase provider with the accessor of the tests on the same
  collection: whatever documents with finite deadlines it holds, every test with a free valid name runs to its end with no failed
  expectation.
\<close>

theorem Couchbase_passes_suite:
  assumes "valid_name n" "cbs_ok n" "cbs_inv host (w_store w)" "w_date w = Fin (of_int b)"
    and "freed (cbs_deadline (w_store w) n) (of_int b)"
    and "(test_name, t) \<in> set (storage_suite sleep Mock (cb_suite_provider host) (Some (cb_suite_insert host)))"
  shows "fst (t n w) = Inr ()"
  by (rule cb_exact.storage_suite_passes [OF assms])

theorem Couchbase_passes_suite_witness:
  "fst (before_each (shouldUpdateRecordIfExpired (\<lambda>_ w. w) Mock (cb_suite_provider ''host'') ''lock-1'') cb_world0) = Inr ()"
proof -
  have "valid_name ''lock-1''" "cbs_ok ''lock-1''"
    by (simp_all add: valid_name_def Utils_validateLockName_def code_points_def is_control_def CONTROL_CHARACTERS_def utf8_length_def
        MAX_LOCK_NAME_BYTES_def cbs_ok_def cbs_id_def MAX_DOCUMENT_ID_LENGTH_def)
  then show ?thesis
    by (rule Couchbase_passes_suite [where t = "\<lambda>n. before_each (shouldUpdateRecordIfExpired (\<lambda>_ w. w) Mock (cb_suite_provider ''host'') n)"
          and b = 0 and test_name = "''shouldUpdateRecordIfExpired''" and sleep = "\<lambda>_ w. w" and host = "''host''"])
      (simp_all add: cb_world0_def cbs_inv_def cbs_deadline_def freed_def storage_suite_def)
qed

end
