(* ===== verification/Spec2Isabelle.thy ===== *)
theory Spec2Isabelle
  imports InMemory StorageBased KeepAlive Executor Tracking S3 Gcs DynamoDB Couchbase Mongo Transactions Spanner Cassandra Neo4j Search Arango Hazelcast Zookeeper Etcd Nats Redis CloudflareDo CloudflareKv CloudfrontKvs
    Scheduler Middleware WebFrameworks SqlLease Otel PeerRanges Lockfile DurableObject PackedPeers SignedCommit Conformance ConformanceStorage
begin

text \<open>
  A model of TSLock, a library of distributed locks for scheduled tasks in TypeScript.

  A task runs under a named lock with a minimum and a maximum duration.  \<open>packages/core\<close> has the contract of lock providers, the
  executor that runs tasks under locks, and wrappers; one package per service implements providers; further packages connect
  schedulers, web frameworks and metrics.  All of it is asynchronous code around a clock and services, so the model is built on three layers.

  \<^bold>\<open>Values and effects.\<close>  \<open>Prelude\<close> has the values of the language (\<open>jsv\<close>) and its numbers (\<open>jsnum\<close>: exact rationals with NaN and the
  infinities; rounding is not modelled), \<open>IsoDate\<close> dates and their printing and parsing, \<open>Json\<close> and \<open>JsonParse\<close> the two JSON functions.
  \<open>Effects\<close> has programs: \<open>('q, 'a) prog\<close> is what one async function does between its call and its outcome.  It reads the clock,
  sends requests of type \<open>'q\<close> and gets values or rejections (\<open>Inr\<close>, \<open>Inl\<close>).  \<open>run\<close> executes a program against a handler of the
  requests, \<open>runs\<close> also lets the environment step between the effects.  Services, drivers, client libraries and frameworks are not in the
  repository: they are the handlers, and what a theorem needs of them is a locale's assumption or a named premise.

  \<^bold>\<open>Core\<close> (\<open>packages/core\<close>, \<open>packages/in-memory\<close>).
  \<^item> \<open>Config\<close>: durations, configurations, validation.  \<open>createLockConfig_iff\<close> says which inputs are accepted.
  \<^item> \<open>SimpleLock\<close>: the \<open>valid\<close> flag of lock objects.
  \<^item> \<open>Lease\<close>: the contract of a provider, as the locale \<open>lease_provider\<close> over a map from names to deadlines.  Any number of clients
    lock, unlock and extend while time passes (\<open>step\<close>, \<open>reach\<close>); the contract implies mutual exclusion.  \<open>live_provider\<close> adds that a free
    name can be locked.
  \<^item> \<open>StorageBased\<close>: the provider over a storage accessor with its registry; \<open>storage_accessor\<close> is the contract of accessors, and a
    sublocale gives that of providers.
  \<^item> \<open>InMemory\<close>: the provider in a map; its theorems are exact.
  \<^item> \<open>Executor\<close>: \<open>LockAssert\<close>, \<open>LockExtender\<close> and the task executor.
  \<^item> \<open>KeepAlive\<close> and \<open>Tracking\<close>: state machines whose methods are split at their \<open>await\<close>, so that calls interleave.

  \<^bold>\<open>Providers.\<close>  Each theory has the requests, the accessor or lock object as programs, and facts.
  \<^item> \<open>S3\<close>, \<open>DynamoDB\<close>, \<open>Couchbase\<close> and \<open>SqlLease\<close> interpret the contracts over services that behave as documented, where requests may fail
    even after taking effect: mutual exclusion of these providers.
  \<^item> \<open>Sql\<close> (\<open>packages/sql-support\<close>) has the statements and parameters, \<open>SqlProviders\<close> (\<open>sql\<close>, \<open>kysely\<close>, \<open>drizzle\<close>) what runs them: no
    statement has an unbound parameter, placeholders mean the named parameters.
  \<^item> \<open>Gcs\<close>, \<open>Mongo\<close>, \<open>Transactions\<close> (Firestore and Datastore), \<open>Spanner\<close>, \<open>Cassandra\<close>, \<open>Neo4j\<close>, \<open>Search\<close> (Elasticsearch and OpenSearch),
    \<open>Arango\<close>, \<open>Hazelcast\<close>, \<open>Zookeeper\<close>, \<open>Etcd\<close> (and memcached), \<open>Nats\<close>, \<open>Redis\<close>, \<open>CloudflareDo\<close>, \<open>CloudflareKv\<close>, \<open>CloudfrontKvs\<close>:
    what each operation asks for and what its answer means, round trips of the stored formats, guards, bounds of expiry times, ends of
    transactions and sessions, and the number of retries.

  \<^bold>\<open>Adapters.\<close>  \<open>Scheduler\<close> (\<open>scheduler-core\<close>, \<open>node-cron\<close>, \<open>bree\<close>, \<open>aws-lambda\<close>, \<open>nestjs\<close>), \<open>Middleware\<close> and \<open>WebFrameworks\<close>
  (\<open>middleware-core\<close>, \<open>express\<close>, \<open>koa\<close>, \<open>hono\<close>, \<open>fastify\<close>) run tasks and requests through the executor of \<open>Executor\<close>; \<open>Otel\<close>
  (\<open>packages/otel\<close>) wraps locks and listens to the executor, and is proved to change no outcome.

  \<open>DurableObject\<close> puts the client and the server of \<open>CloudflareDo\<close> together: the JSON of every request and answer is printed and parsed.
  \<open>Conformance\<close> has the tests of \<open>packages/test-support\<close> as programs over a provider; the locale \<open>exact_provider\<close> says exactly what
  lock, unlock and extend do to a deadline, implies that the tests pass, and holds of \<open>InMemory\<close>.
  \<open>ConformanceStorage\<close> extends it to the suite of providers over a storage accessor (\<open>exact_storage_provider\<close>), with a second
  handle on the storage, and shows that \<open>Couchbase\<close> passes over a collection in memory (\<open>Couchbase_passes_suite\<close>).

  \<^bold>\<open>Maintenance scripts\<close> (\<open>scripts\<close>).  \<open>PeerRanges\<close> (\<open>check-peer-dev-ranges.mjs\<close>): version ranges as intervals against their meaning
  version by version.  \<open>Lockfile\<close> (\<open>validate-lockfile.mjs\<close>): the one pass with a stack against the repeated keys of a document.
  \<open>WorkerPool\<close> and \<open>ExportsCheck\<close> (\<open>check-exports.mjs\<close>): the pool of concurrent workers as a step relation with its invariant, the shape
  of manifests, the imports of declaration files.  \<open>PackedPeers\<close> (\<open>check-packed-peers.mjs\<close>): the ranges of packed manifests.
  \<open>SignedCommit\<close> (\<open>create-signed-commit.mjs\<close>): git's output is accepted exactly when it is the print of a list of changes, and an id is
  returned only for an answer with a valid signature (\<open>post_returns_valid\<close>).

  \<^bold>\<open>Bounds and fuel.\<close>  The JSON parser takes fuel; twice the length of the text is enough (\<open>p_enough\<close>).  The retries of
  \<open>CloudfrontKvs\<close> count down from \<open>maxEtagRetries\<close>, as in the code.  Dates are in range within 8640000000000000 milliseconds of the epoch;
  theorems about stored dates say so (\<open>date_config\<close>).  All other recursion terminates by itself.

  \<^bold>\<open>Not modelled.\<close>  Re-exports (the \<open>index.ts\<close> files) and types without code; test files, and of \<open>test-support\<close> the fuzz
  tests and the mutable clock; construction
  of clients and reading of the environment; concurrent branches of one task that share an \<open>AsyncLocalStorage\<close> store; two calls in flight on
  one lock object, outside \<open>KeepAlive\<close>, \<open>Tracking\<close> and the environment steps of \<open>runs\<close>; double rounding; characters outside Latin-1;
  the scripts for search engines and the SQL dialects beyond their text; build configuration and the benchmark; documentation.
\<close>

end
